theory Spec2Isabelle
  imports Complex_Main "HOL-Library.Char_ord" "HOL-Library.List_Lexorder"
begin

section \<open>JavaScript values\<close>

text \<open>
  A JavaScript number is a finite value, \<open>NaN\<close> or one of the two infinities. A finite
  value is kept as the rational it denotes, and the arithmetic on numbers rounds each result
  to the nearest double. The sign of zero is not distinguished: \<open>Fin 0\<close> stands for \<open>+0\<close>.
\<close>

datatype jsnum = Fin rat | NaN | PosInf | NegInf

datatype jsval =
    Undefined
  | Null
  | Bool bool
  | Num jsnum
  | Str string
  | Arr "jsval list"
  | Obj "(string \<times> jsval) list"

text \<open>An object is its list of own properties, in insertion order.\<close>

type_synonym jsobj = "(string \<times> jsval) list"

text \<open>Reading a property that is not there gives \<open>undefined\<close>.\<close>

definition obj_get :: "jsobj \<Rightarrow> string \<Rightarrow> jsval" where
  "obj_get obj k = (case map_of obj k of None \<Rightarrow> Undefined | Some v \<Rightarrow> v)"

text \<open>
  \<open>v.k\<close> for a value \<open>v\<close> that is neither \<open>undefined\<close> nor \<open>null\<close>. Only named own
  properties of objects are read this way by the code modelled here (\<open>length\<close> is read
  with \<open>js_length\<close>); on any other value such a property is \<open>undefined\<close>.
\<close>

fun get_prop :: "jsval \<Rightarrow> string \<Rightarrow> jsval" where
  "get_prop (Obj kvs) k = obj_get kvs k"
| "get_prop v k = Undefined"

text \<open>
  Reading a property of \<open>undefined\<close> or \<open>null\<close> throws a \<open>TypeError\<close>; this is its
  message, if the read \<open>v.k\<close> throws.
\<close>

definition cannot_read :: "jsval \<Rightarrow> string \<Rightarrow> string option" where
  "cannot_read v k =
     (case v of
        Undefined \<Rightarrow>
          Some (''Cannot read properties of undefined (reading '' @ [CHR 0x27] @ k @ [CHR 0x27] @ '')'')
      | Null \<Rightarrow>
          Some (''Cannot read properties of null (reading '' @ [CHR 0x27] @ k @ [CHR 0x27] @ '')'')
      | _ \<Rightarrow> None)"

text \<open>\<open>obj.k = v\<close>: an existing property keeps its place, a new one goes last.\<close>

fun obj_set :: "jsobj \<Rightarrow> string \<Rightarrow> jsval \<Rightarrow> jsobj" where
  "obj_set [] k v = [(k, v)]"
| "obj_set ((k', v') # kvs) k v =
     (if k' = k then (k, v) # kvs else (k', v') # obj_set kvs k v)"

text \<open>\<open>if (v)\<close>: the falsy values are undefined, null, false, 0, NaN and the empty string.\<close>

fun truthy :: "jsval \<Rightarrow> bool" where
  "truthy Undefined = False"
| "truthy Null = False"
| "truthy (Bool b) = b"
| "truthy (Num (Fin r)) = (r \<noteq> 0)"
| "truthy (Num NaN) = False"
| "truthy (Num PosInf) = True"
| "truthy (Num NegInf) = True"
| "truthy (Str s) = (s \<noteq> [])"
| "truthy (Arr xs) = True"
| "truthy (Obj kvs) = True"

text \<open>\<open>a || b\<close>\<close>

definition js_or :: "jsval \<Rightarrow> jsval \<Rightarrow> jsval" where
  "js_or a b = (if truthy a then a else b)"

text \<open>\<open>if (c) obj.k = v\<close>\<close>

definition assign_if :: "bool \<Rightarrow> string \<Rightarrow> jsval \<Rightarrow> jsobj \<Rightarrow> jsobj" where
  "assign_if c k v obj = (if c then obj_set obj k v else obj)"

section \<open>Thrown errors\<close>

text \<open>
  A call either throws an \<open>Error\<close>, of which only the message is ever inspected
  (\<open>Inl message\<close>), or returns (\<open>Inr value\<close>). Every service method is one
  \<open>try { ... } catch (error) { throw new Error(`<prefix>${error.message}`) }\<close>:
  whatever is thrown inside is thrown again with the method's prefix before its message.
\<close>

definition rethrow :: "string \<Rightarrow> string + 'a \<Rightarrow> string + 'a" where
  "rethrow prefix r = (case r of Inl m \<Rightarrow> Inl (prefix @ m) | Inr x \<Rightarrow> Inr x)"

section \<open>The store\<close>

text \<open>
  Modelled from the spec: the collection of the external vector database, of which the
  repository holds only the calls. It is an ordered list of documents keyed by \<open>_id\<close>;
  \<open>fault = Some m\<close> is a store that is down: connecting and every operation throw
  \<open>Error(m)\<close> and change nothing.
\<close>

record collection =
  docs :: "jsobj list"
  fault :: "string option"

definition has_id :: "string \<Rightarrow> jsobj \<Rightarrow> bool" where
  "has_id i d = (obj_get d ''_id'' = Str i)"

fun remove_first :: "('a \<Rightarrow> bool) \<Rightarrow> 'a list \<Rightarrow> 'a list" where
  "remove_first P [] = []"
| "remove_first P (x # xs) = (if P x then xs else x # remove_first P xs)"

fun replace_first :: "('a \<Rightarrow> bool) \<Rightarrow> 'a \<Rightarrow> 'a list \<Rightarrow> 'a list" where
  "replace_first P y [] = []"
| "replace_first P y (x # xs) = (if P x then y # xs else x # replace_first P y xs)"

text \<open>Modelled from the spec: \<open>findOne({_id: id})\<close>, the document or null.\<close>

definition coll_findOne :: "collection \<Rightarrow> string \<Rightarrow> string + jsobj option" where
  "coll_findOne c i =
     (case fault c of Some m \<Rightarrow> Inl m | None \<Rightarrow> Inr (find (has_id i) (docs c)))"

text \<open>Modelled from the spec: \<open>deleteOne({_id: id})\<close>, the number of documents deleted.\<close>

definition coll_deleteOne :: "collection \<Rightarrow> string \<Rightarrow> (string + nat) \<times> collection" where
  "coll_deleteOne c i =
     (case fault c of
        Some m \<Rightarrow> (Inl m, c)
      | None \<Rightarrow>
          (case find (has_id i) (docs c) of
             None \<Rightarrow> (Inr 0, c)
           | Some d \<Rightarrow> (Inr 1, c\<lparr>docs := remove_first (has_id i) (docs c)\<rparr>)))"

text \<open>
  Modelled from the spec: the update operators. \<open>$set\<close> assigns each listed field;
  \<open>$inc\<close> adds to a numeric field (a missing field counts from nothing) and is refused
  on any other value.
\<close>

definition apply_set :: "jsobj \<Rightarrow> jsobj \<Rightarrow> jsobj" where
  "apply_set kvs d = fold (\<lambda>kv acc. obj_set acc (fst kv) (snd kv)) kvs d"

fun inc_field :: "string \<Rightarrow> jsval \<Rightarrow> jsobj \<Rightarrow> string + jsobj" where
  "inc_field k (Num (Fin a)) d =
     (case obj_get d k of
        Undefined \<Rightarrow> Inr (obj_set d k (Num (Fin a)))
      | Num (Fin r) \<Rightarrow> Inr (obj_set d k (Num (Fin (r + a))))
      | _ \<Rightarrow> Inl ''$inc on a non-numeric field'')"
| "inc_field k v d = Inl ''$inc by a non-numeric amount''"

fun apply_inc :: "jsobj \<Rightarrow> jsobj \<Rightarrow> string + jsobj" where
  "apply_inc [] d = Inr d"
| "apply_inc ((k, v) # kvs) d =
     (case inc_field k v d of Inl m \<Rightarrow> Inl m | Inr d1 \<Rightarrow> apply_inc kvs d1)"

definition operator_fields :: "jsobj \<Rightarrow> string \<Rightarrow> jsobj" where
  "operator_fields update op = (case obj_get update op of Obj kvs \<Rightarrow> kvs | _ \<Rightarrow> [])"

definition apply_update :: "jsobj \<Rightarrow> jsobj \<Rightarrow> string + jsobj" where
  "apply_update update d =
     (case apply_inc (operator_fields update ''$inc'') d of
        Inl m \<Rightarrow> Inl m
      | Inr d' \<Rightarrow> Inr (apply_set (operator_fields update ''$set'') d'))"

text \<open>
  Modelled from the spec: \<open>findOneAndUpdate({_id: id}, update, {returnDocument: 'after'})\<close>,
  one atomic step on the single document with that id: the document after the update, or
  null when there is none.
\<close>

definition coll_findOneAndUpdate ::
  "collection \<Rightarrow> string \<Rightarrow> jsobj \<Rightarrow> (string + jsobj option) \<times> collection" where
  "coll_findOneAndUpdate c i update =
     (case fault c of
        Some m \<Rightarrow> (Inl m, c)
      | None \<Rightarrow>
          (case find (has_id i) (docs c) of
             None \<Rightarrow> (Inr None, c)
           | Some d \<Rightarrow>
               (case apply_update update d of
                  Inl m \<Rightarrow> (Inl m, c)
                | Inr d' \<Rightarrow> (Inr (Some d'), c\<lparr>docs := replace_first (has_id i) d' (docs c)\<rparr>))))"

section \<open>The memory service: single-record operations\<close>

text \<open>
  \<open>initialize()\<close> connects on first use and keeps the collection; a store that is
  down makes it throw.
\<close>

definition initialize :: "collection \<Rightarrow> string + unit" where
  "initialize c = (case fault c of Some m \<Rightarrow> Inl m | None \<Rightarrow> Inr ())"

text \<open>The object literal that \<open>getMemoryEmbeddingById\<close> and \<open>updateMemoryEmbedding\<close> return.\<close>

definition memory_record :: "jsobj \<Rightarrow> jsobj" where
  "memory_record result =
     [(''id'', obj_get result ''_id''),
      (''user_id'', obj_get result ''user_id''),
      (''memory_type'', obj_get result ''memory_type''),
      (''content_summary'', obj_get result ''content_summary''),
      (''original_entry_id'', obj_get result ''original_entry_id''),
      (''importance_score'', obj_get result ''importance_score''),
      (''emotional_significance'', obj_get result ''emotional_significance''),
      (''temporal_relevance'', obj_get result ''temporal_relevance''),
      (''access_frequency'', obj_get result ''access_frequency''),
      (''last_accessed'', obj_get result ''last_accessed''),
      (''created_at'', obj_get result ''created_at''),
      (''feature_vector'', obj_get result ''$vector''),
      (''gate_scores'', obj_get result ''gate_scores''),
      (''relationships'', obj_get result ''relationships''),
      (''context_needed'', obj_get result ''context_needed''),
      (''retrieval_triggers'', obj_get result ''retrieval_triggers''),
      (''updated_at'', obj_get result ''updated_at'')]"

definition getMemoryEmbeddingById :: "collection \<Rightarrow> string \<Rightarrow> string + jsobj" where
  "getMemoryEmbeddingById c i =
     rethrow ''Failed to get memory embedding: ''
       (case initialize c of
          Inl m \<Rightarrow> Inl m
        | Inr _ \<Rightarrow>
            (case coll_findOne c i of
               Inl m \<Rightarrow> Inl m
             | Inr None \<Rightarrow> Inl ''Memory embedding not found''
             | Inr (Some result) \<Rightarrow> Inr (memory_record result)))"

text \<open>
  The change-set of an update: \<open>updated_at\<close> first, then one conditional assignment per
  field, six of them on the truth value of the supplied value and four on
  \<open>!== undefined\<close>. \<open>now\<close> is what \<open>new Date().toISOString()\<close> reads.
\<close>

definition updateDoc :: "string \<Rightarrow> jsval \<Rightarrow> jsobj" where
  "updateDoc now updateData =
     (assign_if (truthy (get_prop updateData ''retrieval_triggers''))
        ''retrieval_triggers'' (get_prop updateData ''retrieval_triggers'')
      (assign_if (truthy (get_prop updateData ''context_needed''))
        ''context_needed'' (get_prop updateData ''context_needed'')
      (assign_if (truthy (get_prop updateData ''relationships''))
        ''relationships'' (get_prop updateData ''relationships'')
      (assign_if (truthy (get_prop updateData ''gate_scores''))
        ''gate_scores'' (get_prop updateData ''gate_scores'')
      (assign_if (get_prop updateData ''access_frequency'' \<noteq> Undefined)
        ''access_frequency'' (get_prop updateData ''access_frequency'')
      (assign_if (get_prop updateData ''temporal_relevance'' \<noteq> Undefined)
        ''temporal_relevance'' (get_prop updateData ''temporal_relevance'')
      (assign_if (get_prop updateData ''emotional_significance'' \<noteq> Undefined)
        ''emotional_significance'' (get_prop updateData ''emotional_significance'')
      (assign_if (get_prop updateData ''importance_score'' \<noteq> Undefined)
        ''importance_score'' (get_prop updateData ''importance_score'')
      (assign_if (truthy (get_prop updateData ''content_summary''))
        ''content_summary'' (get_prop updateData ''content_summary'')
      (assign_if (truthy (get_prop updateData ''feature_vector''))
        ''$vector'' (get_prop updateData ''feature_vector'')
        [(''updated_at'', Str now)]))))))))))"

definition updateMemoryEmbedding ::
  "collection \<Rightarrow> string \<Rightarrow> string \<Rightarrow> jsval \<Rightarrow> (string + jsobj) \<times> collection" where
  "updateMemoryEmbedding c now i updateData =
     (case initialize c of
        Inl m \<Rightarrow> (rethrow ''Failed to update memory embedding: '' (Inl m), c)
      | Inr _ \<Rightarrow>
          (case cannot_read updateData ''feature_vector'' of
             Some m \<Rightarrow> (rethrow ''Failed to update memory embedding: '' (Inl m), c)
           | None \<Rightarrow>
               (case coll_findOneAndUpdate c i [(''$set'', Obj (updateDoc now updateData))] of
                  (r, c') \<Rightarrow>
                    (rethrow ''Failed to update memory embedding: ''
                       (case r of
                          Inl m \<Rightarrow> Inl m
                        | Inr None \<Rightarrow> Inl ''Memory embedding not found''
                        | Inr (Some result) \<Rightarrow> Inr (memory_record result)),
                     c'))))"

definition deleteMemoryEmbedding ::
  "collection \<Rightarrow> string \<Rightarrow> (string + jsobj) \<times> collection" where
  "deleteMemoryEmbedding c i =
     (case initialize c of
        Inl m \<Rightarrow> (rethrow ''Failed to delete memory embedding: '' (Inl m), c)
      | Inr _ \<Rightarrow>
          (case coll_deleteOne c i of
             (r, c') \<Rightarrow>
               (rethrow ''Failed to delete memory embedding: ''
                  (case r of
                     Inl m \<Rightarrow> Inl m
                   | Inr deletedCount \<Rightarrow>
                       (if deletedCount = 0 then Inl ''Memory embedding not found''
                        else Inr [(''id'', Str i),
                                  (''deleted'', Bool True),
                                  (''deletedCount'', Num (Fin (of_nat deletedCount)))])),
                c')))"

text \<open>
  \<open>recordMemoryAccess\<close> reads the clock twice while it builds the update, once for
  \<open>last_accessed\<close> and once for \<open>updated_at\<close>.
\<close>

definition recordMemoryAccess ::
  "collection \<Rightarrow> string \<Rightarrow> string \<Rightarrow> string \<Rightarrow> (string + jsobj) \<times> collection" where
  "recordMemoryAccess c now1 now2 i =
     (case initialize c of
        Inl m \<Rightarrow> (rethrow ''Failed to record memory access: '' (Inl m), c)
      | Inr _ \<Rightarrow>
          (case coll_findOneAndUpdate c i
                  [(''$inc'', Obj [(''access_frequency'', Num (Fin 1))]),
                   (''$set'', Obj [(''last_accessed'', Str now1), (''updated_at'', Str now2)])] of
             (r, c') \<Rightarrow>
               (rethrow ''Failed to record memory access: ''
                  (case r of
                     Inl m \<Rightarrow> Inl m
                   | Inr None \<Rightarrow> Inl ''Memory embedding not found''
                   | Inr (Some result) \<Rightarrow>
                       Inr [(''id'', obj_get result ''_id''),
                            (''access_frequency'', obj_get result ''access_frequency''),
                            (''last_accessed'', obj_get result ''last_accessed'')]),
                c')))"

section \<open>The HTTP handlers of single records\<close>

text \<open>
  A handler either sends a JSON response with a status (200 unless it sets one), or hands
  the error to \<open>next\<close>, that is to the application's error-handling middleware.
\<close>

datatype response = Respond nat jsval | Next string

definition not_found_response :: response where
  "not_found_response =
     Respond 404 (Obj [(''success'', Bool False), (''error'', Str ''Memory embedding not found'')])"

text \<open>The \<open>catch\<close> block shared by the four handlers.\<close>

definition on_error :: "string \<Rightarrow> response" where
  "on_error message =
     (if message = ''Memory embedding not found'' then not_found_response else Next message)"

definition router_get_id :: "collection \<Rightarrow> string \<Rightarrow> response" where
  "router_get_id c i =
     (case getMemoryEmbeddingById c i of
        Inr memoryEmbedding \<Rightarrow>
          Respond 200 (Obj [(''success'', Bool True), (''data'', Obj memoryEmbedding)])
      | Inl message \<Rightarrow> on_error message)"

text \<open>The handler of \<open>PUT /:id\<close>, behind its validation middleware.\<close>

definition put_id_handler ::
  "collection \<Rightarrow> string \<Rightarrow> string \<Rightarrow> jsval \<Rightarrow> response \<times> collection" where
  "put_id_handler c now i body =
     (case updateMemoryEmbedding c now i body of
        (Inr memoryEmbedding, c') \<Rightarrow>
          (Respond 200 (Obj [(''success'', Bool True),
                             (''data'', Obj memoryEmbedding),
                             (''message'', Str ''Memory embedding updated successfully'')]), c')
      | (Inl message, c') \<Rightarrow> (on_error message, c'))"

definition router_delete_id :: "collection \<Rightarrow> string \<Rightarrow> response \<times> collection" where
  "router_delete_id c i =
     (case deleteMemoryEmbedding c i of
        (Inr result, c') \<Rightarrow>
          (Respond 200 (Obj [(''success'', Bool True),
                             (''data'', Obj result),
                             (''message'', Str ''Memory embedding deleted successfully'')]), c')
      | (Inl message, c') \<Rightarrow> (on_error message, c'))"

definition router_post_access ::
  "collection \<Rightarrow> string \<Rightarrow> string \<Rightarrow> string \<Rightarrow> response \<times> collection" where
  "router_post_access c now1 now2 i =
     (case recordMemoryAccess c now1 now2 i of
        (Inr result, c') \<Rightarrow>
          (Respond 200 (Obj [(''success'', Bool True),
                             (''data'', Obj result),
                             (''message'', Str ''Memory access recorded successfully'')]), c')
      | (Inl message, c') \<Rightarrow> (on_error message, c'))"

section \<open>Number arithmetic\<close>

text \<open>
  The nearest double of a rational, ties to the even mantissa: 53 significant bits down to
  the exponent \<open>-1022\<close>, a fixed step of \<open>2^-1074\<close> below (the subnormal numbers), and
  infinity from \<open>2^1024 - 2^970\<close> on.
\<close>

fun bits :: "int \<Rightarrow> nat" where
  "bits n = (if n \<le> 0 then 0 else Suc (bits (n div 2)))"

declare bits.simps [simp del]

definition pow2 :: "int \<Rightarrow> rat" where
  "pow2 n = (if 0 \<le> n then 2 ^ nat n else 1 / 2 ^ nat (- n))"

definition pow10 :: "int \<Rightarrow> rat" where
  "pow10 n = (if 0 \<le> n then 10 ^ nat n else 1 / 10 ^ nat (- n))"

text \<open>The exponent \<open>e\<close> with \<open>2^e \<le> a < 2^(e+1)\<close>, for a positive \<open>a\<close>.\<close>

definition binade :: "rat \<Rightarrow> int" where
  "binade a =
     (case quotient_of a of (p, q) \<Rightarrow>
        (let d = int (bits p) - int (bits q)
         in if pow2 d \<le> a then d else d - 1))"

definition round_half_even :: "rat \<Rightarrow> int" where
  "round_half_even x =
     (let f = \<lfloor>x\<rfloor>; d = x - of_int f
      in if d < 1 / 2 then f else if 1 / 2 < d then f + 1 else if even f then f else f + 1)"

definition to_double :: "rat \<Rightarrow> jsnum" where
  "to_double r =
     (if r = 0 then Fin 0
      else
        (let a = \<bar>r\<bar>;
             u = pow2 (max (binade a) (- 1022) - 52);
             v = of_int (round_half_even (a / u)) * u
         in if pow2 1024 \<le> v then (if r < 0 then NegInf else PosInf)
            else Fin (if r < 0 then - v else v)))"

text \<open>
  The operators \<open>+\<close>, \<open>/\<close> and \<open><\<close> on numbers, \<open>Math.floor\<close> and \<open>Math.ceil\<close>. A sum
  and a quotient are rounded to a double; the floor and the ceiling of a double are doubles.
\<close>

fun js_add :: "jsnum \<Rightarrow> jsnum \<Rightarrow> jsnum" where
  "js_add (Fin a) (Fin b) = to_double (a + b)"
| "js_add NaN y = NaN"
| "js_add x NaN = NaN"
| "js_add PosInf NegInf = NaN"
| "js_add NegInf PosInf = NaN"
| "js_add PosInf y = PosInf"
| "js_add NegInf y = NegInf"
| "js_add (Fin a) y = y"

fun js_div :: "jsnum \<Rightarrow> jsnum \<Rightarrow> jsnum" where
  "js_div (Fin a) (Fin b) =
     (if b = 0 then (if a = 0 then NaN else if 0 < a then PosInf else NegInf)
      else to_double (a / b))"
| "js_div (Fin a) PosInf = Fin 0"
| "js_div (Fin a) NegInf = Fin 0"
| "js_div PosInf (Fin b) = (if b < 0 then NegInf else PosInf)"
| "js_div NegInf (Fin b) = (if b < 0 then PosInf else NegInf)"
| "js_div NaN y = NaN"
| "js_div x NaN = NaN"
| "js_div PosInf PosInf = NaN"
| "js_div PosInf NegInf = NaN"
| "js_div NegInf PosInf = NaN"
| "js_div NegInf NegInf = NaN"

fun js_lt :: "jsnum \<Rightarrow> jsnum \<Rightarrow> bool" where
  "js_lt (Fin a) (Fin b) = (a < b)"
| "js_lt NaN y = False"
| "js_lt x NaN = False"
| "js_lt x NegInf = False"
| "js_lt PosInf y = False"
| "js_lt NegInf y = True"
| "js_lt (Fin a) PosInf = True"

fun Math_floor :: "jsnum \<Rightarrow> jsnum" where
  "Math_floor (Fin a) = Fin (of_int \<lfloor>a\<rfloor>)"
| "Math_floor x = x"

fun Math_ceil :: "jsnum \<Rightarrow> jsnum" where
  "Math_ceil (Fin a) = Fin (of_int \<lceil>a\<rceil>)"
| "Math_ceil x = x"

section \<open>Numbers and text\<close>

text \<open>Decimal digits: of a count, and of an integer that is not negative.\<close>

definition digit_char :: "nat \<Rightarrow> char" where
  "digit_char d = ''0123456789'' ! d"

fun decimal :: "nat \<Rightarrow> string" where
  "decimal n =
     (if n < 10 then [digit_char n]
      else decimal (n div 10) @ [digit_char (n mod 10)])"

fun digits_of :: "int \<Rightarrow> string" where
  "digits_of n =
     (if n < 10 then [digit_char (nat n)]
      else digits_of (n div 10) @ [digit_char (nat (n mod 10))])"

declare digits_of.simps [simp del]

fun decimal_digits :: "int \<Rightarrow> nat" where
  "decimal_digits n = (if n < 10 then 1 else Suc (decimal_digits (n div 10)))"

declare decimal_digits.simps [simp del]

text \<open>
  The text of a number (\<open>Number::toString\<close>). For a positive double \<open>a\<close> with
  \<open>10^(n-1) \<le> a < 10^n\<close> it is made of the fewest digits \<open>s\<close>, \<open>k\<close> of them, for which
  \<open>s * 10^(n-k)\<close> still rounds to \<open>a\<close> (17 always do); of two such \<open>s\<close> the nearer one,
  the even one on a tie. The digits are written plainly for \<open>-6 < n \<le> 21\<close> and with an
  exponent otherwise.
\<close>

definition decade :: "rat \<Rightarrow> int" where
  "decade a =
     (case quotient_of a of (p, q) \<Rightarrow>
        (let d = int (decimal_digits p) - int (decimal_digits q)
         in if a < pow10 d then d else d + 1))"

fun shortest :: "rat \<Rightarrow> int \<Rightarrow> nat \<Rightarrow> nat \<Rightarrow> int \<times> nat" where
  "shortest a n k 0 = (\<lfloor>a / pow10 (n - int k)\<rfloor>, k)"
| "shortest a n k (Suc fuel) =
     (let unit = pow10 (n - int k);
          lo = \<lfloor>a / unit\<rfloor>;
          below = (to_double (of_int lo * unit) = Fin a);
          above = (to_double (of_int (lo + 1) * unit) = Fin a);
          nearer_below = (a - of_int lo * unit < of_int (lo + 1) * unit - a
                          \<or> (a - of_int lo * unit = of_int (lo + 1) * unit - a \<and> even lo))
      in if below \<and> (\<not> above \<or> nearer_below) then (lo, k)
         else if above then (lo + 1, k)
         else shortest a n (Suc k) fuel)"

definition positive_to_string :: "rat \<Rightarrow> string" where
  "positive_to_string a =
     (case shortest a (decade a) 1 20 of (s0, k) \<Rightarrow>
        (let carry = (s0 = 10 ^ k);
             s = (if carry then 10 ^ (k - 1) else s0);
             n = (if carry then decade a + 1 else decade a);
             ds = digits_of s;
             e = n - 1;
             exponent = (if e < 0 then ''e-'' else ''e+'') @ digits_of \<bar>e\<bar>
         in if int k \<le> n \<and> n \<le> 21 then ds @ replicate (nat (n - int k)) (CHR ''0'')
            else if 0 < n \<and> n \<le> 21 then take (nat n) ds @ ''.'' @ drop (nat n) ds
            else if - 6 < n \<and> n \<le> 0 then ''0.'' @ replicate (nat (- n)) (CHR ''0'') @ ds
            else if k = 1 then ds @ exponent
            else [hd ds] @ ''.'' @ tl ds @ exponent))"

definition number_to_string :: "jsnum \<Rightarrow> string" where
  "number_to_string x =
     (case x of
        NaN \<Rightarrow> ''NaN''
      | PosInf \<Rightarrow> ''Infinity''
      | NegInf \<Rightarrow> ''-Infinity''
      | Fin r \<Rightarrow>
          (case to_double r of
             Fin d \<Rightarrow>
               (if d = 0 then ''0''
                else if d < 0 then ''-'' @ positive_to_string (- d)
                else positive_to_string d)
           | PosInf \<Rightarrow> ''Infinity''
           | NegInf \<Rightarrow> ''-Infinity''
           | NaN \<Rightarrow> ''NaN''))"

text \<open>
  The number a text spells (\<open>StringToNumber\<close>): white space around it is passed over and
  the empty text is 0; then either \<open>0x\<close>, \<open>0o\<close> or \<open>0b\<close> and digits of that base, or a
  decimal literal with an optional sign, fraction and exponent, or \<open>Infinity\<close>; any other
  text is \<open>NaN\<close>.
\<close>

definition is_white :: "char \<Rightarrow> bool" where
  "is_white ch = ((of_char ch :: nat) \<in> {9, 10, 11, 12, 13, 32})"

definition digit_value :: "char \<Rightarrow> nat option" where
  "digit_value ch =
     (let n = (of_char ch :: nat)
      in if 48 \<le> n \<and> n \<le> 57 then Some (n - 48)
         else if 97 \<le> n \<and> n \<le> 122 then Some (n - 87)
         else if 65 \<le> n \<and> n \<le> 90 then Some (n - 55)
         else None)"

definition in_radix :: "nat \<Rightarrow> char \<Rightarrow> bool" where
  "in_radix radix ch = (case digit_value ch of None \<Rightarrow> False | Some d \<Rightarrow> d < radix)"

fun digits_value :: "nat \<Rightarrow> int \<Rightarrow> string \<Rightarrow> int" where
  "digits_value radix acc [] = acc"
| "digits_value radix acc (ch # cs) =
     digits_value radix
       (acc * int radix + (case digit_value ch of None \<Rightarrow> 0 | Some d \<Rightarrow> int d)) cs"

definition trim :: "string \<Rightarrow> string" where
  "trim s = rev (dropWhile is_white (rev (dropWhile is_white s)))"

definition signed :: "string \<Rightarrow> bool \<times> string" where
  "signed s =
     (case s of
        ch # rest \<Rightarrow>
          if ch = CHR ''-'' then (True, rest) else if ch = CHR ''+'' then (False, rest)
          else (False, s)
      | [] \<Rightarrow> (False, s))"

definition exponent_part :: "string \<Rightarrow> int option" where
  "exponent_part s =
     (case s of
        [] \<Rightarrow> Some 0
      | ch # rest \<Rightarrow>
          if ch = CHR ''e'' \<or> ch = CHR ''E''
          then (case signed rest of (negative, ds) \<Rightarrow>
                  if ds \<noteq> [] \<and> list_all (in_radix 10) ds
                  then Some ((if negative then - 1 else 1) * digits_value 10 0 ds)
                  else None)
          else None)"

definition decimal_literal :: "string \<Rightarrow> jsnum" where
  "decimal_literal s =
     (case signed s of (negative, u) \<Rightarrow>
        if u = ''Infinity'' then (if negative then NegInf else PosInf)
        else
          (let whole = takeWhile (in_radix 10) u;
               r1 = dropWhile (in_radix 10) u;
               dotted = (case r1 of ch # _ \<Rightarrow> ch = CHR ''.'' | [] \<Rightarrow> False);
               fraction = (if dotted then takeWhile (in_radix 10) (tl r1) else []);
               r2 = (if dotted then dropWhile (in_radix 10) (tl r1) else r1)
           in if whole = [] \<and> fraction = [] then NaN
              else (case exponent_part r2 of
                      None \<Rightarrow> NaN
                    | Some ex \<Rightarrow>
                        to_double ((if negative then - 1 else 1)
                                   * of_int (digits_value 10 0 (whole @ fraction))
                                   * pow10 (ex - int (length fraction))))))"

definition radix_literal :: "string \<Rightarrow> jsnum option" where
  "radix_literal s =
     (case s of
        a # b # ds \<Rightarrow>
          (let radix = (if b = CHR ''x'' \<or> b = CHR ''X'' then 16
                        else if b = CHR ''o'' \<or> b = CHR ''O'' then 8
                        else if b = CHR ''b'' \<or> b = CHR ''B'' then 2 else 0)
           in if a = CHR ''0'' \<and> radix \<noteq> 0
              then Some (if ds \<noteq> [] \<and> list_all (in_radix radix) ds
                         then to_double (of_int (digits_value radix 0 ds)) else NaN)
              else None)
      | _ \<Rightarrow> None)"

definition string_to_number :: "string \<Rightarrow> jsnum" where
  "string_to_number s =
     (let t = trim s
      in if t = [] then Fin 0
         else (case radix_literal t of Some x \<Rightarrow> x | None \<Rightarrow> decimal_literal t))"

text \<open>
  The text of a value (\<open>ToString\<close>): an array is the texts of its elements joined by
  commas, with nothing for \<open>undefined\<close> and \<open>null\<close>; an object, as JSON and a query string
  give them, has the inherited \<open>toString\<close> (an own property of that name would make the
  conversion throw).
\<close>

fun join :: "string \<Rightarrow> string list \<Rightarrow> string" where
  "join sep [] = []"
| "join sep [x] = x"
| "join sep (x # y # ys) = x @ sep @ join sep (y # ys)"

fun to_string :: "jsval \<Rightarrow> string" where
  "to_string Undefined = ''undefined''"
| "to_string Null = ''null''"
| "to_string (Bool b) = (if b then ''true'' else ''false'')"
| "to_string (Num x) = number_to_string x"
| "to_string (Str s) = s"
| "to_string (Arr xs) =
     join '','' (map (\<lambda>x. if x = Undefined \<or> x = Null then [] else to_string x) xs)"
| "to_string (Obj kvs) = ''[object Object]''"

text \<open>\<open>ToPrimitive\<close> turns an array or an object into its text; \<open>ToNumber\<close>.\<close>

definition to_primitive :: "jsval \<Rightarrow> jsval" where
  "to_primitive v =
     (case v of Arr xs \<Rightarrow> Str (to_string v) | Obj kvs \<Rightarrow> Str (to_string v) | _ \<Rightarrow> v)"

definition to_number :: "jsval \<Rightarrow> jsnum" where
  "to_number v =
     (case to_primitive v of
        Undefined \<Rightarrow> NaN
      | Null \<Rightarrow> Fin 0
      | Bool b \<Rightarrow> Fin (if b then 1 else 0)
      | Num x \<Rightarrow> x
      | Str s \<Rightarrow> string_to_number s
      | _ \<Rightarrow> NaN)"

definition is_text :: "jsval \<Rightarrow> bool" where
  "is_text v = (case v of Str s \<Rightarrow> True | _ \<Rightarrow> False)"

text \<open>
  \<open>a + b\<close>: when either operand is text (or an array or object, which become text) the
  result is the two texts joined; otherwise the sum of the two numbers.
\<close>

definition js_plus :: "jsval \<Rightarrow> jsval \<Rightarrow> jsval" where
  "js_plus a b =
     (let pa = to_primitive a; pb = to_primitive b
      in if is_text pa \<or> is_text pb then Str (to_string pa @ to_string pb)
         else Num (js_add (to_number pa) (to_number pb)))"

text \<open>\<open>a / b\<close>\<close>

definition js_divide :: "jsval \<Rightarrow> jsval \<Rightarrow> jsnum" where
  "js_divide a b = js_div (to_number a) (to_number b)"

text \<open>
  \<open>a < b\<close>: two texts are compared character by character, anything else as numbers;
  \<open>a > b\<close> is \<open>b < a\<close>.
\<close>

definition js_less :: "jsval \<Rightarrow> jsval \<Rightarrow> bool" where
  "js_less a b =
     (case (to_primitive a, to_primitive b) of
        (Str s, Str t) \<Rightarrow> s < t
      | (pa, pb) \<Rightarrow> js_lt (to_number pa) (to_number pb))"

definition js_greater :: "jsval \<Rightarrow> jsval \<Rightarrow> bool" where
  "js_greater a b = js_less b a"

text \<open>
  \<open>v.length\<close>: the number of elements of an array, of characters of a string, or
  whatever an object keeps under that name.
\<close>

fun js_length :: "jsval \<Rightarrow> jsval" where
  "js_length (Arr xs) = Num (Fin (of_nat (length xs)))"
| "js_length (Str s) = Num (Fin (of_nat (length s)))"
| "js_length (Obj kvs) = obj_get kvs ''length''"
| "js_length v = Undefined"

section \<open>Filtered and ranked reads of the store\<close>

text \<open>
  Modelled from the spec: how the database evaluates a filter object on a document, which
  of two documents a sort specification puts first and how a document scores against a
  query vector is the database's own business, and so is the text JavaScript gives a value
  used as a property name. They are parameters of the model.
\<close>

record engine =
  matches :: "jsobj \<Rightarrow> jsobj \<Rightarrow> bool"
  precedes :: "jsobj \<Rightarrow> jsobj \<Rightarrow> jsobj \<Rightarrow> bool"
  similarity :: "jsval \<Rightarrow> jsobj \<Rightarrow> rat"
  property_key :: "jsval \<Rightarrow> string"

fun insert_by :: "('a \<Rightarrow> 'a \<Rightarrow> bool) \<Rightarrow> 'a \<Rightarrow> 'a list \<Rightarrow> 'a list" where
  "insert_by before x [] = [x]"
| "insert_by before x (y # ys) =
     (if before x y then x # y # ys else y # insert_by before x ys)"

definition ordered :: "engine \<Rightarrow> jsobj \<Rightarrow> jsobj list \<Rightarrow> jsobj list" where
  "ordered e sortObj ds = foldr (insert_by (precedes e sortObj)) ds []"

text \<open>
  Modelled from the spec: \<open>skip(n)\<close> passes over the first \<open>n\<close> documents and
  \<open>limit(n)\<close> keeps at most \<open>n\<close>, where \<open>limit(0)\<close> means no limit; a count that is
  not a natural number is refused.
\<close>

definition count_of :: "jsnum \<Rightarrow> nat option" where
  "count_of n =
     (case n of
        Fin r \<Rightarrow> (if 0 \<le> r \<and> r = of_int \<lfloor>r\<rfloor> then Some (nat \<lfloor>r\<rfloor>) else None)
      | _ \<Rightarrow> None)"

definition skipped :: "jsnum \<Rightarrow> 'a list \<Rightarrow> string + 'a list" where
  "skipped n xs = (case count_of n of None \<Rightarrow> Inl ''invalid skip'' | Some k \<Rightarrow> Inr (drop k xs))"

definition limited :: "jsnum \<Rightarrow> 'a list \<Rightarrow> string + 'a list" where
  "limited n xs =
     (case count_of n of
        None \<Rightarrow> Inl ''invalid limit''
      | Some k \<Rightarrow> Inr (if k = 0 then xs else take k xs))"

text \<open>
  Modelled from the spec: \<open>find(query).sort(sortObj).skip(offset).limit(limit).toArray()\<close>.
  A count handed over as text is read as the number it spells; a count that is neither a
  number nor text is refused.
\<close>

definition count_read :: "jsval \<Rightarrow> jsnum" where
  "count_read v = (case v of Num n \<Rightarrow> n | Str s \<Rightarrow> string_to_number s | _ \<Rightarrow> NaN)"

definition coll_find ::
  "engine \<Rightarrow> collection \<Rightarrow> jsobj \<Rightarrow> jsobj \<Rightarrow> jsval \<Rightarrow> jsval \<Rightarrow> string + jsobj list" where
  "coll_find e c query sortObj offset limit =
     (case fault c of
        Some m \<Rightarrow> Inl m
      | None \<Rightarrow>
          (case skipped (count_read offset)
                  (ordered e sortObj (filter (matches e query) (docs c))) of
             Inl m \<Rightarrow> Inl m
           | Inr rest \<Rightarrow> limited (count_read limit) rest))"

text \<open>Modelled from the spec: \<open>countDocuments(query)\<close>.\<close>

definition coll_countDocuments :: "engine \<Rightarrow> collection \<Rightarrow> jsobj \<Rightarrow> string + nat" where
  "coll_countDocuments e c query =
     (case fault c of
        Some m \<Rightarrow> Inl m
      | None \<Rightarrow> Inr (length (filter (matches e query) (docs c))))"

text \<open>
  Modelled from the spec: \<open>find(query, {sort: {$vector: v}, limit, includeSimilarity: true})\<close>,
  the matching documents by descending similarity to \<open>v\<close>, at most \<open>limit\<close> of them, each
  carrying its score as \<open>$similarity\<close>.
\<close>

definition coll_find_similar ::
  "engine \<Rightarrow> collection \<Rightarrow> jsobj \<Rightarrow> jsval \<Rightarrow> jsnum \<Rightarrow> string + jsobj list" where
  "coll_find_similar e c query v limit =
     (case fault c of
        Some m \<Rightarrow> Inl m
      | None \<Rightarrow>
          (case limited limit
                  (sort_key (\<lambda>d. - similarity e v d) (filter (matches e query) (docs c))) of
             Inl m \<Rightarrow> Inl m
           | Inr ranked \<Rightarrow>
               Inr (map (\<lambda>d. obj_set d ''$similarity'' (Num (Fin (similarity e v d)))) ranked)))"

text \<open>
  Modelled from the spec: \<open>aggregate([{$group: {_id: '$<field>', count: {$sum: 1}}}])\<close>,
  one \<open>{_id, count}\<close> per distinct value of the field (a document without the field groups
  under null), none for an empty collection.
\<close>

definition group_key :: "string \<Rightarrow> jsobj \<Rightarrow> jsval" where
  "group_key k d = (case obj_get d k of Undefined \<Rightarrow> Null | v \<Rightarrow> v)"

definition coll_aggregate_count :: "collection \<Rightarrow> string \<Rightarrow> string + jsobj list" where
  "coll_aggregate_count c k =
     (case fault c of
        Some m \<Rightarrow> Inl m
      | None \<Rightarrow>
          Inr (map (\<lambda>v. [(''_id'', v),
                          (''count'', Num (Fin (of_nat (length (filter (\<lambda>d. group_key k d = v) (docs c))))))])
                 (remdups (map (group_key k) (docs c)))))"

text \<open>
  Modelled from the spec: \<open>aggregate([{$group: {_id: null, <name>: {$avg: '$<field>'}, ...}}])\<close>,
  a single group over all documents, none for an empty collection; \<open>$avg\<close> is the mean of
  the numeric values of the field, null when there is none.
\<close>

fun numeric_values :: "string \<Rightarrow> jsobj list \<Rightarrow> rat list" where
  "numeric_values k [] = []"
| "numeric_values k (d # ds) =
     (case obj_get d k of Num (Fin r) \<Rightarrow> r # numeric_values k ds | _ \<Rightarrow> numeric_values k ds)"

definition avg :: "string \<Rightarrow> jsobj list \<Rightarrow> jsval" where
  "avg k ds =
     (let rs = numeric_values k ds
      in if rs = [] then Null else Num (Fin (sum_list rs / of_nat (length rs))))"

definition coll_aggregate_avg ::
  "collection \<Rightarrow> (string \<times> string) list \<Rightarrow> string + jsobj list" where
  "coll_aggregate_avg c named =
     (case fault c of
        Some m \<Rightarrow> Inl m
      | None \<Rightarrow>
          Inr (if docs c = [] then []
               else [(''_id'', Null) # map (\<lambda>nf. (fst nf, avg (snd nf) (docs c))) named]))"

section \<open>The memory service: searches and statistics\<close>

text \<open>
  The filter object both searches build from their optional filters, one conditional
  assignment each, all on the truth value of the filter.
\<close>

definition created_at_range :: "jsval \<Rightarrow> jsval" where
  "created_at_range date_range =
     Obj (assign_if (truthy (get_prop date_range ''end'')) ''$lte'' (get_prop date_range ''end'')
         (assign_if (truthy (get_prop date_range ''start'')) ''$gte'' (get_prop date_range ''start'')
            []))"

definition base_query :: "jsval \<Rightarrow> jsval \<Rightarrow> jsval \<Rightarrow> jsval \<Rightarrow> jsval \<Rightarrow> jsval \<Rightarrow> jsobj" where
  "base_query user_id memory_type min_importance_score min_emotional_significance
     min_temporal_relevance date_range =
     (assign_if (truthy date_range) ''created_at'' (created_at_range date_range)
     (assign_if (truthy min_temporal_relevance)
        ''temporal_relevance'' (Obj [(''$gte'', min_temporal_relevance)])
     (assign_if (truthy min_emotional_significance)
        ''emotional_significance'' (Obj [(''$gte'', min_emotional_significance)])
     (assign_if (truthy min_importance_score)
        ''importance_score'' (Obj [(''$gte'', min_importance_score)])
     (assign_if (truthy memory_type) ''memory_type'' memory_type
     (assign_if (truthy user_id) ''user_id'' user_id []))))))"

text \<open>\<open>x && x.length > 0\<close>\<close>

definition has_elements :: "jsval \<Rightarrow> bool" where
  "has_elements x = (truthy x \<and> js_greater (js_length x) (Num (Fin 0)))"

text \<open>The object literal of one row of a similarity search.\<close>

definition similar_record :: "jsobj \<Rightarrow> jsobj" where
  "similar_record result =
     [(''id'', obj_get result ''_id''),
      (''user_id'', obj_get result ''user_id''),
      (''memory_type'', obj_get result ''memory_type''),
      (''content_summary'', obj_get result ''content_summary''),
      (''original_entry_id'', obj_get result ''original_entry_id''),
      (''importance_score'', obj_get result ''importance_score''),
      (''emotional_significance'', obj_get result ''emotional_significance''),
      (''temporal_relevance'', obj_get result ''temporal_relevance''),
      (''access_frequency'', obj_get result ''access_frequency''),
      (''last_accessed'', obj_get result ''last_accessed''),
      (''created_at'', obj_get result ''created_at''),
      (''feature_vector'', obj_get result ''$vector''),
      (''gate_scores'', obj_get result ''gate_scores''),
      (''relationships'', obj_get result ''relationships''),
      (''context_needed'', obj_get result ''context_needed''),
      (''retrieval_triggers'', obj_get result ''retrieval_triggers''),
      (''similarity_score'', obj_get result ''$similarity''),
      (''updated_at'', obj_get result ''updated_at'')]"

text \<open>
  \<open>findSimilarMemoryEmbeddings(queryVector, {limit, filters})\<close>; an option left undefined
  takes its default, \<open>limit = 10\<close> and \<open>filters = {}\<close>.
\<close>

definition findSimilarMemoryEmbeddings ::
  "engine \<Rightarrow> collection \<Rightarrow> jsval \<Rightarrow> jsnum option \<Rightarrow> jsval \<Rightarrow> string + jsobj" where
  "findSimilarMemoryEmbeddings e c queryVector limit_opt filters_opt =
     rethrow ''Failed to find similar memory embeddings: ''
       (case initialize c of
          Inl m \<Rightarrow> Inl m
        | Inr _ \<Rightarrow>
            (let limit = (case limit_opt of None \<Rightarrow> Fin 10 | Some n \<Rightarrow> n);
                 filters = (if filters_opt = Undefined then Obj [] else filters_opt);
                 query =
                   assign_if (has_elements (get_prop filters ''retrieval_triggers''))
                     ''retrieval_triggers'' (Obj [(''$in'', get_prop filters ''retrieval_triggers'')])
                     (base_query (get_prop filters ''user_id'') (get_prop filters ''memory_type'')
                        (get_prop filters ''min_importance_score'')
                        (get_prop filters ''min_emotional_significance'')
                        (get_prop filters ''min_temporal_relevance'')
                        (get_prop filters ''date_range''))
             in case cannot_read filters ''user_id'' of
                  Some m \<Rightarrow> Inl m
                | None \<Rightarrow>
             (case coll_find_similar e c query queryVector limit of
                  Inl m \<Rightarrow> Inl m
                | Inr results \<Rightarrow>
                  (case cannot_read queryVector ''length'' of
                     Some m \<Rightarrow> Inl m
                   | None \<Rightarrow>
                    Inr [(''query_vector_dimensions'', js_length queryVector),
                         (''results_count'', Num (Fin (of_nat (length results)))),
                         (''max_similarity_score'',
                            (if results \<noteq> [] then obj_get (hd results) ''$similarity''
                             else Num (Fin 0))),
                         (''min_similarity_score'',
                            (if results \<noteq> [] then obj_get (last results) ''$similarity''
                             else Num (Fin 0))),
                         (''results'', Arr (map (\<lambda>result. Obj (similar_record result)) results))]))))"

text \<open>The object literal of one row of a generic query.\<close>

definition query_record :: "jsobj \<Rightarrow> jsobj" where
  "query_record result =
     [(''id'', obj_get result ''_id''),
      (''user_id'', obj_get result ''user_id''),
      (''memory_type'', obj_get result ''memory_type''),
      (''content_summary'', obj_get result ''content_summary''),
      (''original_entry_id'', obj_get result ''original_entry_id''),
      (''importance_score'', obj_get result ''importance_score''),
      (''emotional_significance'', obj_get result ''emotional_significance''),
      (''temporal_relevance'', obj_get result ''temporal_relevance''),
      (''access_frequency'', obj_get result ''access_frequency''),
      (''last_accessed'', obj_get result ''last_accessed''),
      (''created_at'', obj_get result ''created_at''),
      (''gate_scores'', obj_get result ''gate_scores''),
      (''relationships'', obj_get result ''relationships''),
      (''context_needed'', obj_get result ''context_needed''),
      (''retrieval_triggers'', obj_get result ''retrieval_triggers''),
      (''updated_at'', obj_get result ''updated_at'')]"

text \<open>
  The pagination summary of a generic query, from the count the store gave and the
  \<open>offset\<close> and \<open>limit\<close> the caller gave, whatever kind of value these are.
\<close>

definition pagination :: "jsnum \<Rightarrow> jsval \<Rightarrow> jsval \<Rightarrow> jsobj" where
  "pagination totalCount offset limit =
     [(''total_count'', Num totalCount),
      (''current_page'', Num (js_add (Math_floor (js_divide offset limit)) (Fin 1))),
      (''total_pages'', Num (Math_ceil (js_divide (Num totalCount) limit))),
      (''has_next'', Bool (js_less (js_plus offset limit) (Num totalCount))),
      (''has_previous'', Bool (js_greater offset (Num (Fin 0))))]"

text \<open>
  The ten options a generic query reads from its argument; one that is \<open>undefined\<close> is
  absent, and \<open>limit\<close>, \<open>offset\<close>, \<open>sort_by\<close> and \<open>sort_order\<close> then take their defaults.
  The values are used as they come: nothing converts them.
\<close>

record query_options =
  user_id :: jsval
  memory_type :: jsval
  min_importance_score :: jsval
  min_emotional_significance :: jsval
  min_temporal_relevance :: jsval
  date_range :: jsval
  limit :: jsval
  offset :: jsval
  sort_by :: jsval
  sort_order :: jsval

definition queryMemoryEmbeddings ::
  "engine \<Rightarrow> collection \<Rightarrow> query_options \<Rightarrow> string + jsobj" where
  "queryMemoryEmbeddings e c queryOptions =
     rethrow ''Failed to query memory embeddings: ''
       (case initialize c of
          Inl m \<Rightarrow> Inl m
        | Inr _ \<Rightarrow>
            (let lim = (if limit queryOptions = Undefined then Num (Fin 20)
                        else limit queryOptions);
                 off = (if offset queryOptions = Undefined then Num (Fin 0)
                        else offset queryOptions);
                 sortBy = (if sort_by queryOptions = Undefined then Str ''created_at''
                           else sort_by queryOptions);
                 sortDir = (if sort_order queryOptions = Undefined then Str ''desc''
                            else sort_order queryOptions);
                 query =
                   base_query (user_id queryOptions) (memory_type queryOptions)
                     (min_importance_score queryOptions) (min_emotional_significance queryOptions)
                     (min_temporal_relevance queryOptions) (date_range queryOptions);
                 sortOrder = (if sortDir = Str ''asc'' then 1 else - 1);
                 sortObj = [(to_string sortBy, Num (Fin sortOrder))]
             in case coll_find e c query sortObj off lim of
                  Inl m \<Rightarrow> Inl m
                | Inr results \<Rightarrow>
                    (case coll_countDocuments e c query of
                       Inl m \<Rightarrow> Inl m
                     | Inr totalCount \<Rightarrow>
                         Inr [(''results'', Arr (map (\<lambda>result. Obj (query_record result)) results)),
                              (''pagination'',
                                 Obj (pagination (Fin (of_nat totalCount)) off lim))])))"

text \<open>
  \<open>getStatistics()\<close>; \<open>sevenDaysAgo\<close> is the ISO text of the clock reading moved back
  seven days.
\<close>

definition getStatistics :: "engine \<Rightarrow> collection \<Rightarrow> string \<Rightarrow> string + jsobj" where
  "getStatistics e c sevenDaysAgo =
     rethrow ''Failed to get statistics: ''
       (case initialize c of
          Inl m \<Rightarrow> Inl m
        | Inr _ \<Rightarrow>
            (case coll_countDocuments e c [] of
               Inl m \<Rightarrow> Inl m
             | Inr totalCount \<Rightarrow>
                 (case coll_aggregate_count c ''memory_type'' of
                    Inl m \<Rightarrow> Inl m
                  | Inr memoryTypeStats \<Rightarrow>
                      (case coll_countDocuments e c
                              [(''created_at'', Obj [(''$gte'', Str sevenDaysAgo)])] of
                         Inl m \<Rightarrow> Inl m
                       | Inr recentCount \<Rightarrow>
                           (case coll_aggregate_avg c
                                   [(''avg_importance_score'', ''importance_score''),
                                    (''avg_emotional_significance'', ''emotional_significance''),
                                    (''avg_temporal_relevance'', ''temporal_relevance''),
                                    (''avg_access_frequency'', ''access_frequency'')] of
                              Inl m \<Rightarrow> Inl m
                            | Inr scoreStats \<Rightarrow>
                                Inr [(''total_memories'', Num (Fin (of_nat totalCount))),
                                     (''recent_memories_7_days'', Num (Fin (of_nat recentCount))),
                                     (''memory_type_distribution'',
                                        Obj (fold (\<lambda>stat acc.
                                                     obj_set acc (property_key e (obj_get stat ''_id''))
                                                       (obj_get stat ''count''))
                                               memoryTypeStats [])),
                                     (''score_statistics'',
                                        (case scoreStats of
                                           first # _ \<Rightarrow> Obj first
                                         | [] \<Rightarrow>
                                             Obj [(''avg_importance_score'', Num (Fin 0)),
                                                  (''avg_emotional_significance'', Num (Fin 0)),
                                                  (''avg_temporal_relevance'', Num (Fin 0)),
                                                  (''avg_access_frequency'', Num (Fin 0))])),
                                     (''collection_info'',
                                        Obj [(''name'', Str ''memory_embeddings''),
                                             (''vector_dimensions'', Num (Fin 90))])])))))"

section \<open>The convenience routes of the generic query\<close>

text \<open>
  \<open>parseInt(s)\<close> without a radix: leading white space is passed over, a sign is read, a
  \<open>0x\<close> prefix selects base 16, and the longest run of digits in the base gives the
  value; with no digit at all the result is \<open>NaN\<close>.
\<close>

definition parseInt :: "string \<Rightarrow> jsnum" where
  "parseInt s =
     (let s1 = dropWhile is_white s;
          negative = (case s1 of ch # _ \<Rightarrow> ch = CHR ''-'' | [] \<Rightarrow> False);
          s2 = (case s1 of ch # rest \<Rightarrow> if ch = CHR ''-'' \<or> ch = CHR ''+'' then rest else s1
                | [] \<Rightarrow> s1);
          hex = (case s2 of a # b # _ \<Rightarrow> a = CHR ''0'' \<and> (b = CHR ''x'' \<or> b = CHR ''X'')
                 | _ \<Rightarrow> False);
          radix = (if hex then 16 else 10);
          s3 = (if hex then drop 2 s2 else s2);
          ds = takeWhile (in_radix radix) s3
      in if ds = [] then NaN
         else to_double ((if negative then - 1 else 1) * of_int (digits_value radix 0 ds)))"

text \<open>\<open>result.results.length\<close> of a service result.\<close>

definition results_length :: "jsobj \<Rightarrow> nat" where
  "results_length result = (case obj_get result ''results'' of Arr xs \<Rightarrow> length xs | _ \<Rightarrow> 0)"

text \<open>
  \<open>GET /user/:userId\<close> and \<open>GET /type/:memoryType\<close> have no validation middleware. A
  query parameter is the text in the URL; one that is absent takes the handler's default,
  and \<open>limit\<close> and \<open>offset\<close> go through \<open>parseInt\<close>, so the service gets numbers.
\<close>

definition router_get_user ::
  "engine \<Rightarrow> collection \<Rightarrow> string \<Rightarrow> (string \<times> string) list \<Rightarrow> response" where
  "router_get_user e c userId query =
     (case queryMemoryEmbeddings e c
             \<lparr>user_id = Str userId, memory_type = Undefined, min_importance_score = Undefined,
              min_emotional_significance = Undefined, min_temporal_relevance = Undefined,
              date_range = Undefined,
              limit = Num (case map_of query ''limit'' of None \<Rightarrow> Fin 20 | Some s \<Rightarrow> parseInt s),
              offset = Num (case map_of query ''offset'' of None \<Rightarrow> Fin 0 | Some s \<Rightarrow> parseInt s),
              sort_by = Str (case map_of query ''sort_by'' of None \<Rightarrow> ''created_at'' | Some s \<Rightarrow> s),
              sort_order = Str (case map_of query ''sort_order'' of None \<Rightarrow> ''desc'' | Some s \<Rightarrow> s)\<rparr> of
        Inr result \<Rightarrow>
          Respond 200
            (Obj [(''success'', Bool True),
                  (''data'', Obj result),
                  (''message'',
                     Str (''Found '' @ decimal (results_length result)
                          @ '' memory embeddings for user '' @ userId))])
      | Inl message \<Rightarrow> Next message)"

definition router_get_type ::
  "engine \<Rightarrow> collection \<Rightarrow> string \<Rightarrow> (string \<times> string) list \<Rightarrow> response" where
  "router_get_type e c memoryType query =
     (case queryMemoryEmbeddings e c
             \<lparr>user_id = Undefined, memory_type = Str memoryType, min_importance_score = Undefined,
              min_emotional_significance = Undefined, min_temporal_relevance = Undefined,
              date_range = Undefined,
              limit = Num (case map_of query ''limit'' of None \<Rightarrow> Fin 20 | Some s \<Rightarrow> parseInt s),
              offset = Num (case map_of query ''offset'' of None \<Rightarrow> Fin 0 | Some s \<Rightarrow> parseInt s),
              sort_by = Str (case map_of query ''sort_by'' of None \<Rightarrow> ''importance_score'' | Some s \<Rightarrow> s),
              sort_order = Str (case map_of query ''sort_order'' of None \<Rightarrow> ''desc'' | Some s \<Rightarrow> s)\<rparr> of
        Inr result \<Rightarrow>
          Respond 200
            (Obj [(''success'', Bool True),
                  (''data'', Obj result),
                  (''message'',
                     Str (''Found '' @ decimal (results_length result) @ '' '' @ memoryType
                          @ '' memory embeddings''))])
      | Inl message \<Rightarrow> Next message)"

section \<open>Validation schemas\<close>

text \<open>
  The schemas are written with the Joi library. This is the part of Joi they use: strings,
  numbers, ISO dates, arrays with one item type, and objects with a fixed list of keys or
  with any keys; a key is required, optional, or optional with a default, and may replace
  the text of some of its error codes with \<open>.messages\<close>.
\<close>

datatype presence = Required | Optional | Default jsval

datatype string_rule = Uuid | Valid "string list" | MinLength nat | MaxLength nat

datatype number_rule = Integer | Minimum rat | Maximum rat

datatype array_rule = Length nat | MinItems nat | MaxItems nat

datatype schema =
    JString "string_rule list"
  | JNumber "number_rule list"
  | JDateIso
  | JArray "schema option" "array_rule list"
  | JObject "(string \<times> presence \<times> (string \<times> string) list \<times> schema) list option"

text \<open>
  What Joi itself decides and the schemas only name: which strings are UUIDs and ISO
  dates, which strings it converts to a number (the middleware validates with conversion
  on), and the text of an error code that has no replacement.
\<close>

record joi =
  is_uuid :: "string \<Rightarrow> bool"
  is_iso_date :: "string \<Rightarrow> bool"
  number_of_string :: "string \<Rightarrow> rat option"
  default_message :: "string list \<Rightarrow> string \<Rightarrow> string"

text \<open>A violation: the path of the offending value, the error code, a replaced text.\<close>

type_synonym violation = "string list \<times> string \<times> string option"

text \<open>
  A violation of the value under key \<open>k\<close>, seen from the enclosing object or array; the
  key's \<open>.messages\<close> replace the text of the violations of that very value.
\<close>

definition at_key :: "string \<Rightarrow> (string \<times> string) list \<Rightarrow> violation \<Rightarrow> violation" where
  "at_key k messages v =
     (case v of (path, code, text) \<Rightarrow>
        (k # path, code,
         if path = [] then (case map_of messages code of Some t \<Rightarrow> Some t | None \<Rightarrow> text)
         else text))"

fun string_rule_violations :: "joi \<Rightarrow> string \<Rightarrow> string_rule \<Rightarrow> violation list" where
  "string_rule_violations env s Uuid =
     (if is_uuid env s then [] else [([], ''string.guid'', None)])"
| "string_rule_violations env s (Valid allowed) = []"
| "string_rule_violations env s (MinLength n) =
     (if n \<le> length s then [] else [([], ''string.min'', None)])"
| "string_rule_violations env s (MaxLength n) =
     (if length s \<le> n then [] else [([], ''string.max'', None)])"

fun number_rule_violations :: "rat \<Rightarrow> number_rule \<Rightarrow> violation list" where
  "number_rule_violations r Integer =
     (if r = of_int \<lfloor>r\<rfloor> then [] else [([], ''number.integer'', None)])"
| "number_rule_violations r (Minimum a) = (if a \<le> r then [] else [([], ''number.min'', None)])"
| "number_rule_violations r (Maximum b) = (if r \<le> b then [] else [([], ''number.max'', None)])"

fun array_rule_violations :: "nat \<Rightarrow> array_rule \<Rightarrow> violation list" where
  "array_rule_violations n (Length k) = (if n = k then [] else [([], ''array.length'', None)])"
| "array_rule_violations n (MinItems k) = (if k \<le> n then [] else [([], ''array.min'', None)])"
| "array_rule_violations n (MaxItems k) = (if n \<le> k then [] else [([], ''array.max'', None)])"

text \<open>
  All violations of a value that is present (\<open>abortEarly: false\<close>). A value that
  \<open>.valid(...)\<close> lists passes at once; any other value violates \<open>any.only\<close>, and the
  checks of its type are made all the same. A string must be a non-empty string; a number
  is a finite number within the safe integer range, or a string Joi converts to one; a
  value of the wrong type is not checked against the rules of the type. Unknown keys of an
  object are stripped, never reported (\<open>stripUnknown: true\<close>).
\<close>

definition listed :: "string_rule list \<Rightarrow> string list option" where
  "listed rules =
     (if list_ex (\<lambda>r. case r of Valid allowed \<Rightarrow> True | _ \<Rightarrow> False) rules
      then Some (concat (map (\<lambda>r. case r of Valid allowed \<Rightarrow> allowed | _ \<Rightarrow> []) rules))
      else None)"

fun violations :: "joi \<Rightarrow> schema \<Rightarrow> jsval \<Rightarrow> violation list" where
  "violations env (JString rules) v =
     (let typed =
            (case v of
               Str s \<Rightarrow> (if s = [] then [([], ''string.empty'', None)]
                         else concat (map (string_rule_violations env s) rules))
             | _ \<Rightarrow> [([], ''string.base'', None)])
      in case listed rules of
           None \<Rightarrow> typed
         | Some allowed \<Rightarrow>
             (if (case v of Str s \<Rightarrow> s \<in> set allowed | _ \<Rightarrow> False) then []
              else ([], ''any.only'', None) # typed))"
| "violations env (JNumber rules) v =
     (if v = Num PosInf \<or> v = Num NegInf then [([], ''number.infinity'', None)]
      else
        (case (case v of Num (Fin r) \<Rightarrow> Some r | Str s \<Rightarrow> number_of_string env s | _ \<Rightarrow> None) of
           None \<Rightarrow> [([], ''number.base'', None)]
         | Some r \<Rightarrow>
             (if r < - 9007199254740991 \<or> 9007199254740991 < r then [([], ''number.unsafe'', None)]
              else concat (map (number_rule_violations r) rules))))"
| "violations env JDateIso v =
     (case v of
        Str s \<Rightarrow> (if is_iso_date env s then [] else [([], ''date.format'', None)])
      | _ \<Rightarrow> [([], ''date.format'', None)])"
| "violations env (JArray items rules) v =
     (case v of
        Arr xs \<Rightarrow>
          (case items of
             None \<Rightarrow> []
           | Some item \<Rightarrow>
               concat (map (\<lambda>ix. map (at_key (decimal (fst ix)) []) (violations env item (snd ix)))
                         (zip [0..<length xs] xs)))
          @ concat (map (array_rule_violations (length xs)) rules)
      | _ \<Rightarrow> [([], ''array.base'', None)])"
| "violations env (JObject keys) v =
     (case v of
        Obj kvs \<Rightarrow>
          (case keys of
             None \<Rightarrow> []
           | Some ks \<Rightarrow>
               concat (map (\<lambda>entry.
                              (case entry of (k, presence, messages, sch) \<Rightarrow>
                                 (if obj_get kvs k = Undefined
                                  then (if presence = Required
                                        then [([k], ''any.required'', map_of messages ''any.required'')]
                                        else [])
                                  else map (at_key k messages) (violations env sch (obj_get kvs k)))))
                         ks))
      | _ \<Rightarrow> [([], ''object.base'', None)])"

text \<open>\<open>schema.validate(value, ...).error\<close>: a missing value violates nothing.\<close>

definition validation_errors :: "joi \<Rightarrow> schema \<Rightarrow> jsval \<Rightarrow> violation list" where
  "validation_errors env sch value = (if value = Undefined then [] else violations env sch value)"

text \<open>\<open>error.details.map(detail => detail.message).join(', ')\<close>\<close>

definition message_of :: "joi \<Rightarrow> violation \<Rightarrow> string" where
  "message_of env v =
     (case v of (path, code, text) \<Rightarrow>
        (case text of Some t \<Rightarrow> t | None \<Rightarrow> default_message env path code))"

text \<open>
  The middleware \<open>validate(schema)\<close> and \<open>validateQuery(schema)\<close>: a 400 response when
  there is a violation, otherwise nothing, and the request goes on to the handler as it
  came (the validated copy is not kept).
\<close>

definition validate :: "joi \<Rightarrow> schema \<Rightarrow> jsval \<Rightarrow> response option" where
  "validate env sch body =
     (let details = validation_errors env sch body
      in if details \<noteq> []
         then Some (Respond 400
                      (Obj [(''success'', Bool False),
                            (''error'', Str ''Validation Error''),
                            (''details'', Str (join '', '' (map (message_of env) details)))]))
         else None)"

definition validateQuery :: "joi \<Rightarrow> schema \<Rightarrow> jsval \<Rightarrow> response option" where
  "validateQuery env sch query =
     (let details = validation_errors env sch query
      in if details \<noteq> []
         then Some (Respond 400
                      (Obj [(''success'', Bool False),
                            (''error'', Str ''Query Validation Error''),
                            (''details'', Str (join '', '' (map (message_of env) details)))]))
         else None)"

definition score :: schema where
  "score = JNumber [Minimum 0, Maximum 1]"

definition gateScoresSchema :: schema where
  "gateScoresSchema =
     JObject (Some [(''forget_score'', Required, [], score),
                    (''input_score'', Required, [], score),
                    (''output_score'', Required, [], score),
                    (''confidence'', Required, [], score)])"

definition memory_types :: "string list" where
  "memory_types = [''conversation'', ''event'', ''emotion'', ''insight'']"

definition memoryEmbeddingSchema :: schema where
  "memoryEmbeddingSchema =
     JObject (Some
       [(''user_id'', Required, [], JString [Uuid]),
        (''memory_type'', Required, [], JString [Valid memory_types]),
        (''content_summary'', Required, [], JString [MinLength 1, MaxLength 5000]),
        (''original_entry_id'', Required, [], JString [Uuid]),
        (''importance_score'', Required, [], score),
        (''emotional_significance'', Required, [], score),
        (''temporal_relevance'', Required, [], score),
        (''access_frequency'', Default (Num (Fin 0)), [], JNumber [Integer, Minimum 0]),
        (''feature_vector'', Required,
           [(''array.base'', ''Feature vector must be an array of numbers''),
            (''array.length'', ''Feature vector must have exactly 90 dimensions''),
            (''any.required'', ''Feature vector is required'')],
           JArray (Some (JNumber [])) [Length 90]),
        (''gate_scores'', Required, [], gateScoresSchema),
        (''relationships'', Default (Arr []), [], JArray (Some (JString [Uuid])) []),
        (''context_needed'', Default (Obj []), [], JObject None),
        (''retrieval_triggers'', Default (Arr []), [], JArray (Some (JString [])) [])])"

definition updateMemoryEmbeddingSchema :: schema where
  "updateMemoryEmbeddingSchema =
     JObject (Some
       [(''content_summary'', Optional, [], JString [MinLength 1, MaxLength 5000]),
        (''importance_score'', Optional, [], score),
        (''emotional_significance'', Optional, [], score),
        (''temporal_relevance'', Optional, [], score),
        (''access_frequency'', Optional, [], JNumber [Integer, Minimum 0]),
        (''feature_vector'', Optional, [], JArray (Some (JNumber [])) [Length 90]),
        (''gate_scores'', Optional, [], gateScoresSchema),
        (''relationships'', Optional, [], JArray (Some (JString [Uuid])) []),
        (''context_needed'', Optional, [], JObject None),
        (''retrieval_triggers'', Optional, [], JArray (Some (JString [])) [])])"

definition batchSchema :: schema where
  "batchSchema =
     JObject (Some
       [(''embeddings'', Required,
           [(''array.min'', ''At least one embedding is required''),
            (''array.max'', ''Maximum 50 embeddings allowed per batch'')],
           JArray (Some memoryEmbeddingSchema) [MinItems 1, MaxItems 50])])"

definition querySchema :: schema where
  "querySchema =
     JObject (Some
       [(''user_id'', Optional, [], JString [Uuid]),
        (''memory_type'', Optional, [], JString [Valid memory_types]),
        (''min_importance_score'', Optional, [], score),
        (''min_emotional_significance'', Optional, [], score),
        (''min_temporal_relevance'', Optional, [], score),
        (''date_range'', Optional, [],
           JObject (Some [(''start'', Optional, [], JDateIso), (''end'', Optional, [], JDateIso)])),
        (''limit'', Default (Num (Fin 20)), [], JNumber [Integer, Minimum 1, Maximum 100]),
        (''offset'', Default (Num (Fin 0)), [], JNumber [Integer, Minimum 0]),
        (''sort_by'', Default (Str ''created_at''), [],
           JString [Valid [''created_at'', ''last_accessed'', ''importance_score'',
                           ''emotional_significance'', ''temporal_relevance'',
                           ''access_frequency'']]),
        (''sort_order'', Default (Str ''desc''), [], JString [Valid [''asc'', ''desc'']])])"

section \<open>The generic query route\<close>

text \<open>
  \<open>GET /query\<close>: \<open>validateQuery(querySchema)\<close> checks \<open>req.query\<close> and keeps nothing of
  what Joi converted, so the handler passes the service \<open>req.query\<close> itself, whose values
  are the texts of the URL.
\<close>

definition router_get_query :: "joi \<Rightarrow> engine \<Rightarrow> collection \<Rightarrow> jsval \<Rightarrow> response" where
  "router_get_query env e c query =
     (case validateQuery env querySchema query of
        Some rejected \<Rightarrow> rejected
      | None \<Rightarrow>
          (case queryMemoryEmbeddings e c
                  \<lparr>user_id = get_prop query ''user_id'',
                   memory_type = get_prop query ''memory_type'',
                   min_importance_score = get_prop query ''min_importance_score'',
                   min_emotional_significance = get_prop query ''min_emotional_significance'',
                   min_temporal_relevance = get_prop query ''min_temporal_relevance'',
                   date_range = get_prop query ''date_range'',
                   limit = get_prop query ''limit'',
                   offset = get_prop query ''offset'',
                   sort_by = get_prop query ''sort_by'',
                   sort_order = get_prop query ''sort_order''\<rparr> of
             Inr result \<Rightarrow>
               Respond 200
                 (Obj [(''success'', Bool True),
                       (''data'', Obj result),
                       (''message'',
                          Str (''Found '' @ decimal (results_length result)
                               @ '' memory embeddings''))])
           | Inl message \<Rightarrow> Next message))"

section \<open>Creating and updating through the routes\<close>

text \<open>Modelled from the spec: \<open>insertOne(doc)\<close>; an \<open>_id\<close> already in use is refused.\<close>

definition coll_insertOne :: "collection \<Rightarrow> jsobj \<Rightarrow> (string + jsobj) \<times> collection" where
  "coll_insertOne c doc =
     (case fault c of
        Some m \<Rightarrow> (Inl m, c)
      | None \<Rightarrow>
          (if obj_get doc ''_id'' \<in> set (map (\<lambda>d. obj_get d ''_id'') (docs c))
           then (Inl ''Document already exists with the given _id'', c)
           else (Inr [(''insertedId'', obj_get doc ''_id'')], c\<lparr>docs := docs c @ [doc]\<rparr>)))"

text \<open>
  Modelled from the spec: \<open>insertMany(docs)\<close> writes the documents one by one, each
  independently of the others. A document whose \<open>_id\<close> is in use is not taken, and
  \<open>failing j\<close> says that the \<open>j\<close>-th write fails; the documents written stay written, and
  the caller learns how many and which they are.
\<close>

fun insert_each :: "(nat \<Rightarrow> bool) \<Rightarrow> nat \<Rightarrow> jsobj list \<Rightarrow> jsobj list \<Rightarrow> jsobj list" where
  "insert_each failing j present [] = []"
| "insert_each failing j present (d # ds) =
     (if failing j \<or> obj_get d ''_id'' \<in> set (map (\<lambda>x. obj_get x ''_id'') present)
      then insert_each failing (Suc j) present ds
      else d # insert_each failing (Suc j) (present @ [d]) ds)"

definition coll_insertMany ::
  "collection \<Rightarrow> (nat \<Rightarrow> bool) \<Rightarrow> jsobj list \<Rightarrow> (string + jsobj) \<times> collection" where
  "coll_insertMany c failing new =
     (case fault c of
        Some m \<Rightarrow> (Inl m, c)
      | None \<Rightarrow>
          (let written = insert_each failing 0 (docs c) new
           in (Inr [(''insertedCount'', Num (Fin (of_nat (length written)))),
                    (''insertedIds'', Arr (map (\<lambda>d. obj_get d ''_id'') written))],
               c\<lparr>docs := docs c @ written\<rparr>)))"

text \<open>
  The document built from the data of one record; \<open>new_id\<close> is what \<open>uuidv4()\<close> gives
  and \<open>t1\<close>, \<open>t2\<close>, \<open>t3\<close> the three clock readings, in the order of the literal.
\<close>

definition new_document :: "string \<Rightarrow> string \<Rightarrow> string \<Rightarrow> string \<Rightarrow> jsval \<Rightarrow> jsobj" where
  "new_document new_id t1 t2 t3 embeddingData =
     [(''_id'', Str new_id),
      (''user_id'', get_prop embeddingData ''user_id''),
      (''memory_type'', get_prop embeddingData ''memory_type''),
      (''content_summary'', get_prop embeddingData ''content_summary''),
      (''original_entry_id'', get_prop embeddingData ''original_entry_id''),
      (''importance_score'', get_prop embeddingData ''importance_score''),
      (''emotional_significance'', get_prop embeddingData ''emotional_significance''),
      (''temporal_relevance'', get_prop embeddingData ''temporal_relevance''),
      (''access_frequency'', js_or (get_prop embeddingData ''access_frequency'') (Num (Fin 0))),
      (''last_accessed'', Str t1),
      (''created_at'', Str t2),
      (''$vector'', get_prop embeddingData ''feature_vector''),
      (''gate_scores'', get_prop embeddingData ''gate_scores''),
      (''relationships'', js_or (get_prop embeddingData ''relationships'') (Arr [])),
      (''context_needed'', js_or (get_prop embeddingData ''context_needed'') (Obj [])),
      (''retrieval_triggers'', js_or (get_prop embeddingData ''retrieval_triggers'') (Arr [])),
      (''updated_at'', Str t3)]"

definition createMemoryEmbedding ::
  "collection \<Rightarrow> string \<Rightarrow> string \<Rightarrow> string \<Rightarrow> string \<Rightarrow> jsval
     \<Rightarrow> (string + jsobj) \<times> collection" where
  "createMemoryEmbedding c new_id t1 t2 t3 embeddingData =
     (case initialize c of
        Inl m \<Rightarrow> (rethrow ''Failed to create memory embedding: '' (Inl m), c)
      | Inr _ \<Rightarrow>
          (case cannot_read embeddingData ''user_id'' of
             Some m \<Rightarrow> (rethrow ''Failed to create memory embedding: '' (Inl m), c)
           | None \<Rightarrow>
               (let document = new_document new_id t1 t2 t3 embeddingData
                in case coll_insertOne c document of
                     (r, c') \<Rightarrow>
                       (rethrow ''Failed to create memory embedding: ''
                          (case r of
                             Inl m \<Rightarrow> Inl m
                           | Inr result \<Rightarrow>
                               Inr ((''id'', obj_get document ''_id'') # document
                                    @ [(''feature_vector'', obj_get document ''$vector''),
                                       (''insertedId'', obj_get result ''insertedId'')])),
                        c'))))"

text \<open>
  The batch: one document per element, the \<open>j\<close>-th with the id \<open>ids j\<close> and the clock
  readings \<open>clock (3 * j)\<close>, \<open>clock (3 * j + 1)\<close>, \<open>clock (3 * j + 2)\<close>. \<open>map\<close> exists
  on arrays only, and an element that is \<open>undefined\<close> or \<open>null\<close> makes its callback throw
  before anything is inserted.
\<close>

definition batch_brief :: "jsobj \<Rightarrow> jsobj" where
  "batch_brief doc =
     [(''id'', obj_get doc ''_id''),
      (''user_id'', obj_get doc ''user_id''),
      (''memory_type'', obj_get doc ''memory_type''),
      (''content_summary'', obj_get doc ''content_summary''),
      (''original_entry_id'', obj_get doc ''original_entry_id''),
      (''created_at'', obj_get doc ''created_at'')]"

definition createMemoryEmbeddingsBatch ::
  "collection \<Rightarrow> (nat \<Rightarrow> string) \<Rightarrow> (nat \<Rightarrow> string) \<Rightarrow> (nat \<Rightarrow> bool) \<Rightarrow> jsval
     \<Rightarrow> (string + jsobj) \<times> collection" where
  "createMemoryEmbeddingsBatch c ids clock failing embeddingsArray =
     (case initialize c of
        Inl m \<Rightarrow> (rethrow ''Failed to create memory embeddings batch: '' (Inl m), c)
      | Inr _ \<Rightarrow>
          (case embeddingsArray of
             Arr es \<Rightarrow>
               (case List.find (\<lambda>embeddingData. cannot_read embeddingData ''user_id'' \<noteq> None) es of
                  Some embeddingData \<Rightarrow>
                    (rethrow ''Failed to create memory embeddings batch: ''
                       (case cannot_read embeddingData ''user_id'' of
                          Some m \<Rightarrow> Inl m
                        | None \<Rightarrow> Inl []), c)
                | None \<Rightarrow>
                    (let documents =
                           map (\<lambda>je. new_document (ids (fst je)) (clock (3 * fst je))
                                        (clock (3 * fst je + 1)) (clock (3 * fst je + 2)) (snd je))
                             (zip [0..<length es] es)
                     in case coll_insertMany c failing documents of
                          (r, c') \<Rightarrow>
                            (rethrow ''Failed to create memory embeddings batch: ''
                               (case r of
                                  Inl m \<Rightarrow> Inl m
                                | Inr result \<Rightarrow>
                                    Inr [(''inserted_count'', obj_get result ''insertedCount''),
                                         (''inserted_ids'', obj_get result ''insertedIds''),
                                         (''documents'',
                                            Arr (map (\<lambda>doc. Obj (batch_brief doc)) documents))]),
                             c')))
           | _ \<Rightarrow>
               (rethrow ''Failed to create memory embeddings batch: ''
                  (case cannot_read embeddingsArray ''map'' of
                     Some m \<Rightarrow> Inl m
                   | None \<Rightarrow> Inl ''embeddingsArray.map is not a function''), c)))"

text \<open>\<open>result.inserted_count\<close> inside a template string.\<close>

definition count_text :: "jsval \<Rightarrow> string" where
  "count_text v = to_string v"

definition router_post ::
  "joi \<Rightarrow> collection \<Rightarrow> string \<Rightarrow> string \<Rightarrow> string \<Rightarrow> string \<Rightarrow> jsval
     \<Rightarrow> response \<times> collection" where
  "router_post env c new_id t1 t2 t3 body =
     (case validate env memoryEmbeddingSchema body of
        Some rejected \<Rightarrow> (rejected, c)
      | None \<Rightarrow>
          (case createMemoryEmbedding c new_id t1 t2 t3 body of
             (Inr memoryEmbedding, c') \<Rightarrow>
               (Respond 201 (Obj [(''success'', Bool True),
                                  (''data'', Obj memoryEmbedding),
                                  (''message'', Str ''Memory embedding created successfully'')]), c')
           | (Inl message, c') \<Rightarrow> (Next message, c')))"

definition router_post_batch ::
  "joi \<Rightarrow> collection \<Rightarrow> (nat \<Rightarrow> string) \<Rightarrow> (nat \<Rightarrow> string) \<Rightarrow> (nat \<Rightarrow> bool) \<Rightarrow> jsval
     \<Rightarrow> response \<times> collection" where
  "router_post_batch env c ids clock failing body =
     (case validate env batchSchema body of
        Some rejected \<Rightarrow> (rejected, c)
      | None \<Rightarrow>
          if body = Undefined \<or> body = Null
          then (Next (''Cannot destructure property '' @ [CHR 0x27] @ ''embeddings'' @ [CHR 0x27]
                      @ '' of '' @ [CHR 0x27] @ ''req.body'' @ [CHR 0x27]
                      @ '' as it is '' @ (if body = Null then ''null'' else ''undefined'') @ ''.''), c)
          else
          (case createMemoryEmbeddingsBatch c ids clock failing (get_prop body ''embeddings'') of
             (Inr result, c') \<Rightarrow>
               (Respond 201
                  (Obj [(''success'', Bool True),
                        (''data'', Obj result),
                        (''message'',
                           Str (''Successfully created '' @ count_text (obj_get result ''inserted_count'')
                                @ '' memory embeddings''))]), c')
           | (Inl message, c') \<Rightarrow> (Next message, c')))"

definition router_put_id ::
  "joi \<Rightarrow> collection \<Rightarrow> string \<Rightarrow> string \<Rightarrow> jsval \<Rightarrow> response \<times> collection" where
  "router_put_id env c now i body =
     (case validate env updateMemoryEmbeddingSchema body of
        Some rejected \<Rightarrow> (rejected, c)
      | None \<Rightarrow> put_id_handler c now i body)"

section \<open>Notions the properties are stated with\<close>

text \<open>An array of exactly 90 elements; a stored document whose vector is one.\<close>

definition is_vector90 :: "jsval \<Rightarrow> bool" where
  "is_vector90 v = (case v of Arr xs \<Rightarrow> length xs = 90 | _ \<Rightarrow> False)"

definition vector90 :: "jsobj \<Rightarrow> bool" where
  "vector90 d = is_vector90 (obj_get d ''$vector'')"

text \<open>
  A batch as the specification accepts it: \<open>embeddings\<close> is a list of 1 to 50 records,
  each without a violation of the create schema.
\<close>

definition batch_acceptable :: "joi \<Rightarrow> jsval \<Rightarrow> bool" where
  "batch_acceptable env body =
     (case get_prop body ''embeddings'' of
        Arr es \<Rightarrow> 1 \<le> length es \<and> length es \<le> 50
                  \<and> list_all (\<lambda>e. violations env memoryEmbeddingSchema e = []) es
      | _ \<Rightarrow> False)"

text \<open>
  The change-set of an update as the specification words it: \<open>updated_at\<close>, and each
  field that is present in the request, whatever its value; the vector is stored as
  \<open>$vector\<close>.
\<close>

definition update_fields :: "string list" where
  "update_fields =
     [''content_summary'', ''importance_score'', ''emotional_significance'',
      ''temporal_relevance'', ''access_frequency'', ''gate_scores'', ''relationships'',
      ''context_needed'', ''retrieval_triggers'']"

definition supplied :: "jsval \<Rightarrow> string \<Rightarrow> jsval option" where
  "supplied body k = (if get_prop body k = Undefined then None else Some (get_prop body k))"

definition change_set_by_presence :: "string \<Rightarrow> jsval \<Rightarrow> string \<Rightarrow> jsval option" where
  "change_set_by_presence now body k =
     (if k = ''updated_at'' then Some (Str now)
      else if k = ''$vector'' then supplied body ''feature_vector''
      else if k \<in> set update_fields then supplied body k
      else None)"

section \<open>Repeated access\<close>

text \<open>
  A sequence of \<open>recordMemoryAccess\<close> calls on one id, one pair of clock readings per
  call, with the result of each call and the store they leave.
\<close>

fun repeat_access ::
  "collection \<Rightarrow> string \<Rightarrow> (string \<times> string) list \<Rightarrow> (string + jsobj) list \<times> collection" where
  "repeat_access c i [] = ([], c)"
| "repeat_access c i ((now1, now2) # clock) =
     (case recordMemoryAccess c now1 now2 i of
        (r, c') \<Rightarrow> (case repeat_access c' i clock of (rs, c'') \<Rightarrow> (r # rs, c'')))"

text \<open>The \<open>last_accessed\<close> a call returned.\<close>

definition returned_last_accessed :: "string + jsobj \<Rightarrow> jsval" where
  "returned_last_accessed r =
     (case r of Inr obj \<Rightarrow> obj_get obj ''last_accessed'' | Inl m \<Rightarrow> Undefined)"

section \<open>Sample data\<close>

text \<open>
  A database that matches a filter by equality of the listed fields, keeps insertion order
  whatever the sort, and scores a document by its \<open>score\<close> field.
\<close>

definition sample_engine :: engine where
  "sample_engine =
     \<lparr>matches = (\<lambda>query d. list_all (\<lambda>kv. obj_get d (fst kv) = snd kv) query),
      precedes = (\<lambda>sortObj a b. True),
      similarity = (\<lambda>v d. case obj_get d ''score'' of Num (Fin r) \<Rightarrow> r | _ \<Rightarrow> 0),
      property_key = (\<lambda>v. case v of Str s \<Rightarrow> s | _ \<Rightarrow> ''null'')\<rparr>"

definition sample_doc :: "string \<Rightarrow> rat \<Rightarrow> jsobj" where
  "sample_doc i r =
     [(''_id'', Str i),
      (''access_frequency'', Num (Fin 0)),
      (''last_accessed'', Str ''2026-01-01T00:00:00.000Z''),
      (''score'', Num (Fin r)),
      (''$vector'', Arr [Num (Fin r)])]"

definition sample_collection :: collection where
  "sample_collection =
     \<lparr>docs = [sample_doc ''m1'' (1 / 2), sample_doc ''m2'' (9 / 10), sample_doc ''m3'' (1 / 5)],
      fault = None\<rparr>"

text \<open>
  A Joi that takes the 36-character strings for UUIDs, any string for an ISO date, converts
  no string to a number and words a violation by its code.
\<close>

definition sample_joi :: joi where
  "sample_joi =
     \<lparr>is_uuid = (\<lambda>s. length s = 36),
      is_iso_date = (\<lambda>s. True),
      number_of_string = (\<lambda>s. None),
      default_message = (\<lambda>path code. code)\<rparr>"

text \<open>The same Joi, but one that converts a run of decimal digits to the number it spells.\<close>

definition decimal_joi :: joi where
  "decimal_joi =
     sample_joi\<lparr>number_of_string :=
       (\<lambda>s. if s \<noteq> [] \<and> list_all (in_radix 10) s then Some (of_int (digits_value 10 0 s))
            else None)\<rparr>"

text \<open>A store on which no write fails, and one on which the second write of a batch fails.\<close>

definition no_failure :: "nat \<Rightarrow> bool" where
  "no_failure j = False"

definition second_fails :: "nat \<Rightarrow> bool" where
  "second_fails j = (j = 1)"

text \<open>The data of one record, with a vector of 90 zeros.\<close>

definition sample_record :: jsval where
  "sample_record =
     Obj [(''user_id'', Str ''550e8400-e29b-41d4-a716-446655440000''),
          (''memory_type'', Str ''conversation''),
          (''content_summary'', Str ''User discussed anxiety about upcoming exams''),
          (''original_entry_id'', Str ''550e8400-e29b-41d4-a716-446655440001''),
          (''importance_score'', Num (Fin (4 / 5))),
          (''emotional_significance'', Num (Fin (7 / 10))),
          (''temporal_relevance'', Num (Fin (9 / 10))),
          (''access_frequency'', Num (Fin 0)),
          (''feature_vector'', Arr (replicate 90 (Num (Fin 0)))),
          (''gate_scores'',
             Obj [(''forget_score'', Num (Fin (1 / 5))),
                  (''input_score'', Num (Fin (4 / 5))),
                  (''output_score'', Num (Fin (9 / 10))),
                  (''confidence'', Num (Fin (17 / 20)))])]"

text \<open>Fresh ids \<open>n0\<close>, \<open>n1\<close>, ... and a clock that stands still.\<close>

definition sample_ids :: "nat \<Rightarrow> string" where
  "sample_ids j = ''n'' @ decimal j"

definition sample_clock :: "nat \<Rightarrow> string" where
  "sample_clock j = ''2026-01-01T00:00:00.000Z''"

definition no_filters :: query_options where
  "no_filters =
     \<lparr>user_id = Undefined, memory_type = Undefined, min_importance_score = Undefined,
      min_emotional_significance = Undefined, min_temporal_relevance = Undefined,
      date_range = Undefined, limit = Undefined, offset = Undefined, sort_by = Undefined,
      sort_order = Undefined\<rparr>"

section \<open>Properties\<close>

lemma obj_get_set: "obj_get (obj_set obj k v) k' = (if k' = k then v else obj_get obj k')"
  by (induction obj) (auto simp: obj_get_def)

lemma on_error_rethrown:
  "on_error (''Failed to get memory embedding: '' @ m) = Next (''Failed to get memory embedding: '' @ m)"
  "on_error (''Failed to update memory embedding: '' @ m) = Next (''Failed to update memory embedding: '' @ m)"
  "on_error (''Failed to delete memory embedding: '' @ m) = Next (''Failed to delete memory embedding: '' @ m)"
  "on_error (''Failed to record memory access: '' @ m) = Next (''Failed to record memory access: '' @ m)"
  by (simp_all add: on_error_def)

text \<open>
  Whatever the store holds and however it fails, the 404 branch of the \<open>GET /:id\<close>
  handler is never taken: the service has prefixed the message the handler compares.
\<close>

lemma router_get_id_never_404: "router_get_id c i \<noteq> not_found_response"
  by (auto simp: router_get_id_def getMemoryEmbeddingById_def rethrow_def on_error_def
        not_found_response_def split: sum.splits option.splits)

lemma handlers_never_404:
  "fst (put_id_handler c now i body) \<noteq> not_found_response"
  "fst (router_delete_id c i) \<noteq> not_found_response"
  "fst (router_post_access c now1 now2 i) \<noteq> not_found_response"
  by (auto simp: put_id_handler_def updateMemoryEmbedding_def router_delete_id_def
        deleteMemoryEmbedding_def router_post_access_def recordMemoryAccess_def rethrow_def
        on_error_def not_found_response_def
        split: sum.splits option.splits prod.splits if_splits)

text \<open>
  C1. A get, update, delete or record-access request on an id the store does not hold is
  answered by the handler's 404 response. On an empty, healthy store the four handlers
  instead pass the error on to \<open>next\<close>, with the service's prefixed message, as they do
  for any other failure.
\<close>

theorem not_found_passed_to_next:
  "router_get_id \<lparr>docs = [], fault = None\<rparr> ''42''
     = Next ''Failed to get memory embedding: Memory embedding not found''
   \<and> fst (put_id_handler \<lparr>docs = [], fault = None\<rparr> ''2026-01-01T00:00:00.000Z'' ''42'' (Obj []))
     = Next ''Failed to update memory embedding: Memory embedding not found''
   \<and> fst (router_delete_id \<lparr>docs = [], fault = None\<rparr> ''42'')
     = Next ''Failed to delete memory embedding: Memory embedding not found''
   \<and> fst (router_post_access \<lparr>docs = [], fault = None\<rparr>
            ''2026-01-01T00:00:00.000Z'' ''2026-01-01T00:00:00.000Z'' ''42'')
     = Next ''Failed to record memory access: Memory embedding not found''"
  by (simp add: router_get_id_def getMemoryEmbeddingById_def put_id_handler_def
        updateMemoryEmbedding_def router_delete_id_def deleteMemoryEmbedding_def
        router_post_access_def recordMemoryAccess_def initialize_def coll_findOne_def
        coll_findOneAndUpdate_def coll_deleteOne_def rethrow_def on_error_def cannot_read_def)

subsection \<open>Objects and the store\<close>

lemma find_replace_first:
  "find P xs = Some x \<Longrightarrow> P y \<Longrightarrow> find P (replace_first P y xs) = Some y"
  by (induction xs) (auto split: if_splits)

lemma find_has_id: "find (has_id i) xs = Some d \<Longrightarrow> d \<in> set xs \<and> has_id i d"
  by (induction xs) (auto split: if_splits)

lemma has_id_obj_set: "k \<noteq> ''_id'' \<Longrightarrow> has_id i (obj_set d k v) = has_id i d"
  by (simp add: has_id_def obj_get_set)

lemma count_of_nat: "count_of (Fin (of_nat n)) = Some n"
  by (simp add: count_of_def)

lemma limited_Some:
  "count_of n = Some k \<Longrightarrow> limited n xs = Inr (if k = 0 then xs else take k xs)"
  by (simp add: limited_def)

lemma limited_positive: "0 < l \<Longrightarrow> limited (Fin (of_nat l)) xs = Inr (take l xs)"
  by (simp add: limited_Some [OF count_of_nat])

lemma set_insert_by: "set (insert_by before x ys) = insert x (set ys)"
  by (induction ys) auto

lemma set_ordered: "set (ordered e sortObj ds) = set ds"
  by (induction ds) (simp_all add: ordered_def set_insert_by)

lemma skipped_subset: "skipped n xs = Inr ys \<Longrightarrow> set ys \<subseteq> set xs"
  by (auto simp: skipped_def split: option.splits dest: in_set_dropD)

lemma limited_subset: "limited n xs = Inr ys \<Longrightarrow> set ys \<subseteq> set xs"
  by (auto simp: limited_def split: option.splits if_splits dest: in_set_takeD)

lemma coll_find_subset:
  assumes "coll_find e c query sortObj skip lmt = Inr ds"
  shows "set ds \<subseteq> set (docs c)"
proof -
  from assms obtain rest
    where r: "skipped (count_read skip) (ordered e sortObj (filter (matches e query) (docs c)))
                = Inr rest"
      and l: "limited (count_read lmt) rest = Inr ds"
    by (auto simp: coll_find_def split: option.splits sum.splits)
  from skipped_subset [OF r] limited_subset [OF l] show ?thesis
    by (auto simp: set_ordered)
qed

subsection \<open>Rounding to doubles\<close>

text \<open>
  Powers of two, the binade of a positive rational, and rounding to the nearest integer.
\<close>

lemma pow2_power_int: "pow2 n = power_int 2 n"
  unfolding pow2_def power_int_def by (simp add: power_one_over inverse_eq_divide)

lemma pow2_pos: "0 < pow2 n"
  by (simp add: pow2_power_int)

lemma pow2_add: "pow2 (m + n) = pow2 m * pow2 n"
  by (simp add: pow2_power_int power_int_add)

lemma pow2_nat: "pow2 (int k) = 2 ^ k"
  by (simp add: pow2_def)

lemma pow2_mono: "m \<le> n \<Longrightarrow> pow2 m \<le> pow2 n"
  by (simp add: pow2_power_int power_int_increasing)

lemma pow2_strict_mono: "m < n \<Longrightarrow> pow2 m < pow2 n"
  by (simp add: pow2_power_int power_int_strict_increasing)

lemma pow2_le_iff: "pow2 m \<le> pow2 n \<longleftrightarrow> m \<le> n"
  using pow2_mono [of m n] pow2_strict_mono [of n m] by (auto simp: not_le [symmetric])

lemma pow2_less_iff: "pow2 m < pow2 n \<longleftrightarrow> m < n"
  using pow2_le_iff [of n m] by (auto simp: not_le [symmetric])

lemma bits_bounds: "0 < n \<Longrightarrow> 2 ^ (bits n - 1) \<le> n \<and> n < 2 ^ bits n"
proof (induction n rule: bits.induct)
  case (1 n)
  show ?case
  proof (cases "n = 1")
    case True
    then show ?thesis by (simp add: bits.simps [of 1] bits.simps [of 0])
  next
    case False
    with 1(2) have m: "0 < n div 2" by simp
    from 1(1) [OF _ m] 1(2) have ih: "2 ^ (bits (n div 2) - 1) \<le> n div 2" "n div 2 < 2 ^ bits (n div 2)"
      by simp_all
    have b: "bits n = Suc (bits (n div 2))"
      using 1(2) by (simp add: bits.simps [of n])
    have pos: "0 < bits (n div 2)"
      using m by (simp add: bits.simps [of "n div 2"])
    then have "(2::int) ^ bits (n div 2) = 2 * 2 ^ (bits (n div 2) - 1)"
      by (cases "bits (n div 2)") simp_all
    with ih have "2 ^ bits (n div 2) \<le> n" "n < 2 * 2 ^ bits (n div 2)"
      by linarith+
    with b show ?thesis by simp
  qed
qed

lemma binade_bounds:
  assumes "0 < a"
  shows "pow2 (binade a) \<le> a \<and> a < pow2 (binade a + 1)"
proof -
  obtain p q where pq: "quotient_of a = (p, q)" by (cases "quotient_of a")
  then have q: "0 < q" and a: "a = of_int p / of_int q"
    using quotient_of_denom_pos [OF pq] quotient_of_div [OF pq] by simp_all
  with assms have p: "0 < p"
    by (simp add: zero_less_divide_iff)
  define bp bq where "bp = bits p" and "bq = bits q"
  from bits_bounds [OF p] bits_bounds [OF q]
  have bnd: "2 ^ (bp - 1) \<le> p" "p < 2 ^ bp" "2 ^ (bq - 1) \<le> q" "q < 2 ^ bq"
    by (simp_all add: bp_def bq_def)
  have bp: "0 < bp" using p by (simp add: bp_def bits.simps [of p])
  have bq: "0 < bq" using q by (simp add: bq_def bits.simps [of q])
  define d where "d = int bp - int bq"
  have up: "a < pow2 (d + 1)"
  proof -
    have "of_int p < (2::rat) ^ bp" using bnd(2) by (metis of_int_less_iff of_int_numeral of_int_power)
    moreover have "(2::rat) ^ (bq - 1) \<le> of_int q" using bnd(3) by (metis of_int_le_iff of_int_numeral of_int_power)
    ultimately have "of_int p / of_int q < (2::rat) ^ bp / 2 ^ (bq - 1)"
      using p q by (intro frac_less) simp_all
    also have "\<dots> = pow2 (int bp) / pow2 (int (bq - 1))" by (simp add: pow2_nat)
    also have "\<dots> = pow2 (int bp) * pow2 (- int (bq - 1))"
      by (simp add: pow2_power_int power_int_minus divide_inverse)
    also have "\<dots> = pow2 (int bp + - int (bq - 1))"
      by (simp only: pow2_add)
    also have "int bp + - int (bq - 1) = d + 1"
      using bq by (simp add: d_def of_nat_diff)
    finally show ?thesis by (simp add: a)
  qed
  have low: "pow2 (d - 1) < a"
  proof -
    have "of_int q < (2::rat) ^ bq" using bnd(4) by (metis of_int_less_iff of_int_numeral of_int_power)
    moreover have "(2::rat) ^ (bp - 1) \<le> of_int p" using bnd(1) by (metis of_int_le_iff of_int_numeral of_int_power)
    ultimately have "(2::rat) ^ (bp - 1) / 2 ^ bq < of_int p / of_int q"
      using p q by (intro frac_less2) simp_all
    moreover have "(2::rat) ^ (bp - 1) / 2 ^ bq = pow2 (int (bp - 1)) * pow2 (- int bq)"
      by (simp add: pow2_power_int power_int_minus divide_inverse)
    moreover have "\<dots> = pow2 (int (bp - 1) + - int bq)"
      by (simp only: pow2_add)
    moreover have "int (bp - 1) + - int bq = d - 1"
      using bp by (simp add: d_def of_nat_diff)
    ultimately show ?thesis by (simp add: a)
  qed
  have "binade a = (if pow2 d \<le> a then d else d - 1)"
    by (simp add: binade_def pq d_def bp_def bq_def Let_def)
  with up low show ?thesis
    by (auto simp: not_le)
qed

lemma binade_unique:
  assumes "0 < a" and "pow2 e \<le> a" and "a < pow2 (e + 1)"
  shows "binade a = e"
proof -
  from binade_bounds [OF assms(1)]
  have b: "pow2 (binade a) \<le> a" "a < pow2 (binade a + 1)" by simp_all
  from b(1) assms(3) have "pow2 (binade a) < pow2 (e + 1)" by simp
  then have 1: "binade a < e + 1" by (simp add: pow2_less_iff)
  from assms(2) b(2) have "pow2 e < pow2 (binade a + 1)" by simp
  then have 2: "e < binade a + 1" by (simp add: pow2_less_iff)
  from 1 2 show ?thesis by simp
qed

lemma round_half_even_ge: "of_int k \<le> x \<Longrightarrow> k \<le> round_half_even x"
proof -
  assume "of_int k \<le> x"
  then have "k \<le> \<lfloor>x\<rfloor>" by (simp add: le_floor_iff)
  then show ?thesis by (auto simp: round_half_even_def Let_def)
qed

lemma round_half_even_le: "x \<le> of_int k \<Longrightarrow> round_half_even x \<le> k"
proof -
  assume x: "x \<le> of_int k"
  then have f: "\<lfloor>x\<rfloor> \<le> k" by (simp add: floor_le_iff)
  show ?thesis
  proof (cases "x = of_int \<lfloor>x\<rfloor>")
    case True
    then have "round_half_even x = \<lfloor>x\<rfloor>" by (simp add: round_half_even_def Let_def)
    with f show ?thesis by simp
  next
    case False
    then have "of_int \<lfloor>x\<rfloor> < x" using of_int_floor_le [of x] by linarith
    with x have "of_int \<lfloor>x\<rfloor> < (of_int k :: rat)" by linarith
    then have "\<lfloor>x\<rfloor> < k" by simp
    then show ?thesis by (auto simp: round_half_even_def Let_def)
  qed
qed

lemma round_half_even_int: "round_half_even (of_int k) = k"
  using round_half_even_ge [of k "of_int k"] round_half_even_le [of "of_int k" k] by simp

lemma round_half_even_near: "\<bar>of_int (round_half_even x) - x\<bar> \<le> 1 / 2"
proof -
  have "of_int \<lfloor>x\<rfloor> \<le> x" "x < of_int \<lfloor>x\<rfloor> + 1" by linarith+
  then show ?thesis
    by (auto simp: round_half_even_def Let_def abs_le_iff) 
qed

text \<open>
  A number that is a whole multiple of the step of its binade is a double; so is every
  natural number up to \<open>2^53\<close>.
\<close>

lemma to_double_exact:
  assumes "0 < a" and "a = of_int k * pow2 (max (binade a) (- 1022) - 52)" and "a < pow2 1024"
  shows "to_double a = Fin a"
proof -
  define u where "u = pow2 (max (binade a) (- 1022) - 52)"
  have u: "0 < u" by (simp add: u_def pow2_pos)
  have au: "a = of_int k * u" using assms(2) by (simp add: u_def)
  have "a / u = of_int k" by (subst au) (use u in simp)
  then have "of_int (round_half_even (a / u)) * u = a"
    using au by (simp add: round_half_even_int)
  with assms(1,3) show ?thesis
    by (simp add: to_double_def Let_def u_def [symmetric] not_le)
qed

lemma to_double_nat:
  assumes "n \<le> 2 ^ 53"
  shows "to_double (of_nat n) = Fin (of_nat n)"
proof (cases "n = 0")
  case True
  then show ?thesis by (simp add: to_double_def)
next
  case False
  define a :: rat where "a = of_nat n"
  have pos: "0 < a" and one: "1 \<le> a" using False by (simp_all add: a_def)
  have le: "a \<le> 2 ^ 53"
    using assms unfolding a_def by (metis of_nat_le_iff of_nat_numeral of_nat_power)
  define e where "e = binade a"
  from binade_bounds [OF pos] have b: "pow2 e \<le> a" "a < pow2 (e + 1)"
    by (simp_all add: e_def)
  from one b(2) have "pow2 0 < pow2 (e + 1)" by (simp add: pow2_def)
  then have e0: "0 \<le> e" by (simp add: pow2_less_iff)
  from b(1) le have "pow2 e \<le> pow2 53" by (simp add: pow2_def)
  then have e53: "e \<le> 53" by (simp add: pow2_le_iff)
  have small: "a < pow2 1024"
  proof -
    have "pow2 53 < pow2 1024" by (simp add: pow2_less_iff)
    with le show ?thesis by (simp add: pow2_def)
  qed
  have "\<exists>k. a = of_int k * pow2 (e - 52)"
  proof (cases "e = 53")
    case True
    with b(1) le have "a = 2 ^ 53" by (simp add: pow2_def)
    then have "a = of_int (2 ^ 52) * pow2 (53 - 52)" by (simp add: pow2_def)
    with True show ?thesis by blast
  next
    case False
    with e53 have "e \<le> 52" by simp
    then have "pow2 (52 - e) * pow2 (e - 52) = 1"
      by (simp add: pow2_add [symmetric] pow2_def)
    moreover have "pow2 (52 - e) = 2 ^ nat (52 - e)"
      using \<open>e \<le> 52\<close> by (simp add: pow2_def)
    ultimately have c: "2 ^ nat (52 - e) * pow2 (e - 52) = 1"
      by simp
    have "of_int (int n * 2 ^ nat (52 - e)) * pow2 (e - 52)
            = of_nat n * (2 ^ nat (52 - e) * pow2 (e - 52))"
      by (simp add: mult.assoc)
    also have "\<dots> = a" by (simp add: c a_def)
    finally have "a = of_int (int n * 2 ^ nat (52 - e)) * pow2 (e - 52)" by simp
    then show ?thesis by blast
  qed
  then obtain k where k: "a = of_int k * pow2 (e - 52)" ..
  have m: "max (binade a) (- 1022) = e" using e0 by (simp add: e_def)
  have "a = of_int k * pow2 (max (binade a) (- 1022) - 52)"
    unfolding m by (fact k)
  from to_double_exact [OF pos this small] show ?thesis by (simp only: a_def)
qed


text \<open>
  The quotient of two naturals below \<open>2^53\<close> is rounded by less than the distance to
  the next multiple of \<open>1 / b\<close>: its floor and its ceiling are those of the exact
  quotient.
\<close>

lemma above_by_a_part:
  fixes a b :: nat and z :: int
  assumes "0 < b" and "(of_nat a / of_nat b :: rat) < of_int z"
  shows "1 / of_nat b \<le> of_int z - (of_nat a / of_nat b :: rat)"
proof -
  have b: "0 < (of_nat b :: rat)" using assms(1) by simp
  from assms(2) have "(of_nat a :: rat) < of_int z * of_nat b"
    using b by (simp add: pos_divide_less_eq)
  then have "(of_int (int a) :: rat) < of_int (z * int b)" by simp
  then have "int a < z * int b" by (simp only: of_int_less_iff)
  then have "int a + 1 \<le> z * int b" by simp
  then have "(of_int (int a + 1) :: rat) \<le> of_int (z * int b)" by (simp only: of_int_le_iff)
  then have "(of_nat a + 1 :: rat) \<le> of_int z * of_nat b" by simp
  then show ?thesis using b by (simp add: field_simps)
qed

lemma below_by_a_part:
  fixes a b :: nat and z :: int
  assumes "0 < b" and "of_int z < (of_nat a / of_nat b :: rat)"
  shows "1 / of_nat b \<le> (of_nat a / of_nat b :: rat) - of_int z"
proof -
  have b: "0 < (of_nat b :: rat)" using assms(1) by simp
  from assms(2) have "of_int z * of_nat b < (of_nat a :: rat)"
    using b by (simp add: pos_less_divide_eq)
  then have "(of_int (z * int b) :: rat) < of_int (int a)" by simp
  then have "z * int b < int a" by (simp only: of_int_less_iff)
  then have "z * int b + 1 \<le> int a" by simp
  then have "(of_int (z * int b + 1) :: rat) \<le> of_int (int a)" by (simp only: of_int_le_iff)
  then have "(of_int z * of_nat b + 1 :: rat) \<le> of_nat a" by simp
  then show ?thesis using b by (simp add: field_simps)
qed

lemma to_double_quotient:
  fixes a b :: nat
  assumes "0 < b" and "a < 2 ^ 53" and "b \<le> 2 ^ 53"
  shows "\<exists>v. to_double (of_nat a / of_nat b) = Fin v
           \<and> \<lfloor>v\<rfloor> = \<lfloor>(of_nat a / of_nat b :: rat)\<rfloor>
           \<and> \<lceil>v\<rceil> = \<lceil>(of_nat a / of_nat b :: rat)\<rceil>"
proof (cases "a = 0")
  case True
  then show ?thesis by (simp add: to_double_def)
next
  case False
  define r :: rat where "r = of_nat a / of_nat b"
  have bpos: "0 < (of_nat b :: rat)" using assms(1) by simp
  have pos: "0 < r" using False assms(1) by (simp add: r_def)
  have a53: "(of_nat a :: rat) < 2 ^ 53"
    using assms(2) by (metis of_nat_less_iff of_nat_numeral of_nat_power)
  have b53: "(of_nat b :: rat) \<le> 2 ^ 53"
    using assms(3) by (metis of_nat_le_iff of_nat_numeral of_nat_power)
  have b1: "1 \<le> (of_nat b :: rat)" using assms(1) by simp
  have r_le: "r \<le> of_nat a"
    using b1 by (simp add: r_def pos_divide_le_eq mult_le_cancel_left1)
  have r_ge: "1 / 2 ^ 53 \<le> r"
  proof -
    have "1 \<le> (of_nat a :: rat)" using False by simp
    then have "1 / of_nat b \<le> r" using bpos by (simp add: r_def divide_right_mono)
    moreover have "1 / 2 ^ 53 \<le> 1 / (of_nat b :: rat)"
      using b53 bpos by (simp add: frac_le)
    ultimately show ?thesis by simp
  qed
  define e where "e = binade r"
  from binade_bounds [OF pos] have bnd: "pow2 e \<le> r" "r < pow2 (e + 1)"
    by (simp_all add: e_def)
  have "pow2 (- 53) \<le> r" using r_ge by (simp add: pow2_def)
  with bnd(2) have "pow2 (- 53) < pow2 (e + 1)" by simp
  then have e_low: "- 53 \<le> e" by (simp add: pow2_less_iff)
  from bnd(1) r_le a53 have "pow2 e < pow2 53" by (simp add: pow2_def)
  then have e_high: "e \<le> 52" by (simp add: pow2_less_iff)
  have m: "max (binade r) (- 1022) = e" using e_low by (simp add: e_def)
  define u where "u = pow2 (e - 52)"
  define N :: int where "N = 2 ^ nat (52 - e)"
  have u: "0 < u" by (simp add: u_def pow2_pos)
  have uN: "of_int N * u = 1"
  proof -
    have "pow2 (52 - e) * pow2 (e - 52) = 1"
      by (simp add: pow2_add [symmetric] pow2_def)
    moreover have "pow2 (52 - e) = of_int N"
      using e_high by (simp add: pow2_def N_def)
    ultimately show ?thesis by (simp add: u_def)
  qed
  have scaled: "of_int (z * N) * u = of_int z" for z
  proof -
    have "of_int (z * N) * u = of_int z * (of_int N * u)" by (simp add: mult.assoc)
    then show ?thesis by (simp add: uN)
  qed
  have whole: "of_int z / u = of_int (z * N)" for z
    using scaled [of z] u by (simp add: field_simps)
  define v where "v = of_int (round_half_even (r / u)) * u"
  have near: "\<bar>v - r\<bar> \<le> u / 2"
  proof -
    have "(of_int (round_half_even (r / u)) - r / u) * u = v - r"
      using u by (simp add: v_def left_diff_distrib)
    then have "\<bar>v - r\<bar> = \<bar>(of_int (round_half_even (r / u)) - r / u) * u\<bar>"
      by simp
    also have "\<dots> = \<bar>of_int (round_half_even (r / u)) - r / u\<bar> * u"
      using u by (simp add: abs_mult)
    also have "\<dots> \<le> 1 / 2 * u"
      using round_half_even_near [of "r / u"] u by (intro mult_right_mono) simp_all
    finally show ?thesis by simp
  qed
  have fine: "u / 2 < 1 / of_nat b"
  proof -
    have "u * 2 ^ 52 = pow2 (e - 52) * pow2 52" by (simp add: u_def pow2_def)
    also have "\<dots> = pow2 e" by (simp add: pow2_add [symmetric])
    finally have "u * 2 ^ 52 \<le> r" using bnd(1) by simp
    also have "r < 2 ^ 53 / of_nat b"
      using a53 bpos by (simp add: r_def divide_strict_right_mono)
    finally have "u * 2 ^ 52 < 2 ^ 53 / of_nat b" .
    then have "u * 2 ^ 52 * of_nat b < 2 ^ 53" using bpos by (simp add: pos_less_divide_eq)
    then have "u * of_nat b < 2" by simp
    then show ?thesis using bpos by (simp add: pos_less_divide_eq)
  qed
  define q where "q = \<lfloor>r\<rfloor>"
  define q' where "q' = \<lceil>r\<rceil>"
  have q_le: "of_int q \<le> v"
  proof -
    have "of_int q \<le> r" by (simp add: q_def)
    then have "of_int q / u \<le> r / u" using u by (simp add: divide_right_mono)
    then have "of_int (q * N) \<le> r / u" by (simp only: whole)
    then have "q * N \<le> round_half_even (r / u)" by (rule round_half_even_ge)
    then have "(of_int (q * N) :: rat) \<le> of_int (round_half_even (r / u))" by (simp only: of_int_le_iff)
    then have "of_int (q * N) * u \<le> v" using u by (simp add: v_def mult_right_mono)
    then show ?thesis by (simp only: scaled)
  qed
  have v_le: "v \<le> of_int q'"
  proof -
    have "r \<le> of_int q'" by (simp add: q'_def)
    then have "r / u \<le> of_int q' / u" using u by (simp add: divide_right_mono)
    then have "r / u \<le> of_int (q' * N)" by (simp only: whole)
    then have "round_half_even (r / u) \<le> q' * N" by (rule round_half_even_le)
    then have "(of_int (round_half_even (r / u)) :: rat) \<le> of_int (q' * N)" by (simp only: of_int_le_iff)
    then have "v \<le> of_int (q' * N) * u" using u by (simp add: v_def mult_right_mono)
    then show ?thesis by (simp only: scaled)
  qed
  have v_lt: "v < of_int (q + 1)"
  proof -
    have "r < of_int (q + 1)" unfolding q_def by simp linarith
    from above_by_a_part [OF assms(1) this [unfolded r_def]]
    have gap: "1 / of_nat b \<le> of_int (q + 1) - r" by (simp add: r_def)
    have "v - r \<le> \<bar>v - r\<bar>" by simp
    with near fine gap show ?thesis by linarith
  qed
  have v_gt: "of_int (q' - 1) < v"
  proof -
    have "of_int (q' - 1) < r" unfolding q'_def by simp linarith
    from below_by_a_part [OF assms(1) this [unfolded r_def]]
    have gap: "1 / of_nat b \<le> r - of_int (q' - 1)" by (simp add: r_def)
    have "r - v \<le> \<bar>v - r\<bar>" by simp
    with near fine gap show ?thesis by linarith
  qed
  have fl: "\<lfloor>v\<rfloor> = q" using q_le v_lt by (simp add: floor_unique)
  have ce: "\<lceil>v\<rceil> = q'" using v_le v_gt by (simp add: ceiling_unique)
  have small: "v < pow2 1024"
  proof -
    have "r \<le> of_int (int a)" using r_le by simp
    then have "q' \<le> int a" unfolding q'_def by (simp only: ceiling_le_iff)
    then have "(of_int q' :: rat) \<le> of_int (int a)" by (simp only: of_int_le_iff)
    then have "of_int q' \<le> (of_nat a :: rat)" by simp
    with v_le a53 have "v < 2 ^ 53" by simp
    moreover have "pow2 53 < pow2 1024" by (simp add: pow2_less_iff)
    ultimately show ?thesis by (simp add: pow2_def)
  qed
  have "to_double r = Fin v"
    using pos small by (simp add: to_double_def Let_def m u_def [symmetric] v_def [symmetric] not_le)
  with fl ce show ?thesis
    by (simp add: r_def [symmetric] q_def q'_def)
qed


text \<open>Evaluating the number a short text spells.\<close>

lemma to_double_numeral:
  "numeral w \<le> (2 ^ 53 :: nat) \<Longrightarrow> to_double (numeral w) = Fin (numeral w)"
  using to_double_nat [of "numeral w"] by simp

lemma to_double_small: "to_double 0 = Fin 0" "to_double 1 = Fin 1"
  using to_double_nat [of 0] to_double_nat [of 1] by simp_all

lemmas number_text =
  string_to_number_def trim_def is_white_def radix_literal_def decimal_literal_def signed_def
  exponent_part_def in_radix_def digit_value_def pow10_def Let_def to_double_numeral
  to_double_small

lemma string_to_number_1: "string_to_number ''1'' = Fin 1" by (simp add: number_text)
lemma string_to_number_11: "string_to_number ''11'' = Fin 11" by (simp add: number_text)
lemma string_to_number_5: "string_to_number ''5'' = Fin 5" by (simp add: number_text)
lemma string_to_number_10: "string_to_number ''10'' = Fin 10" by (simp add: number_text)
lemma string_to_number_510: "string_to_number ''510'' = Fin 510" by (simp add: number_text)

subsection \<open>Pagination\<close>

text \<open>
  Given numbers, the summary is the one the specification describes, as long as the sums
  and counts stay within the integers a double holds exactly.
\<close>

lemma pagination_of_numbers:
  assumes "0 < l" and "off + l \<le> 2 ^ 53" and "cnt < 2 ^ 53"
  shows "pagination (Fin (of_nat cnt)) (Num (Fin (of_nat off))) (Num (Fin (of_nat l)))
           = [(''total_count'', Num (Fin (of_nat cnt))),
              (''current_page'', Num (Fin (of_int (\<lfloor>(of_nat off :: rat) / of_nat l\<rfloor> + 1)))),
              (''total_pages'', Num (Fin (of_int \<lceil>(of_nat cnt :: rat) / of_nat l\<rceil>))),
              (''has_next'', Bool (off + l < cnt)),
              (''has_previous'', Bool (0 < off))]"
proof -
  from assms have off: "off < 2 ^ 53" and l: "l \<le> 2 ^ 53" by simp_all
  from to_double_quotient [OF assms(1) off l] obtain v
    where v: "to_double (of_nat off / of_nat l) = Fin v"
      and fl: "\<lfloor>v\<rfloor> = \<lfloor>(of_nat off / of_nat l :: rat)\<rfloor>" by blast
  from to_double_quotient [OF assms(1,3) l] obtain w
    where w: "to_double (of_nat cnt / of_nat l) = Fin w"
      and ce: "\<lceil>w\<rceil> = \<lceil>(of_nat cnt / of_nat l :: rat)\<rceil>" by blast
  define q where "q = \<lfloor>(of_nat off / of_nat l :: rat)\<rfloor>"
  have q0: "0 \<le> q" by (simp add: q_def)
  have "(of_nat off / of_nat l :: rat) \<le> of_nat off"
    using assms(1) by (simp add: pos_divide_le_eq mult_le_cancel_left1)
  then have "(of_nat off / of_nat l :: rat) \<le> of_int (int off)" by simp
  then have "q \<le> int off" unfolding q_def by (metis floor_mono floor_of_int)
  with off have "nat q + 1 \<le> 2 ^ 53" by simp
  from to_double_nat [OF this] q0 have page: "to_double (of_int q + 1) = Fin (of_int q + 1)"
    by (simp add: add.commute)
  have sum: "to_double (of_nat off + of_nat l) = Fin (of_nat off + of_nat l)"
    using to_double_nat [OF assms(2)] by simp
  have lt: "((of_nat off :: rat) + of_nat l < of_nat cnt) = (off + l < cnt)"
    by (metis of_nat_add of_nat_less_iff)
  from assms(1) show ?thesis
    by (simp add: pagination_def js_divide_def to_number_def to_primitive_def js_plus_def
          is_text_def js_less_def js_greater_def v w fl ce page sum lt q_def [symmetric])
qed

text \<open>
  A generic query called with numbers, as the convenience routes call it: on a healthy
  store it returns, with that summary and a page of at most \<open>limit\<close> records.
\<close>

lemma query_of_numbers:
  assumes "fault c = None" and "0 < l" and "off + l \<le> 2 ^ 53"
    and "cnt = length (filter (matches e (base_query (user_id opts) (memory_type opts)
            (min_importance_score opts) (min_emotional_significance opts)
            (min_temporal_relevance opts) (date_range opts))) (docs c))"
    and "cnt < 2 ^ 53"
  shows "\<exists>page. queryMemoryEmbeddings e c
                  (opts\<lparr>limit := Num (Fin (of_nat l)), offset := Num (Fin (of_nat off))\<rparr>)
           = Inr [(''results'', Arr page),
                  (''pagination'',
                     Obj [(''total_count'', Num (Fin (of_nat cnt))),
                          (''current_page'',
                             Num (Fin (of_int (\<lfloor>(of_nat off :: rat) / of_nat l\<rfloor> + 1)))),
                          (''total_pages'',
                             Num (Fin (of_int \<lceil>(of_nat cnt :: rat) / of_nat l\<rceil>))),
                          (''has_next'', Bool (off + l < cnt)),
                          (''has_previous'', Bool (0 < off))])]
         \<and> length page \<le> l"
  using assms
  by (simp add: queryMemoryEmbeddings_def initialize_def coll_find_def coll_countDocuments_def
        count_read_def skipped_def limited_positive count_of_nat pagination_of_numbers
        rethrow_def Let_def)

text \<open>The query \<open>?offset=1&limit=1\<close> passes the validation of \<open>GET /query\<close>.\<close>

lemma query_text_valid:
  "validateQuery decimal_joi querySchema (Obj [(''offset'', Str ''1''), (''limit'', Str ''1'')])
     = None"
  by (simp add: validateQuery_def validation_errors_def querySchema_def obj_get_def
        decimal_joi_def sample_joi_def in_radix_def digit_value_def listed_def)

lemma text_counts:
  "count_of (string_to_number ''1'') = Some 1"
  using count_of_nat [of 1] by (simp add: string_to_number_1)

text \<open>
  C3. The summary of a generic query is to have \<open>has_next = (offset + limit < total)\<close>.
  \<open>GET /query?offset=1&limit=1\<close> on three stored records passes validation, and the
  service is handed the texts \<open>'1'\<close> and \<open>'1'\<close> of the URL: \<open>offset + limit\<close> is
  the text \<open>'11'\<close>, and \<open>has_next\<close> is false although \<open>1 + 1 < 3\<close> and a third record
  follows the one returned. Given the numbers 1 and 1 the same computation answers true;
  likewise \<open>'5'\<close> and \<open>'10'\<close> against 20 matching records.
\<close>

theorem query_text_is_joined:
  "router_get_query decimal_joi sample_engine sample_collection
      (Obj [(''offset'', Str ''1''), (''limit'', Str ''1'')])
     = Respond 200
         (Obj [(''success'', Bool True),
               (''data'',
                  Obj [(''results'', Arr [Obj (query_record (sample_doc ''m2'' (9 / 10)))]),
                       (''pagination'',
                          Obj [(''total_count'', Num (Fin 3)),
                               (''current_page'', Num (Fin 2)),
                               (''total_pages'', Num (Fin 3)),
                               (''has_next'', Bool False),
                               (''has_previous'', Bool True)])]),
               (''message'', Str ''Found 1 memory embeddings'')])
   \<and> pagination (Fin 3) (Num (Fin 1)) (Num (Fin 1))
       = [(''total_count'', Num (Fin 3)),
          (''current_page'', Num (Fin 2)),
          (''total_pages'', Num (Fin 3)),
          (''has_next'', Bool True),
          (''has_previous'', Bool True)]
   \<and> pagination (Fin 20) (Str ''5'') (Str ''10'')
       = [(''total_count'', Num (Fin 20)),
          (''current_page'', Num (Fin 1)),
          (''total_pages'', Num (Fin 2)),
          (''has_next'', Bool False),
          (''has_previous'', Bool True)]
   \<and> pagination (Fin 20) (Num (Fin 5)) (Num (Fin 10))
       = [(''total_count'', Num (Fin 20)),
          (''current_page'', Num (Fin 1)),
          (''total_pages'', Num (Fin 2)),
          (''has_next'', Bool True),
          (''has_previous'', Bool True)]"
proof (intro conjI)
  have numbers: "pagination (Fin (of_nat 3)) (Num (Fin (of_nat 1))) (Num (Fin (of_nat 1)))
       = [(''total_count'', Num (Fin 3)),
          (''current_page'', Num (Fin 2)),
          (''total_pages'', Num (Fin 3)),
          (''has_next'', Bool True),
          (''has_previous'', Bool True)]"
    by (subst pagination_of_numbers) simp_all
  then show "pagination (Fin 3) (Num (Fin 1)) (Num (Fin 1))
       = [(''total_count'', Num (Fin 3)),
          (''current_page'', Num (Fin 2)),
          (''total_pages'', Num (Fin 3)),
          (''has_next'', Bool True),
          (''has_previous'', Bool True)]"
    by simp
  from numbers have joined: "pagination (Fin 3) (Str ''1'') (Str ''1'')
       = [(''total_count'', Num (Fin 3)),
          (''current_page'', Num (Fin 2)),
          (''total_pages'', Num (Fin 3)),
          (''has_next'', Bool False),
          (''has_previous'', Bool True)]"
    by (simp add: pagination_def js_divide_def to_number_def to_primitive_def js_plus_def
          is_text_def js_less_def js_greater_def string_to_number_1 string_to_number_11)
  show "router_get_query decimal_joi sample_engine sample_collection
      (Obj [(''offset'', Str ''1''), (''limit'', Str ''1'')])
     = Respond 200
         (Obj [(''success'', Bool True),
               (''data'',
                  Obj [(''results'', Arr [Obj (query_record (sample_doc ''m2'' (9 / 10)))]),
                       (''pagination'',
                          Obj [(''total_count'', Num (Fin 3)),
                               (''current_page'', Num (Fin 2)),
                               (''total_pages'', Num (Fin 3)),
                               (''has_next'', Bool False),
                               (''has_previous'', Bool True)])]),
               (''message'', Str ''Found 1 memory embeddings'')])"
    by (simp add: router_get_query_def query_text_valid queryMemoryEmbeddings_def initialize_def
          coll_find_def coll_countDocuments_def count_read_def skipped_def limited_def
          text_counts joined rethrow_def Let_def ordered_def sample_collection_def
          sample_engine_def base_query_def assign_if_def obj_get_def results_length_def
          digit_char_def)
next
  have numbers: "pagination (Fin (of_nat 20)) (Num (Fin (of_nat 5))) (Num (Fin (of_nat 10)))
     = [(''total_count'', Num (Fin 20)),
      (''current_page'', Num (Fin 1)),
      (''total_pages'', Num (Fin 2)),
      (''has_next'', Bool True),
      (''has_previous'', Bool True)]"
    by (subst pagination_of_numbers) (simp_all add: floor_eq_iff)
  then show "pagination (Fin 20) (Num (Fin 5)) (Num (Fin 10))
     = [(''total_count'', Num (Fin 20)),
      (''current_page'', Num (Fin 1)),
      (''total_pages'', Num (Fin 2)),
      (''has_next'', Bool True),
      (''has_previous'', Bool True)]"
    by simp
  from numbers show "pagination (Fin 20) (Str ''5'') (Str ''10'')
   = [(''total_count'', Num (Fin 20)),
      (''current_page'', Num (Fin 1)),
      (''total_pages'', Num (Fin 2)),
      (''has_next'', Bool False),
      (''has_previous'', Bool True)]"
    by (simp add: pagination_def js_divide_def to_number_def to_primitive_def js_plus_def
          is_text_def js_less_def js_greater_def string_to_number_5 string_to_number_10 string_to_number_510)
qed

text \<open>
  C4. With \<open>limit = 0\<close> the pagination summary must not come from a division by zero.
  \<open>GET /user/:userId?limit=0\<close> reaches the service unvalidated: on an empty store both
  page values are \<open>NaN\<close>, and with five matching documents \<open>total_pages\<close> is
  \<open>Infinity\<close>.
\<close>

theorem limit_zero_divides_by_zero:
  "router_get_user e \<lparr>docs = [], fault = None\<rparr> ''u1'' [(''limit'', ''0'')]
     = Respond 200
         (Obj [(''success'', Bool True),
               (''data'',
                  Obj [(''results'', Arr []),
                       (''pagination'',
                          Obj [(''total_count'', Num (Fin 0)),
                               (''current_page'', Num NaN),
                               (''total_pages'', Num NaN),
                               (''has_next'', Bool False),
                               (''has_previous'', Bool False)])]),
               (''message'', Str ''Found 0 memory embeddings for user u1'')])
   \<and> obj_get (pagination (Fin 5) (Num (Fin 0)) (Num (Fin 0))) ''total_pages'' = Num PosInf"
  by (simp add: router_get_user_def queryMemoryEmbeddings_def initialize_def coll_find_def
        coll_countDocuments_def count_read_def skipped_def limited_def count_of_def
        pagination_def rethrow_def Let_def js_divide_def to_number_def to_primitive_def
        js_plus_def is_text_def js_less_def js_greater_def parseInt_def ordered_def
        in_radix_def digit_value_def digit_char_def is_white_def results_length_def
        obj_get_def to_double_small)

subsection \<open>Similarity search\<close>

lemma desc_hd_Max:
  assumes "sorted (map (\<lambda>d. - g d) xs)" and "xs \<noteq> []"
  shows "Max (g ` set xs) = (g (hd xs) :: rat)"
proof -
  from assms(2) obtain x ys where xs: "xs = x # ys" by (cases xs) auto
  with assms(1) have "\<forall>y\<in>set ys. g y \<le> g x" by auto
  with xs show ?thesis by (intro Max_eqI) auto
qed

lemma sorted_le_last: "sorted zs \<Longrightarrow> z \<in> set zs \<Longrightarrow> z \<le> last zs"
  by (induction zs) auto

lemma desc_last_Min:
  assumes "sorted (map (\<lambda>d. - g d) xs)" and "xs \<noteq> []"
  shows "Min (g ` set xs) = (g (last xs) :: rat)"
proof (rule Min_eqI)
  show "finite (g ` set xs)" by simp
  show "g (last xs) \<in> g ` set xs" using assms(2) by simp
next
  fix y assume "y \<in> g ` set xs"
  then obtain d where d: "d \<in> set xs" "y = g d" by auto
  then have "- g d \<in> set (map (\<lambda>d. - g d) xs)" by auto
  from sorted_le_last [OF assms(1) this] assms(2)
  have "- g d \<le> - g (last xs)" by (simp add: last_map)
  with d show "g (last xs) \<le> y" by simp
qed

lemma sorted_map_take: "sorted (map f xs) \<Longrightarrow> sorted (map f (take k xs))"
  by (simp add: take_map [symmetric] sorted_wrt_take)

text \<open>
  What a similarity search returns on a healthy store with a natural limit: the rows are
  stored documents in descending order of similarity, each carrying its score.
\<close>

lemma findSimilarMemoryEmbeddings_rows:
  assumes "fault c = None"
    and "count_of (case limit_opt of None \<Rightarrow> Fin 10 | Some n \<Rightarrow> n) = Some k"
    and "filters \<noteq> Null" and "v \<noteq> Undefined" and "v \<noteq> Null"
  shows "\<exists>ds. set ds \<subseteq> set (docs c) \<and> (k = 0 \<or> length ds \<le> k)
           \<and> sorted (map (\<lambda>d. - similarity e v d) ds)
           \<and> findSimilarMemoryEmbeddings e c v limit_opt filters =
               Inr [(''query_vector_dimensions'', js_length v),
                    (''results_count'', Num (Fin (of_nat (length ds)))),
                    (''max_similarity_score'',
                       Num (Fin (if ds = [] then 0 else similarity e v (hd ds)))),
                    (''min_similarity_score'',
                       Num (Fin (if ds = [] then 0 else similarity e v (last ds)))),
                    (''results'',
                       Arr (map (\<lambda>d. Obj (similar_record
                                  (obj_set d ''$similarity'' (Num (Fin (similarity e v d))))))
                              ds))]"
proof -
  define fs where "fs = (if filters = Undefined then Obj [] else filters)"
  define query where "query =
    assign_if (has_elements (get_prop fs ''retrieval_triggers''))
      ''retrieval_triggers'' (Obj [(''$in'', get_prop fs ''retrieval_triggers'')])
      (base_query (get_prop fs ''user_id'') (get_prop fs ''memory_type'')
         (get_prop fs ''min_importance_score'') (get_prop fs ''min_emotional_significance'')
         (get_prop fs ''min_temporal_relevance'') (get_prop fs ''date_range''))"
  define ranked where
    "ranked = sort_key (\<lambda>d. - similarity e v d) (filter (matches e query) (docs c))"
  define ds where "ds = (if k = 0 then ranked else take k ranked)"
  have sorted: "sorted (map (\<lambda>d. - similarity e v d) ds)"
    by (simp add: ds_def ranked_def sorted_map_take)
  have sub: "set ds \<subseteq> set (docs c)"
    using set_take_subset [of k ranked] by (auto simp: ds_def ranked_def)
  have len: "k = 0 \<or> length ds \<le> k"
    by (simp add: ds_def)
  have found: "coll_find_similar e c query v (case limit_opt of None \<Rightarrow> Fin 10 | Some n \<Rightarrow> n)
      = Inr (map (\<lambda>d. obj_set d ''$similarity'' (Num (Fin (similarity e v d)))) ds)"
    using assms(1,2) by (simp add: coll_find_similar_def limited_Some ds_def ranked_def)
  have readable: "cannot_read fs ''user_id'' = None" "cannot_read v ''length'' = None"
    using assms(3,4,5) by (simp_all add: cannot_read_def fs_def split: jsval.splits)
  have res: "findSimilarMemoryEmbeddings e c v limit_opt filters =
               Inr [(''query_vector_dimensions'', js_length v),
                    (''results_count'', Num (Fin (of_nat (length ds)))),
                    (''max_similarity_score'',
                       Num (Fin (if ds = [] then 0 else similarity e v (hd ds)))),
                    (''min_similarity_score'',
                       Num (Fin (if ds = [] then 0 else similarity e v (last ds)))),
                    (''results'',
                       Arr (map (\<lambda>d. Obj (similar_record
                                  (obj_set d ''$similarity'' (Num (Fin (similarity e v d))))))
                              ds))]"
    using assms(1) found readable
    by (simp add: findSimilarMemoryEmbeddings_def initialize_def rethrow_def Let_def
          fs_def [symmetric] query_def [symmetric] hd_map last_map obj_get_set comp_def)
  from sub len sorted res show ?thesis by blast
qed

lemma similar_record_score:
  "obj_get (similar_record (obj_set d ''$similarity'' s)) ''similarity_score'' = s"
  by (simp add: similar_record_def obj_get_def obj_get_set [unfolded obj_get_def])

text \<open>
  C5. A similarity search reports the length of the query vector, the number of rows, and
  the greatest and the least similarity among the rows, both 0 when there is no row; every
  returned record carries its similarity as \<open>similarity_score\<close>.
\<close>

theorem similarity_summary:
  assumes "fault c = None"
    and "count_of (case limit_opt of None \<Rightarrow> Fin 10 | Some n \<Rightarrow> n) = Some k"
    and "filters \<noteq> Null"
  shows "\<exists>ds. set ds \<subseteq> set (docs c) \<and> (k = 0 \<or> length ds \<le> k)
           \<and> findSimilarMemoryEmbeddings e c (Arr v) limit_opt filters =
               Inr [(''query_vector_dimensions'', Num (Fin (of_nat (length v)))),
                    (''results_count'', Num (Fin (of_nat (length ds)))),
                    (''max_similarity_score'',
                       Num (Fin (if ds = [] then 0 else Max (similarity e (Arr v) ` set ds)))),
                    (''min_similarity_score'',
                       Num (Fin (if ds = [] then 0 else Min (similarity e (Arr v) ` set ds)))),
                    (''results'',
                       Arr (map (\<lambda>d. Obj (similar_record
                                  (obj_set d ''$similarity'' (Num (Fin (similarity e (Arr v) d))))))
                              ds))]
           \<and> (\<forall>d\<in>set ds.
                 obj_get (similar_record
                            (obj_set d ''$similarity'' (Num (Fin (similarity e (Arr v) d)))))
                   ''similarity_score'' = Num (Fin (similarity e (Arr v) d)))"
proof -
  have array: "Arr v \<noteq> Undefined" "Arr v \<noteq> Null"
    by simp_all
  from findSimilarMemoryEmbeddings_rows [OF assms array, of e]
  obtain ds where ds: "set ds \<subseteq> set (docs c)" "k = 0 \<or> length ds \<le> k"
    "sorted (map (\<lambda>d. - similarity e (Arr v) d) ds)"
    "findSimilarMemoryEmbeddings e c (Arr v) limit_opt filters =
       Inr [(''query_vector_dimensions'', js_length (Arr v)),
            (''results_count'', Num (Fin (of_nat (length ds)))),
            (''max_similarity_score'',
               Num (Fin (if ds = [] then 0 else similarity e (Arr v) (hd ds)))),
            (''min_similarity_score'',
               Num (Fin (if ds = [] then 0 else similarity e (Arr v) (last ds)))),
            (''results'',
               Arr (map (\<lambda>d. Obj (similar_record
                          (obj_set d ''$similarity'' (Num (Fin (similarity e (Arr v) d))))))
                      ds))]"
    by (elim exE conjE)
  have "findSimilarMemoryEmbeddings e c (Arr v) limit_opt filters =
               Inr [(''query_vector_dimensions'', Num (Fin (of_nat (length v)))),
                    (''results_count'', Num (Fin (of_nat (length ds)))),
                    (''max_similarity_score'',
                       Num (Fin (if ds = [] then 0 else Max (similarity e (Arr v) ` set ds)))),
                    (''min_similarity_score'',
                       Num (Fin (if ds = [] then 0 else Min (similarity e (Arr v) ` set ds)))),
                    (''results'',
                       Arr (map (\<lambda>d. Obj (similar_record
                                  (obj_set d ''$similarity'' (Num (Fin (similarity e (Arr v) d))))))
                              ds))]"
    using ds(4) desc_hd_Max [OF ds(3)] desc_last_Min [OF ds(3)] by simp
  with ds(1,2) show ?thesis
    by (intro exI [of _ ds]) (simp add: similar_record_score)
qed

theorem similarity_summary_witness:
  "fault sample_collection = None \<and> count_of (Fin 2) = Some 2
   \<and> findSimilarMemoryEmbeddings sample_engine sample_collection (Arr [Num (Fin 1)])
        (Some (Fin 2)) Undefined
      = Inr [(''query_vector_dimensions'', Num (Fin 1)),
             (''results_count'', Num (Fin 2)),
             (''max_similarity_score'', Num (Fin (9 / 10))),
             (''min_similarity_score'', Num (Fin (1 / 2))),
             (''results'',
                Arr [Obj (similar_record
                            (obj_set (sample_doc ''m2'' (9 / 10)) ''$similarity'' (Num (Fin (9 / 10))))),
                     Obj (similar_record
                            (obj_set (sample_doc ''m1'' (1 / 2)) ''$similarity'' (Num (Fin (1 / 2)))))])]"
proof -
  have two: "count_of (Fin 2) = Some 2"
    using count_of_nat [of 2] by simp
  from similarity_summary [of sample_collection "Some (Fin 2)" 2 Undefined sample_engine "[Num (Fin 1)]"]
  have "\<exists>ds. findSimilarMemoryEmbeddings sample_engine sample_collection (Arr [Num (Fin 1)])
                 (Some (Fin 2)) Undefined
               = Inr [(''query_vector_dimensions'', Num (Fin 1)),
                      (''results_count'', Num (Fin (of_nat (length ds)))),
                      (''max_similarity_score'',
                         Num (Fin (if ds = [] then 0
                                   else Max (similarity sample_engine (Arr [Num (Fin 1)]) ` set ds)))),
                      (''min_similarity_score'',
                         Num (Fin (if ds = [] then 0
                                   else Min (similarity sample_engine (Arr [Num (Fin 1)]) ` set ds)))),
                      (''results'',
                         Arr (map (\<lambda>d. Obj (similar_record
                                    (obj_set d ''$similarity''
                                       (Num (Fin (similarity sample_engine (Arr [Num (Fin 1)]) d))))))
                                ds))]"
    using two by (auto simp: sample_collection_def)
  moreover have "findSimilarMemoryEmbeddings sample_engine sample_collection (Arr [Num (Fin 1)])
        (Some (Fin 2)) Undefined
      = Inr [(''query_vector_dimensions'', Num (Fin 1)),
             (''results_count'', Num (Fin 2)),
             (''max_similarity_score'', Num (Fin (9 / 10))),
             (''min_similarity_score'', Num (Fin (1 / 2))),
             (''results'',
                Arr [Obj (similar_record
                            (obj_set (sample_doc ''m2'' (9 / 10)) ''$similarity'' (Num (Fin (9 / 10))))),
                     Obj (similar_record
                            (obj_set (sample_doc ''m1'' (1 / 2)) ''$similarity'' (Num (Fin (1 / 2)))))])]"
    using two
    by (simp add: findSimilarMemoryEmbeddings_def initialize_def rethrow_def Let_def
          coll_find_similar_def limited_Some sample_collection_def sample_engine_def
          base_query_def assign_if_def has_elements_def obj_get_def sample_doc_def
          cannot_read_def)
  ultimately show ?thesis
    using two by (simp add: sample_collection_def)
qed

subsection \<open>Recording access\<close>

text \<open>One access of an existing record with a numeric counter.\<close>

lemma recordMemoryAccess_step:
  assumes "fault c = None" and "find (has_id i) (docs c) = Some d"
    and "obj_get d ''access_frequency'' = Num (Fin n)"
  shows "\<exists>d' c'. recordMemoryAccess c now1 now2 i =
            (Inr [(''id'', Str i), (''access_frequency'', Num (Fin (n + 1))),
                  (''last_accessed'', Str now1)], c')
          \<and> fault c' = None \<and> find (has_id i) (docs c') = Some d'
          \<and> obj_get d' ''access_frequency'' = Num (Fin (n + 1))
          \<and> obj_get d' ''last_accessed'' = Str now1
          \<and> obj_get d' ''updated_at'' = Str now2
          \<and> (\<forall>k. k \<noteq> ''access_frequency'' \<and> k \<noteq> ''last_accessed'' \<and> k \<noteq> ''updated_at''
                 \<longrightarrow> obj_get d' k = obj_get d k)"
proof -
  define d' where "d' = obj_set (obj_set (obj_set d ''access_frequency'' (Num (Fin (n + 1))))
                           ''last_accessed'' (Str now1)) ''updated_at'' (Str now2)"
  have upd: "apply_update [(''$inc'', Obj [(''access_frequency'', Num (Fin 1))]),
                   (''$set'', Obj [(''last_accessed'', Str now1), (''updated_at'', Str now2)])] d = Inr d'"
    using assms(3) by (simp add: apply_update_def operator_fields_def obj_get_def apply_set_def d'_def)
  have id: "has_id i d'" using find_has_id [OF assms(2)]
    by (simp add: d'_def has_id_obj_set)
  then have idv: "obj_get d' ''_id'' = Str i" by (simp add: has_id_def)
  have found: "find (has_id i) (replace_first (has_id i) d' (docs c)) = Some d'"
    using assms(2) id by (rule find_replace_first)
  show ?thesis
    apply (rule exI [of _ d'])
    apply (rule exI [of _ "c\<lparr>docs := replace_first (has_id i) d' (docs c)\<rparr>"])
    using assms(1,2) upd found idv
    apply (simp add: recordMemoryAccess_def initialize_def coll_findOneAndUpdate_def rethrow_def)
    apply (simp add: d'_def obj_get_set)
    done
qed


text \<open>Any number of accesses, from any numeric counter.\<close>

lemma repeat_access_counts:
  assumes "fault c = None" and "find (has_id i) (docs c) = Some d"
    and "obj_get d ''access_frequency'' = Num (Fin n)"
  shows "\<exists>rs d' c'. repeat_access c i clock = (rs, c')
          \<and> length rs = length clock
          \<and> (\<forall>j<length clock.
                rs ! j = Inr [(''id'', Str i),
                              (''access_frequency'', Num (Fin (n + of_nat (Suc j)))),
                              (''last_accessed'', Str (fst (clock ! j)))])
          \<and> fault c' = None \<and> find (has_id i) (docs c') = Some d'
          \<and> obj_get d' ''access_frequency'' = Num (Fin (n + of_nat (length clock)))
          \<and> (clock \<noteq> [] \<longrightarrow> obj_get d' ''last_accessed'' = Str (fst (last clock))
                              \<and> obj_get d' ''updated_at'' = Str (snd (last clock)))
          \<and> (\<forall>k. k \<noteq> ''access_frequency'' \<and> k \<noteq> ''last_accessed'' \<and> k \<noteq> ''updated_at''
                 \<longrightarrow> obj_get d' k = obj_get d k)"
  using assms
proof (induction clock arbitrary: c d n)
  case Nil
  then show ?case by simp
next
  case (Cons t clock)
  obtain now1 now2 where t: "t = (now1, now2)" by (cases t)
  from recordMemoryAccess_step [OF Cons.prems, of now1 now2]
  obtain d1 where "\<exists>c1. recordMemoryAccess c now1 now2 i =
       (Inr [(''id'', Str i), (''access_frequency'', Num (Fin (n + 1))),
             (''last_accessed'', Str now1)], c1)
    \<and> fault c1 = None \<and> find (has_id i) (docs c1) = Some d1
    \<and> obj_get d1 ''access_frequency'' = Num (Fin (n + 1))
    \<and> obj_get d1 ''last_accessed'' = Str now1
    \<and> obj_get d1 ''updated_at'' = Str now2
    \<and> (\<forall>k. k \<noteq> ''access_frequency'' \<and> k \<noteq> ''last_accessed'' \<and> k \<noteq> ''updated_at''
         \<longrightarrow> obj_get d1 k = obj_get d k)" ..
  then obtain c1 where step0: "recordMemoryAccess c now1 now2 i =
       (Inr [(''id'', Str i), (''access_frequency'', Num (Fin (n + 1))),
             (''last_accessed'', Str now1)], c1)
    \<and> fault c1 = None \<and> find (has_id i) (docs c1) = Some d1
    \<and> obj_get d1 ''access_frequency'' = Num (Fin (n + 1))
    \<and> obj_get d1 ''last_accessed'' = Str now1
    \<and> obj_get d1 ''updated_at'' = Str now2
    \<and> (\<forall>k. k \<noteq> ''access_frequency'' \<and> k \<noteq> ''last_accessed'' \<and> k \<noteq> ''updated_at''
         \<longrightarrow> obj_get d1 k = obj_get d k)" ..
  then have step:
    "recordMemoryAccess c now1 now2 i =
       (Inr [(''id'', Str i), (''access_frequency'', Num (Fin (n + 1))),
             (''last_accessed'', Str now1)], c1)"
    "fault c1 = None" "find (has_id i) (docs c1) = Some d1"
    "obj_get d1 ''access_frequency'' = Num (Fin (n + 1))"
    "obj_get d1 ''last_accessed'' = Str now1"
    "obj_get d1 ''updated_at'' = Str now2"
    "\<forall>k. k \<noteq> ''access_frequency'' \<and> k \<noteq> ''last_accessed'' \<and> k \<noteq> ''updated_at''
         \<longrightarrow> obj_get d1 k = obj_get d k"
    by simp_all
  from Cons.IH [OF step(2,3,4)]
  obtain rs where "\<exists>d' c'. repeat_access c1 i clock = (rs, c')
    \<and> length rs = length clock
    \<and> (\<forall>j<length clock.
        rs ! j = Inr [(''id'', Str i),
                      (''access_frequency'', Num (Fin (n + 1 + of_nat (Suc j)))),
                      (''last_accessed'', Str (fst (clock ! j)))])
    \<and> fault c' = None \<and> find (has_id i) (docs c') = Some d'
    \<and> obj_get d' ''access_frequency'' = Num (Fin (n + 1 + of_nat (length clock)))
    \<and> (clock \<noteq> [] \<longrightarrow> obj_get d' ''last_accessed'' = Str (fst (last clock))
                     \<and> obj_get d' ''updated_at'' = Str (snd (last clock)))
    \<and> (\<forall>k. k \<noteq> ''access_frequency'' \<and> k \<noteq> ''last_accessed'' \<and> k \<noteq> ''updated_at''
         \<longrightarrow> obj_get d' k = obj_get d1 k)" ..
  then obtain d' where "\<exists>c'. repeat_access c1 i clock = (rs, c')
    \<and> length rs = length clock
    \<and> (\<forall>j<length clock.
        rs ! j = Inr [(''id'', Str i),
                      (''access_frequency'', Num (Fin (n + 1 + of_nat (Suc j)))),
                      (''last_accessed'', Str (fst (clock ! j)))])
    \<and> fault c' = None \<and> find (has_id i) (docs c') = Some d'
    \<and> obj_get d' ''access_frequency'' = Num (Fin (n + 1 + of_nat (length clock)))
    \<and> (clock \<noteq> [] \<longrightarrow> obj_get d' ''last_accessed'' = Str (fst (last clock))
                     \<and> obj_get d' ''updated_at'' = Str (snd (last clock)))
    \<and> (\<forall>k. k \<noteq> ''access_frequency'' \<and> k \<noteq> ''last_accessed'' \<and> k \<noteq> ''updated_at''
         \<longrightarrow> obj_get d' k = obj_get d1 k)" ..
  then obtain c' where rest0: "repeat_access c1 i clock = (rs, c')
    \<and> length rs = length clock
    \<and> (\<forall>j<length clock.
        rs ! j = Inr [(''id'', Str i),
                      (''access_frequency'', Num (Fin (n + 1 + of_nat (Suc j)))),
                      (''last_accessed'', Str (fst (clock ! j)))])
    \<and> fault c' = None \<and> find (has_id i) (docs c') = Some d'
    \<and> obj_get d' ''access_frequency'' = Num (Fin (n + 1 + of_nat (length clock)))
    \<and> (clock \<noteq> [] \<longrightarrow> obj_get d' ''last_accessed'' = Str (fst (last clock))
                     \<and> obj_get d' ''updated_at'' = Str (snd (last clock)))
    \<and> (\<forall>k. k \<noteq> ''access_frequency'' \<and> k \<noteq> ''last_accessed'' \<and> k \<noteq> ''updated_at''
         \<longrightarrow> obj_get d' k = obj_get d1 k)" ..
  then have rest:
    "repeat_access c1 i clock = (rs, c')"
    "length rs = length clock"
    "\<forall>j<length clock.
        rs ! j = Inr [(''id'', Str i),
                      (''access_frequency'', Num (Fin (n + 1 + of_nat (Suc j)))),
                      (''last_accessed'', Str (fst (clock ! j)))]"
    "fault c' = None" "find (has_id i) (docs c') = Some d'"
    "obj_get d' ''access_frequency'' = Num (Fin (n + 1 + of_nat (length clock)))"
    "clock \<noteq> [] \<longrightarrow> obj_get d' ''last_accessed'' = Str (fst (last clock))
                     \<and> obj_get d' ''updated_at'' = Str (snd (last clock))"
    "\<forall>k. k \<noteq> ''access_frequency'' \<and> k \<noteq> ''last_accessed'' \<and> k \<noteq> ''updated_at''
         \<longrightarrow> obj_get d' k = obj_get d1 k"
    by simp_all
  let ?r = "Inr [(''id'', Str i), (''access_frequency'', Num (Fin (n + 1))),
                 (''last_accessed'', Str now1)] :: string + jsobj"
  have run: "repeat_access c i (t # clock) = (?r # rs, c')"
    by (simp add: t step(1) rest(1))
  have nth: "\<forall>j<length (t # clock).
      (?r # rs) ! j = Inr [(''id'', Str i),
                           (''access_frequency'', Num (Fin (n + of_nat (Suc j)))),
                           (''last_accessed'', Str (fst ((t # clock) ! j)))]"
  proof (intro allI impI)
    fix j assume "j < length (t # clock)"
    then show "(?r # rs) ! j = Inr [(''id'', Str i),
                           (''access_frequency'', Num (Fin (n + of_nat (Suc j)))),
                           (''last_accessed'', Str (fst ((t # clock) ! j)))]"
      using rest(3) by (cases j) (simp_all add: t add.assoc)
  qed
  have cnt: "obj_get d' ''access_frequency'' = Num (Fin (n + of_nat (length (t # clock))))"
    using rest(6) by (simp add: add.assoc add.commute)
  have stamps: "obj_get d' ''last_accessed'' = Str (fst (last (t # clock)))
              \<and> obj_get d' ''updated_at'' = Str (snd (last (t # clock)))"
  proof (cases "clock = []")
    case True
    with rest(1) have "c' = c1" by simp
    with rest(5) step(3) have "d' = d1" by simp
    with True step(5,6) show ?thesis by (simp add: t)
  next
    case False
    with rest(7) show ?thesis by simp
  qed
  have frame: "\<forall>k. k \<noteq> ''access_frequency'' \<and> k \<noteq> ''last_accessed'' \<and> k \<noteq> ''updated_at''
         \<longrightarrow> obj_get d' k = obj_get d k"
    using rest(8) step(7) by simp
  from run rest(2) nth rest(4,5) cnt stamps frame show ?case
    by (intro exI [of _ "?r # rs"] exI [of _ d'] exI [of _ c']) simp
qed

text \<open>
  C8. Every \<open>recordMemoryAccess\<close> call adds 1 to \<open>access_frequency\<close>, sets
  \<open>last_accessed\<close> and \<open>updated_at\<close> and returns the new counter and time, so \<open>N\<close>
  calls from 0 give \<open>N\<close> and change no other field, and \<open>last_accessed\<close> strictly
  advances with each call. As stated the last part fails: two calls that read the clock
  within the same millisecond return the same \<open>last_accessed\<close>.
\<close>

theorem access_within_one_millisecond:
  "fst (repeat_access sample_collection ''m1''
          [(''2026-01-01T00:00:00.005Z'', ''2026-01-01T00:00:00.005Z''),
           (''2026-01-01T00:00:00.005Z'', ''2026-01-01T00:00:00.005Z'')])
     = [Inr [(''id'', Str ''m1''), (''access_frequency'', Num (Fin 1)),
             (''last_accessed'', Str ''2026-01-01T00:00:00.005Z'')],
        Inr [(''id'', Str ''m1''), (''access_frequency'', Num (Fin 2)),
             (''last_accessed'', Str ''2026-01-01T00:00:00.005Z'')]]"
  by (simp add: recordMemoryAccess_def initialize_def coll_findOneAndUpdate_def apply_update_def
        operator_fields_def apply_set_def rethrow_def has_id_def obj_get_def
        sample_collection_def sample_doc_def)

text \<open>
  C8, amended. On a healthy store holding the record with \<open>access_frequency\<close> 0, the
  \<open>j\<close>-th of \<open>N\<close> calls returns the counter \<open>j\<close> and, as \<open>last_accessed\<close>, the clock
  reading it took; afterwards the record has \<open>access_frequency = N\<close>, the last readings as
  \<open>last_accessed\<close> and \<open>updated_at\<close>, and every other field as before. The returned
  \<open>last_accessed\<close> strictly advance whenever the clock readings do.
\<close>

theorem access_counter_and_stamps:
  assumes "fault c = None" and "find (has_id i) (docs c) = Some d"
    and "obj_get d ''access_frequency'' = Num (Fin 0)"
  shows "\<exists>rs d' c'. repeat_access c i clock = (rs, c')
          \<and> length rs = length clock
          \<and> (\<forall>j<length clock.
                rs ! j = Inr [(''id'', Str i),
                              (''access_frequency'', Num (Fin (of_nat (Suc j)))),
                              (''last_accessed'', Str (fst (clock ! j)))])
          \<and> find (has_id i) (docs c') = Some d'
          \<and> obj_get d' ''access_frequency'' = Num (Fin (of_nat (length clock)))
          \<and> (clock \<noteq> [] \<longrightarrow> obj_get d' ''last_accessed'' = Str (fst (last clock))
                              \<and> obj_get d' ''updated_at'' = Str (snd (last clock)))
          \<and> (\<forall>k. k \<noteq> ''access_frequency'' \<and> k \<noteq> ''last_accessed'' \<and> k \<noteq> ''updated_at''
                 \<longrightarrow> obj_get d' k = obj_get d k)
          \<and> (sorted_wrt (<) (map fst clock) \<longrightarrow>
                (\<forall>j j'. j < j' \<and> j' < length clock \<longrightarrow>
                   (\<exists>t t'. returned_last_accessed (rs ! j) = Str t
                          \<and> returned_last_accessed (rs ! j') = Str t' \<and> t < t')))"
proof -
  from repeat_access_counts [OF assms, of clock]
  obtain rs where "\<exists>d' c'. repeat_access c i clock = (rs, c')
          \<and> length rs = length clock
          \<and> (\<forall>j<length clock.
                rs ! j = Inr [(''id'', Str i),
                              (''access_frequency'', Num (Fin (0 + of_nat (Suc j)))),
                              (''last_accessed'', Str (fst (clock ! j)))])
          \<and> fault c' = None \<and> find (has_id i) (docs c') = Some d'
          \<and> obj_get d' ''access_frequency'' = Num (Fin (0 + of_nat (length clock)))
          \<and> (clock \<noteq> [] \<longrightarrow> obj_get d' ''last_accessed'' = Str (fst (last clock))
                              \<and> obj_get d' ''updated_at'' = Str (snd (last clock)))
          \<and> (\<forall>k. k \<noteq> ''access_frequency'' \<and> k \<noteq> ''last_accessed'' \<and> k \<noteq> ''updated_at''
                 \<longrightarrow> obj_get d' k = obj_get d k)" ..
  then obtain d' where "\<exists>c'. repeat_access c i clock = (rs, c')
          \<and> length rs = length clock
          \<and> (\<forall>j<length clock.
                rs ! j = Inr [(''id'', Str i),
                              (''access_frequency'', Num (Fin (0 + of_nat (Suc j)))),
                              (''last_accessed'', Str (fst (clock ! j)))])
          \<and> fault c' = None \<and> find (has_id i) (docs c') = Some d'
          \<and> obj_get d' ''access_frequency'' = Num (Fin (0 + of_nat (length clock)))
          \<and> (clock \<noteq> [] \<longrightarrow> obj_get d' ''last_accessed'' = Str (fst (last clock))
                              \<and> obj_get d' ''updated_at'' = Str (snd (last clock)))
          \<and> (\<forall>k. k \<noteq> ''access_frequency'' \<and> k \<noteq> ''last_accessed'' \<and> k \<noteq> ''updated_at''
                 \<longrightarrow> obj_get d' k = obj_get d k)" ..
  then obtain c' where all: "repeat_access c i clock = (rs, c')
          \<and> length rs = length clock
          \<and> (\<forall>j<length clock.
                rs ! j = Inr [(''id'', Str i),
                              (''access_frequency'', Num (Fin (0 + of_nat (Suc j)))),
                              (''last_accessed'', Str (fst (clock ! j)))])
          \<and> fault c' = None \<and> find (has_id i) (docs c') = Some d'
          \<and> obj_get d' ''access_frequency'' = Num (Fin (0 + of_nat (length clock)))
          \<and> (clock \<noteq> [] \<longrightarrow> obj_get d' ''last_accessed'' = Str (fst (last clock))
                              \<and> obj_get d' ''updated_at'' = Str (snd (last clock)))
          \<and> (\<forall>k. k \<noteq> ''access_frequency'' \<and> k \<noteq> ''last_accessed'' \<and> k \<noteq> ''updated_at''
                 \<longrightarrow> obj_get d' k = obj_get d k)" ..
  then have nth: "\<forall>j<length clock.
                rs ! j = Inr [(''id'', Str i),
                              (''access_frequency'', Num (Fin (of_nat (Suc j)))),
                              (''last_accessed'', Str (fst (clock ! j)))]"
    by simp
  have advance: "sorted_wrt (<) (map fst clock) \<longrightarrow>
                (\<forall>j j'. j < j' \<and> j' < length clock \<longrightarrow>
                   (\<exists>t t'. returned_last_accessed (rs ! j) = Str t
                          \<and> returned_last_accessed (rs ! j') = Str t' \<and> t < t'))"
  proof (intro impI allI)
    fix j j' assume s: "sorted_wrt (<) (map fst clock)" and jj: "j < j' \<and> j' < length clock"
    then have "map fst clock ! j < map fst clock ! j'"
      by (simp add: sorted_wrt_iff_nth_less)
    with jj have lt: "fst (clock ! j) < fst (clock ! j')" by simp
    from nth jj have "returned_last_accessed (rs ! j) = Str (fst (clock ! j))"
      and "returned_last_accessed (rs ! j') = Str (fst (clock ! j'))"
      by (simp_all add: returned_last_accessed_def obj_get_def)
    with lt show "\<exists>t t'. returned_last_accessed (rs ! j) = Str t
                          \<and> returned_last_accessed (rs ! j') = Str t' \<and> t < t'"
      by (intro exI conjI)
  qed
  from all nth advance show ?thesis
    by (intro exI [of _ rs] exI [of _ d'] exI [of _ c']) simp
qed

theorem access_counter_and_stamps_witness:
  "fault sample_collection = None
   \<and> find (has_id ''m1'') (docs sample_collection) = Some (sample_doc ''m1'' (1 / 2))
   \<and> obj_get (sample_doc ''m1'' (1 / 2)) ''access_frequency'' = Num (Fin 0)
   \<and> sorted_wrt (<) [''2026-01-01T00:00:00.005Z'', ''2026-01-01T00:00:00.009Z'']
   \<and> length (fst (repeat_access sample_collection ''m1''
                    [(''2026-01-01T00:00:00.005Z'', ''2026-01-01T00:00:00.006Z''),
                     (''2026-01-01T00:00:00.009Z'', ''2026-01-01T00:00:00.009Z'')])) = 2"
proof -
  let ?clock = "[(''2026-01-01T00:00:00.005Z'', ''2026-01-01T00:00:00.006Z''),
                 (''2026-01-01T00:00:00.009Z'', ''2026-01-01T00:00:00.009Z'')]"
  have h1: "fault sample_collection = None"
    by (simp add: sample_collection_def)
  have h2: "find (has_id ''m1'') (docs sample_collection) = Some (sample_doc ''m1'' (1 / 2))"
    by (simp add: sample_collection_def sample_doc_def has_id_def obj_get_def)
  have h3: "obj_get (sample_doc ''m1'' (1 / 2)) ''access_frequency'' = Num (Fin 0)"
    by (simp add: sample_doc_def obj_get_def)
  have h4: "sorted_wrt (<) [''2026-01-01T00:00:00.005Z'', ''2026-01-01T00:00:00.009Z'']"
    by simp
  from access_counter_and_stamps [OF h1 h2 h3, of ?clock]
  obtain rs c' where "repeat_access sample_collection ''m1'' ?clock = (rs, c')"
    and "length rs = length ?clock"
    by (elim exE conjE)
  then have "length (fst (repeat_access sample_collection ''m1'' ?clock)) = 2"
    by simp
  with h1 h2 h3 h4 show ?thesis by (intro conjI)
qed

subsection \<open>Statistics\<close>

text \<open>
  C9. The statistics of a healthy store always name the vector dimension 90; on an empty
  collection \<open>total_memories\<close> is 0, the distribution by type is the empty object and the
  four averages are 0.
\<close>

theorem statistics_of_empty:
  assumes "fault c = None"
  shows "\<exists>r. getStatistics e c sevenDaysAgo = Inr r
           \<and> obj_get r ''collection_info''
               = Obj [(''name'', Str ''memory_embeddings''), (''vector_dimensions'', Num (Fin 90))]
           \<and> (docs c = [] \<longrightarrow>
                 obj_get r ''total_memories'' = Num (Fin 0)
               \<and> obj_get r ''memory_type_distribution'' = Obj []
               \<and> obj_get r ''score_statistics''
                   = Obj [(''avg_importance_score'', Num (Fin 0)),
                          (''avg_emotional_significance'', Num (Fin 0)),
                          (''avg_temporal_relevance'', Num (Fin 0)),
                          (''avg_access_frequency'', Num (Fin 0))])"
  using assms
  by (simp add: getStatistics_def initialize_def coll_countDocuments_def coll_aggregate_count_def
        coll_aggregate_avg_def rethrow_def obj_get_def)

theorem statistics_of_empty_witness:
  "fault \<lparr>docs = [], fault = None\<rparr> = None
   \<and> getStatistics sample_engine \<lparr>docs = [], fault = None\<rparr> ''2025-12-25T00:00:00.000Z''
      = Inr [(''total_memories'', Num (Fin 0)),
             (''recent_memories_7_days'', Num (Fin 0)),
             (''memory_type_distribution'', Obj []),
             (''score_statistics'',
                Obj [(''avg_importance_score'', Num (Fin 0)),
                     (''avg_emotional_significance'', Num (Fin 0)),
                     (''avg_temporal_relevance'', Num (Fin 0)),
                     (''avg_access_frequency'', Num (Fin 0))]),
             (''collection_info'',
                Obj [(''name'', Str ''memory_embeddings''), (''vector_dimensions'', Num (Fin 90))])]"
  using statistics_of_empty [of "\<lparr>docs = [], fault = None\<rparr>" sample_engine
          "''2025-12-25T00:00:00.000Z''"]
  by (simp add: getStatistics_def initialize_def coll_countDocuments_def coll_aggregate_count_def
        coll_aggregate_avg_def rethrow_def)

subsection \<open>The shape of returned records\<close>

lemma queryMemoryEmbeddings_results:
  assumes "queryMemoryEmbeddings e c opts = Inr r"
  shows "\<exists>ds. set ds \<subseteq> set (docs c)
             \<and> obj_get r ''results'' = Arr (map (\<lambda>d. Obj (query_record d)) ds)"
proof -
  from assms obtain ds q s skip lmt where "coll_find e c q s skip lmt = Inr ds"
    and "obj_get r ''results'' = Arr (map (\<lambda>d. Obj (query_record d)) ds)"
    by (auto simp: queryMemoryEmbeddings_def rethrow_def Let_def obj_get_def
          split: sum.splits)
  with coll_find_subset show ?thesis by blast
qed

lemma getMemoryEmbeddingById_record:
  assumes "getMemoryEmbeddingById c i = Inr m"
  shows "\<exists>d\<in>set (docs c). has_id i d \<and> m = memory_record d"
proof -
  from assms obtain d where f: "find (has_id i) (docs c) = Some d" and m: "m = memory_record d"
    by (auto simp: getMemoryEmbeddingById_def coll_findOne_def rethrow_def
          split: sum.splits option.splits)
  from find_has_id [OF f] m show ?thesis by blast
qed

text \<open>
  C10. The records of a generic query are the records of get-by-id without the
  \<open>feature_vector\<close> property: no query record has that key, while the record of
  get-by-id and every row of a similarity search carry the stored \<open>$vector\<close> under it.
\<close>

theorem query_omits_feature_vector:
  "(queryMemoryEmbeddings e c opts = Inr r \<longrightarrow>
      (\<exists>ds. set ds \<subseteq> set (docs c)
           \<and> obj_get r ''results'' = Arr (map (\<lambda>d. Obj (query_record d)) ds)))
   \<and> ''feature_vector'' \<notin> fst ` set (query_record d)
   \<and> query_record d = filter (\<lambda>kv. fst kv \<noteq> ''feature_vector'') (memory_record d)
   \<and> (getMemoryEmbeddingById c i = Inr m \<longrightarrow>
        (\<exists>d\<in>set (docs c). has_id i d \<and> m = memory_record d))
   \<and> map_of (memory_record d) ''feature_vector'' = Some (obj_get d ''$vector'')
   \<and> (fault c = None \<and> count_of (case limit_opt of None \<Rightarrow> Fin 10 | Some n \<Rightarrow> n) = Some k
        \<and> filters \<noteq> Null \<and> v \<noteq> Undefined \<and> v \<noteq> Null \<longrightarrow>
        (\<exists>ds r. set ds \<subseteq> set (docs c)
           \<and> findSimilarMemoryEmbeddings e c v limit_opt filters = Inr r
           \<and> obj_get r ''results''
               = Arr (map (\<lambda>d. Obj (similar_record
                          (obj_set d ''$similarity'' (Num (Fin (similarity e v d)))))) ds)))
   \<and> map_of (similar_record (obj_set d ''$similarity'' s)) ''feature_vector''
       = Some (obj_get d ''$vector'')"
proof (intro conjI impI)
  assume "queryMemoryEmbeddings e c opts = Inr r"
  then show "\<exists>ds. set ds \<subseteq> set (docs c)
           \<and> obj_get r ''results'' = Arr (map (\<lambda>d. Obj (query_record d)) ds)"
    by (rule queryMemoryEmbeddings_results)
next
  show "''feature_vector'' \<notin> fst ` set (query_record d)"
    by (simp add: query_record_def)
next
  show "query_record d = filter (\<lambda>kv. fst kv \<noteq> ''feature_vector'') (memory_record d)"
    by (simp add: query_record_def memory_record_def)
next
  assume "getMemoryEmbeddingById c i = Inr m"
  then show "\<exists>d\<in>set (docs c). has_id i d \<and> m = memory_record d"
    by (rule getMemoryEmbeddingById_record)
next
  show "map_of (memory_record d) ''feature_vector'' = Some (obj_get d ''$vector'')"
    by (simp add: memory_record_def)
next
  assume a: "fault c = None \<and> count_of (case limit_opt of None \<Rightarrow> Fin 10 | Some n \<Rightarrow> n) = Some k
        \<and> filters \<noteq> Null \<and> v \<noteq> Undefined \<and> v \<noteq> Null"
  then have f: "fault c = None"
    and l: "count_of (case limit_opt of None \<Rightarrow> Fin 10 | Some n \<Rightarrow> n) = Some k"
    and n: "filters \<noteq> Null" "v \<noteq> Undefined" "v \<noteq> Null"
    by simp_all
  from findSimilarMemoryEmbeddings_rows [OF f l n, of e]
  obtain ds where "set ds \<subseteq> set (docs c)"
    and "findSimilarMemoryEmbeddings e c v limit_opt filters =
               Inr [(''query_vector_dimensions'', js_length v),
                    (''results_count'', Num (Fin (of_nat (length ds)))),
                    (''max_similarity_score'',
                       Num (Fin (if ds = [] then 0 else similarity e v (hd ds)))),
                    (''min_similarity_score'',
                       Num (Fin (if ds = [] then 0 else similarity e v (last ds)))),
                    (''results'',
                       Arr (map (\<lambda>d. Obj (similar_record
                                  (obj_set d ''$similarity'' (Num (Fin (similarity e v d))))))
                              ds))]"
    by (elim exE conjE)
  then show "\<exists>ds r. set ds \<subseteq> set (docs c)
           \<and> findSimilarMemoryEmbeddings e c v limit_opt filters = Inr r
           \<and> obj_get r ''results''
               = Arr (map (\<lambda>d. Obj (similar_record
                          (obj_set d ''$similarity'' (Num (Fin (similarity e v d)))))) ds)"
    by (intro exI [of _ ds]
          exI [of _ "[(''query_vector_dimensions'', js_length v),
                    (''results_count'', Num (Fin (of_nat (length ds)))),
                    (''max_similarity_score'',
                       Num (Fin (if ds = [] then 0 else similarity e v (hd ds)))),
                    (''min_similarity_score'',
                       Num (Fin (if ds = [] then 0 else similarity e v (last ds)))),
                    (''results'',
                       Arr (map (\<lambda>d. Obj (similar_record
                                  (obj_set d ''$similarity'' (Num (Fin (similarity e v d))))))
                              ds))]"])
       (simp add: obj_get_def)
next
  show "map_of (similar_record (obj_set d ''$similarity'' s)) ''feature_vector''
       = Some (obj_get d ''$vector'')"
    by (simp add: similar_record_def obj_get_set)
qed

theorem query_omits_feature_vector_witness:
  "getMemoryEmbeddingById sample_collection ''m2'' = Inr (memory_record (sample_doc ''m2'' (9 / 10)))
   \<and> queryMemoryEmbeddings sample_engine sample_collection no_filters
       = Inr [(''results'',
                 Arr [Obj (query_record (sample_doc ''m1'' (1 / 2))),
                      Obj (query_record (sample_doc ''m2'' (9 / 10))),
                      Obj (query_record (sample_doc ''m3'' (1 / 5)))]),
              (''pagination'',
                 Obj [(''total_count'', Num (Fin 3)),
                      (''current_page'', Num (Fin 1)),
                      (''total_pages'', Num (Fin 1)),
                      (''has_next'', Bool False),
                      (''has_previous'', Bool False)])]
   \<and> fault sample_collection = None \<and> count_of (Fin 10) = Some 10
   \<and> ''feature_vector'' \<notin> fst ` set (query_record (sample_doc ''m2'' (9 / 10)))
   \<and> map_of (memory_record (sample_doc ''m2'' (9 / 10))) ''feature_vector''
       = Some (Arr [Num (Fin (9 / 10))])"
proof -
  have g: "getMemoryEmbeddingById sample_collection ''m2''
             = Inr (memory_record (sample_doc ''m2'' (9 / 10)))"
    by (simp add: getMemoryEmbeddingById_def initialize_def coll_findOne_def rethrow_def
          sample_collection_def sample_doc_def has_id_def obj_get_def)
  have pages: "\<lceil>(3::rat) / 20\<rceil> = 1"
    by (simp add: ceiling_eq_iff)
  have summary: "pagination (Fin 3) (Num (Fin 0)) (Num (Fin 20))
      = [(''total_count'', Num (Fin 3)),
         (''current_page'', Num (Fin 1)),
         (''total_pages'', Num (Fin 1)),
         (''has_next'', Bool False),
         (''has_previous'', Bool False)]"
    using pagination_of_numbers [of 20 0 3] by (simp add: pages)
  have twenty: "count_of (Fin 20) = Some 20" and zero: "count_of (Fin 0) = Some 0"
    and ten: "count_of (Fin 10) = Some 10"
    using count_of_nat [of 20] count_of_nat [of 0] count_of_nat [of 10] by simp_all
  have q: "queryMemoryEmbeddings sample_engine sample_collection no_filters
       = Inr [(''results'',
                 Arr [Obj (query_record (sample_doc ''m1'' (1 / 2))),
                      Obj (query_record (sample_doc ''m2'' (9 / 10))),
                      Obj (query_record (sample_doc ''m3'' (1 / 5)))]),
              (''pagination'',
                 Obj [(''total_count'', Num (Fin 3)),
                      (''current_page'', Num (Fin 1)),
                      (''total_pages'', Num (Fin 1)),
                      (''has_next'', Bool False),
                      (''has_previous'', Bool False)])]"
    by (simp add: queryMemoryEmbeddings_def initialize_def coll_find_def coll_countDocuments_def
          count_read_def skipped_def limited_def twenty zero summary rethrow_def Let_def
          ordered_def sample_collection_def sample_engine_def no_filters_def base_query_def
          assign_if_def)
  have f: "fault sample_collection = None"
    by (simp add: sample_collection_def)
  note shape = query_omits_feature_vector [where e = sample_engine and c = sample_collection
      and opts = no_filters and r = "[]" and d = "sample_doc ''m2'' (9 / 10)" and i = "''m2''"
      and m = "[]" and limit_opt = None and k = 10 and v = "Arr []" and filters = Undefined
      and s = Undefined]
  from shape have k: "''feature_vector'' \<notin> fst ` set (query_record (sample_doc ''m2'' (9 / 10)))"
    by (elim conjE)
  from shape have v: "map_of (memory_record (sample_doc ''m2'' (9 / 10))) ''feature_vector''
          = Some (obj_get (sample_doc ''m2'' (9 / 10)) ''$vector'')"
    by (elim conjE)
  have "obj_get (sample_doc ''m2'' (9 / 10)) ''$vector'' = Arr [Num (Fin (9 / 10))]"
    by (simp add: sample_doc_def obj_get_def)
  with g q f ten k v show ?thesis
    by simp
qed

subsection \<open>What a schema accepts\<close>

lemma violations_key:
  assumes "violations env (JObject (Some ks)) v = []" and "(k, presence, messages, sch) \<in> set ks"
  shows "get_prop v k = Undefined \<and> presence \<noteq> Required
       \<or> get_prop v k \<noteq> Undefined \<and> violations env sch (get_prop v k) = []"
proof -
  from assms(1) obtain kvs where v: "v = Obj kvs"
    by (cases v) simp_all
  define per_key where "per_key = (\<lambda>entry.
      (case entry of (k, presence, messages, sch) \<Rightarrow>
         (if obj_get kvs k = Undefined
          then (if presence = Required
                then [([k], ''any.required'', map_of messages ''any.required'')]
                else [])
          else map (at_key k messages) (violations env sch (obj_get kvs k)))))"
  from assms(1) have "concat (map per_key ks) = []"
    by (simp add: v per_key_def)
  with assms(2) have "per_key (k, presence, messages, sch) = []"
    by auto
  then show ?thesis
    by (simp add: per_key_def v split: if_splits)
qed

lemma snd_zip_upt: "snd ` set (zip [0..<length xs] xs) = set xs"
proof -
  have "map snd (zip [0..<length xs] xs) = xs"
    by (rule map_snd_zip) simp
  from arg_cong [OF this, of set] show ?thesis
    by (simp only: set_map)
qed

lemma item_violations_Nil:
  "concat (map (\<lambda>ix. map (at_key (decimal (fst ix)) []) (violations env item (snd ix)))
             (zip [0..<length xs] xs)) = []
     \<longleftrightarrow> (\<forall>x\<in>set xs. violations env item x = [])"
proof -
  have "concat (map (\<lambda>ix. map (at_key (decimal (fst ix)) []) (violations env item (snd ix)))
             (zip [0..<length xs] xs)) = []
     \<longleftrightarrow> (\<forall>x\<in>snd ` set (zip [0..<length xs] xs). violations env item x = [])"
    by (simp only: concat_eq_Nil_conv set_map ball_simps map_is_Nil_conv image_iff)
  then show ?thesis
    by (simp only: snd_zip_upt)
qed

lemma violations_array:
  "violations env (JArray (Some item) rules) v = [] \<longleftrightarrow>
     (\<exists>xs. v = Arr xs \<and> (\<forall>x\<in>set xs. violations env item x = [])
          \<and> (\<forall>r\<in>set rules. array_rule_violations (length xs) r = []))"
proof (cases v)
  case (Arr xs)
  have "violations env (JArray (Some item) rules) (Arr xs) = [] \<longleftrightarrow>
          concat (map (\<lambda>ix. map (at_key (decimal (fst ix)) []) (violations env item (snd ix)))
             (zip [0..<length xs] xs)) = []
          \<and> concat (map (array_rule_violations (length xs)) rules) = []"
    by (simp only: violations.simps jsval.case option.case append_is_Nil_conv)
  also have "\<dots> \<longleftrightarrow> (\<forall>x\<in>set xs. violations env item x = [])
          \<and> (\<forall>r\<in>set rules. array_rule_violations (length xs) r = [])"
    unfolding item_violations_Nil by simp
  finally show ?thesis
    by (simp only: Arr jsval.inject) blast
qed (simp_all only: violations.simps jsval.case jsval.distinct, simp_all)
lemma violations_string:
  "violations env (JString rules) v = [] \<Longrightarrow> \<exists>s. v = Str s \<and> (listed rules = None \<longrightarrow> s \<noteq> [])"
  by (cases v) (auto simp: Let_def split: if_splits option.splits)

lemma violations_any_object: "violations env (JObject keys) v = [] \<Longrightarrow> \<exists>kvs. v = Obj kvs"
  by (cases v) auto


lemma violations_number: "violations env (JNumber rules) v = [] \<Longrightarrow> v \<noteq> Undefined \<and> v \<noteq> Null"
  by (cases v) auto

lemma validation_errors_defined:
  "body \<noteq> Undefined \<Longrightarrow> validation_errors env sch body = violations env sch body"
  by (simp add: validation_errors_def)

lemma validate_Some:
  "validation_errors env sch body \<noteq> [] \<Longrightarrow>
     \<exists>details. validate env sch body
       = Some (Respond 400 (Obj [(''success'', Bool False), (''error'', Str ''Validation Error''),
                                 (''details'', Str details)]))"
  by (simp add: validate_def)

lemma validate_None: "validate env sch body = None \<longleftrightarrow> validation_errors env sch body = []"
  by (simp add: validate_def Let_def)

lemma create_vector:
  assumes "violations env memoryEmbeddingSchema body = []"
  shows "is_vector90 (get_prop body ''feature_vector'')"
proof -
  from violations_key [OF assms [unfolded memoryEmbeddingSchema_def],
         of "''feature_vector''" Required _ "JArray (Some (JNumber [])) [Length 90]"]
  have "violations env (JArray (Some (JNumber [])) [Length 90]) (get_prop body ''feature_vector'') = []"
    by (simp del: violations.simps)
  then show ?thesis
    unfolding violations_array by (auto simp: is_vector90_def split: if_splits)
qed

lemma update_vector:
  assumes "violations env updateMemoryEmbeddingSchema body = []"
  shows "get_prop body ''feature_vector'' = Undefined \<or> is_vector90 (get_prop body ''feature_vector'')"
proof -
  from violations_key [OF assms [unfolded updateMemoryEmbeddingSchema_def],
         of "''feature_vector''" Optional "[]" "JArray (Some (JNumber [])) [Length 90]"]
  have "get_prop body ''feature_vector'' = Undefined
      \<or> violations env (JArray (Some (JNumber [])) [Length 90]) (get_prop body ''feature_vector'') = []"
    by (auto simp del: violations.simps)
  then show ?thesis
    unfolding violations_array by (auto simp: is_vector90_def split: if_splits)
qed

lemma violations_keys:
  "violations env (JObject (Some ks)) (Obj kvs) =
     concat (map (\<lambda>entry.
                    (case entry of (k, presence, messages, sch) \<Rightarrow>
                       (if obj_get kvs k = Undefined
                        then (if presence = Required
                              then [([k], ''any.required'', map_of messages ''any.required'')]
                              else [])
                        else map (at_key k messages) (violations env sch (obj_get kvs k)))))
               ks)"
  by simp

lemma batch_valid_iff:
  "violations env batchSchema body = [] \<longleftrightarrow> batch_acceptable env body"
proof (cases body)
  case (Obj kvs)
  show ?thesis
  proof (cases "obj_get kvs ''embeddings'' = Undefined")
    case True
    then show ?thesis by (simp add: Obj batchSchema_def batch_acceptable_def)
  next
    case False
    then have "violations env batchSchema body = [] \<longleftrightarrow>
        violations env (JArray (Some memoryEmbeddingSchema) [MinItems 1, MaxItems 50])
          (obj_get kvs ''embeddings'') = []"
      by (simp add: Obj batchSchema_def violations_keys del: violations.simps)
    also have "\<dots> \<longleftrightarrow> batch_acceptable env body"
      unfolding violations_array
      by (cases "obj_get kvs ''embeddings''")
         (auto simp: Obj batch_acceptable_def list_all_iff simp del: violations.simps split: if_splits)
    finally show ?thesis .
  qed
qed (simp_all add: batchSchema_def batch_acceptable_def)

lemma sample_record_valid: "violations sample_joi memoryEmbeddingSchema sample_record = []"
  by (simp add: memoryEmbeddingSchema_def sample_record_def sample_joi_def score_def
        gateScoresSchema_def memory_types_def obj_get_def violations_array listed_def
        del: violations.simps(4))

text \<open>
  \<open>GET /query\<close> does not reach the service with \<open>limit=0\<close>: whatever string Joi
  converts to the number 0 violates \<open>limit\<close>'s minimum.
\<close>

lemma query_limit_zero_rejected:
  assumes "get_prop query ''limit'' = Str s" and "number_of_string env s = Some 0"
  shows "\<exists>details. validateQuery env querySchema query
           = Some (Respond 400 (Obj [(''success'', Bool False),
                                     (''error'', Str ''Query Validation Error''),
                                     (''details'', Str details)]))"
proof -
  have "violations env querySchema query \<noteq> []"
  proof
    assume "violations env querySchema query = []"
    from violations_key [OF this [unfolded querySchema_def],
           of "''limit''" "Default (Num (Fin 20))" "[]" "JNumber [Integer, Minimum 1, Maximum 100]"]
    have "violations env (JNumber [Integer, Minimum 1, Maximum 100]) (get_prop query ''limit'') = []"
      using assms(1) by (simp del: violations.simps)
    with assms show False by simp
  qed
  moreover from assms(1) have "query \<noteq> Undefined" by auto
  ultimately show ?thesis
    by (simp add: validateQuery_def validation_errors_def)
qed

subsection \<open>Rejected requests and stored vectors\<close>

lemma map_of_obj_set: "map_of (obj_set obj k v) = (map_of obj)(k \<mapsto> v)"
  by (induction obj) (auto simp: fun_eq_iff)

lemma keys_obj_set: "fst ` set (obj_set obj k v) = insert k (fst ` set obj)"
proof (induction obj)
  case Nil
  then show ?case by simp
next
  case (Cons kv obj)
  obtain a b where kv: "kv = (a, b)" by (cases kv)
  show ?case
  proof (cases "a = k")
    case True
    then show ?thesis by (simp add: kv)
  next
    case False
    with Cons.IH show ?thesis by (simp add: kv insert_commute)
  qed
qed

lemma distinct_obj_set: "distinct (map fst obj) \<Longrightarrow> distinct (map fst (obj_set obj k v))"
proof (induction obj)
  case Nil
  then show ?case by simp
next
  case (Cons kv obj)
  obtain a b where kv: "kv = (a, b)" by (cases kv)
  from Cons show ?case
    by (auto simp: kv keys_obj_set)
qed

lemma distinct_assign_if:
  "distinct (map fst obj) \<Longrightarrow> distinct (map fst (assign_if b k v obj))"
  by (simp add: assign_if_def distinct_obj_set)

lemma map_of_assign_if:
  "map_of (assign_if b k v obj) = (if b then (map_of obj)(k \<mapsto> v) else map_of obj)"
  by (simp add: assign_if_def map_of_obj_set)

lemma obj_get_apply_set:
  "distinct (map fst kvs) \<Longrightarrow>
     obj_get (apply_set kvs d) k = (case map_of kvs k of None \<Rightarrow> obj_get d k | Some v \<Rightarrow> v)"
proof (induction kvs arbitrary: d)
  case Nil
  then show ?case by (simp add: apply_set_def)
next
  case (Cons kv kvs)
  obtain a b where kv: "kv = (a, b)" by (cases kv)
  from Cons.prems have d: "distinct (map fst kvs)" and a: "a \<notin> fst ` set kvs"
    by (simp_all add: kv)
  from a have none: "map_of kvs a = None"
    by (simp add: map_of_eq_None_iff)
  have "apply_set (kv # kvs) d = apply_set kvs (obj_set d a b)"
    by (simp add: apply_set_def kv)
  with Cons.IH [OF d, of "obj_set d a b"] none show ?case
    by (auto simp: kv obj_get_set split: option.splits)
qed

lemma distinct_updateDoc: "distinct (map fst (updateDoc now body))"
  unfolding updateDoc_def by (intro distinct_assign_if) simp

lemma list_all_replace_first:
  "list_all P xs \<Longrightarrow> P y \<Longrightarrow> list_all P (replace_first Q y xs)"
  by (induction xs) auto

lemma router_post_rejects:
  assumes "validation_errors env memoryEmbeddingSchema body \<noteq> []"
  shows "\<exists>details. router_post env c new_id t1 t2 t3 body
           = (Respond 400 (Obj [(''success'', Bool False), (''error'', Str ''Validation Error''),
                                (''details'', Str details)]), c)"
proof -
  from validate_Some [OF assms] obtain details where
    "validate env memoryEmbeddingSchema body
       = Some (Respond 400 (Obj [(''success'', Bool False), (''error'', Str ''Validation Error''),
                                 (''details'', Str details)]))" ..
  then show ?thesis by (simp add: router_post_def)
qed

lemma router_put_id_rejects:
  assumes "validation_errors env updateMemoryEmbeddingSchema body \<noteq> []"
  shows "\<exists>details. router_put_id env c now i body
           = (Respond 400 (Obj [(''success'', Bool False), (''error'', Str ''Validation Error''),
                                (''details'', Str details)]), c)"
proof -
  from validate_Some [OF assms] obtain details where
    "validate env updateMemoryEmbeddingSchema body
       = Some (Respond 400 (Obj [(''success'', Bool False), (''error'', Str ''Validation Error''),
                                 (''details'', Str details)]))" ..
  then show ?thesis by (simp add: router_put_id_def)
qed

lemma router_post_batch_rejects:
  assumes "validation_errors env batchSchema body \<noteq> []"
  shows "\<exists>details. router_post_batch env c ids clock failing body
           = (Respond 400 (Obj [(''success'', Bool False), (''error'', Str ''Validation Error''),
                                (''details'', Str details)]), c)"
proof -
  from validate_Some [OF assms] obtain details where
    "validate env batchSchema body
       = Some (Respond 400 (Obj [(''success'', Bool False), (''error'', Str ''Validation Error''),
                                 (''details'', Str details)]))" ..
  then show ?thesis by (simp add: router_post_batch_def)
qed

lemma vector90_new_document:
  "vector90 (new_document new_id t1 t2 t3 data) = is_vector90 (get_prop data ''feature_vector'')"
  by (simp add: vector90_def new_document_def obj_get_def)

lemma createMemoryEmbedding_docs:
  "docs (snd (createMemoryEmbedding c new_id t1 t2 t3 data)) = docs c
   \<or> docs (snd (createMemoryEmbedding c new_id t1 t2 t3 data))
       = docs c @ [new_document new_id t1 t2 t3 data]"
  by (auto simp: createMemoryEmbedding_def coll_insertOne_def Let_def
        split: sum.splits option.splits)

lemma router_post_keeps_vectors:
  assumes "list_all vector90 (docs c)"
  shows "list_all vector90 (docs (snd (router_post env c new_id t1 t2 t3 body)))"
proof (cases "validate env memoryEmbeddingSchema body")
  case (Some rejected)
  with assms show ?thesis by (simp add: router_post_def)
next
  case None
  then have ok: "validation_errors env memoryEmbeddingSchema body = []"
    by (simp add: validate_None)
  have docs: "docs (snd (router_post env c new_id t1 t2 t3 body))
                = docs (snd (createMemoryEmbedding c new_id t1 t2 t3 body))"
    using None by (simp add: router_post_def split: prod.splits sum.splits)
  show ?thesis
  proof (cases "body = Undefined")
    case True
    then have "createMemoryEmbedding c new_id t1 t2 t3 body
                 = (rethrow ''Failed to create memory embedding: ''
                      (case initialize c of Inl m \<Rightarrow> Inl m
                       | Inr u \<Rightarrow> Inl (''Cannot read properties of undefined (reading ''
                                        @ [CHR 0x27] @ ''user_id'' @ [CHR 0x27] @ '')'')), c)"
      by (simp add: createMemoryEmbedding_def cannot_read_def rethrow_def split: sum.splits)
    with assms docs show ?thesis by simp
  next
    case False
    with ok have "violations env memoryEmbeddingSchema body = []"
      by (simp add: validation_errors_def)
    then have "is_vector90 (get_prop body ''feature_vector'')"
      by (rule create_vector)
    with assms docs createMemoryEmbedding_docs [of c new_id t1 t2 t3 body] show ?thesis
      by (auto simp: vector90_new_document)
  qed
qed

lemma map_of_updateDoc_vector:
  "map_of (updateDoc now body) ''$vector''
     = (if truthy (get_prop body ''feature_vector'') then Some (get_prop body ''feature_vector'')
        else None)"
  by (simp add: updateDoc_def map_of_assign_if)

lemma updateMemoryEmbedding_docs:
  "docs (snd (updateMemoryEmbedding c now i body)) = docs c
   \<or> (\<exists>d. find (has_id i) (docs c) = Some d
          \<and> docs (snd (updateMemoryEmbedding c now i body))
              = replace_first (has_id i) (apply_set (updateDoc now body) d) (docs c))"
  by (auto simp: updateMemoryEmbedding_def coll_findOneAndUpdate_def apply_update_def
        operator_fields_def obj_get_def split: sum.splits option.splits)

lemma router_put_id_keeps_vectors:
  assumes "list_all vector90 (docs c)"
  shows "list_all vector90 (docs (snd (router_put_id env c now i body)))"
proof (cases "validate env updateMemoryEmbeddingSchema body")
  case (Some rejected)
  with assms show ?thesis by (simp add: router_put_id_def)
next
  case None
  then have ok: "validation_errors env updateMemoryEmbeddingSchema body = []"
    by (simp add: validate_None)
  have docs: "docs (snd (router_put_id env c now i body))
                = docs (snd (updateMemoryEmbedding c now i body))"
    using None by (simp add: router_put_id_def put_id_handler_def split: prod.splits sum.splits)
  from updateMemoryEmbedding_docs [of c now i body] show ?thesis
  proof
    assume "docs (snd (updateMemoryEmbedding c now i body)) = docs c"
    with assms docs show ?thesis by simp
  next
    assume "\<exists>d. find (has_id i) (docs c) = Some d
          \<and> docs (snd (updateMemoryEmbedding c now i body))
              = replace_first (has_id i) (apply_set (updateDoc now body) d) (docs c)"
    then obtain d where d: "find (has_id i) (docs c) = Some d"
      and upd: "docs (snd (updateMemoryEmbedding c now i body))
              = replace_first (has_id i) (apply_set (updateDoc now body) d) (docs c)"
      by blast
    from find_has_id [OF d] assms have old: "vector90 d"
      by (simp add: list_all_iff)
    have new: "vector90 (apply_set (updateDoc now body) d)"
    proof (cases "truthy (get_prop body ''feature_vector'')")
      case True
      then have present: "get_prop body ''feature_vector'' \<noteq> Undefined" "body \<noteq> Undefined"
        by auto
      with ok have "violations env updateMemoryEmbeddingSchema body = []"
        by (simp add: validation_errors_def)
      from update_vector [OF this] present have "is_vector90 (get_prop body ''feature_vector'')"
        by simp
      with True show ?thesis
        by (simp add: vector90_def obj_get_apply_set [OF distinct_updateDoc] map_of_updateDoc_vector)
    next
      case False
      with old show ?thesis
        by (simp add: vector90_def obj_get_apply_set [OF distinct_updateDoc] map_of_updateDoc_vector)
    qed
    from list_all_replace_first [OF assms new] docs upd show ?thesis by simp
  qed
qed

text \<open>
  Whatever writes fail, a batch leaves the store as it was or with some of the new
  documents added to it.
\<close>

lemma insert_each_subset: "set (insert_each failing j present new) \<subseteq> set new"
  by (induction new arbitrary: j present) auto

lemma createMemoryEmbeddingsBatch_docs:
  "docs (snd (createMemoryEmbeddingsBatch c ids clock failing embeddings)) = docs c
   \<or> (\<exists>es written. embeddings = Arr es
          \<and> set written
                \<subseteq> set (map (\<lambda>je. new_document (ids (fst je)) (clock (3 * fst je))
                                     (clock (3 * fst je + 1)) (clock (3 * fst je + 2)) (snd je))
                           (zip [0..<length es] es))
          \<and> docs (snd (createMemoryEmbeddingsBatch c ids clock failing embeddings))
              = docs c @ written)"
proof (cases "fault c = None \<and> (\<exists>es. embeddings = Arr es
        \<and> List.find (\<lambda>embeddingData. cannot_read embeddingData ''user_id'' \<noteq> None) es = None)")
  case True
  then obtain es where f: "fault c = None" and es: "embeddings = Arr es"
    and ok: "List.find (\<lambda>embeddingData. cannot_read embeddingData ''user_id'' \<noteq> None) es = None"
    by blast
  define documents where "documents =
      map (\<lambda>je. new_document (ids (fst je)) (clock (3 * fst je))
                    (clock (3 * fst je + 1)) (clock (3 * fst je + 2)) (snd je))
          (zip [0..<length es] es)"
  have "docs (snd (createMemoryEmbeddingsBatch c ids clock failing embeddings))
          = docs c @ insert_each failing 0 (docs c) documents"
    using f ok
    by (simp add: createMemoryEmbeddingsBatch_def coll_insertMany_def initialize_def Let_def es
          documents_def)
  with es insert_each_subset [of failing 0 "docs c" documents] show ?thesis
    unfolding documents_def by blast
next
  case False
  then have "docs (snd (createMemoryEmbeddingsBatch c ids clock failing embeddings)) = docs c"
    by (auto simp: createMemoryEmbeddingsBatch_def coll_insertMany_def initialize_def Let_def
          split: sum.splits option.splits jsval.splits)
  then show ?thesis ..
qed

lemma router_post_batch_keeps_vectors:
  assumes "list_all vector90 (docs c)"
  shows "list_all vector90 (docs (snd (router_post_batch env c ids clock failing body)))"
proof (cases "validate env batchSchema body")
  case (Some rejected)
  with assms show ?thesis by (simp add: router_post_batch_def)
next
  case None
  then have ok: "validation_errors env batchSchema body = []"
    by (simp add: validate_None)
  show ?thesis
  proof (cases "body = Undefined \<or> body = Null")
    case True
    with None assms show ?thesis by (auto simp: router_post_batch_def)
  next
    case False
    with None have docs: "docs (snd (router_post_batch env c ids clock failing body))
        = docs (snd (createMemoryEmbeddingsBatch c ids clock failing (get_prop body ''embeddings'')))"
      by (simp add: router_post_batch_def split: prod.splits sum.splits)
    from False ok have "batch_acceptable env body"
      by (simp add: validation_errors_def batch_valid_iff)
    then obtain es where es: "get_prop body ''embeddings'' = Arr es"
      and valid: "\<forall>e\<in>set es. violations env memoryEmbeddingSchema e = []"
      by (auto simp: batch_acceptable_def list_all_iff split: jsval.splits)
    have new: "list_all vector90
        (map (\<lambda>je. new_document (ids (fst je)) (clock (3 * fst je))
                       (clock (3 * fst je + 1)) (clock (3 * fst je + 2)) (snd je))
             (zip [0..<length es] es))"
    proof -
      have "vector90 (new_document (ids (fst je)) (clock (3 * fst je))
                       (clock (3 * fst je + 1)) (clock (3 * fst je + 2)) (snd je))"
        if "je \<in> set (zip [0..<length es] es)" for je
      proof -
        from that have "snd je \<in> snd ` set (zip [0..<length es] es)"
          by (rule imageI)
        then have "snd je \<in> set es"
          by (simp only: snd_zip_upt)
        with valid have "violations env memoryEmbeddingSchema (snd je) = []"
          by simp
        from create_vector [OF this] show ?thesis
          by (simp add: vector90_new_document)
      qed
      then show ?thesis
        by (simp add: list_all_iff)
    qed
    from createMemoryEmbeddingsBatch_docs [of c ids clock failing "get_prop body ''embeddings''"]
    show ?thesis
    proof
      assume "docs (snd (createMemoryEmbeddingsBatch c ids clock failing
                (get_prop body ''embeddings''))) = docs c"
      with assms docs show ?thesis by simp
    next
      assume "\<exists>es written. get_prop body ''embeddings'' = Arr es
          \<and> set written
                \<subseteq> set (map (\<lambda>je. new_document (ids (fst je)) (clock (3 * fst je))
                                     (clock (3 * fst je + 1)) (clock (3 * fst je + 2)) (snd je))
                           (zip [0..<length es] es))
          \<and> docs (snd (createMemoryEmbeddingsBatch c ids clock failing
                (get_prop body ''embeddings''))) = docs c @ written"
      then obtain es' written where es': "get_prop body ''embeddings'' = Arr es'"
        and sub: "set written
                \<subseteq> set (map (\<lambda>je. new_document (ids (fst je)) (clock (3 * fst je))
                                     (clock (3 * fst je + 1)) (clock (3 * fst je + 2)) (snd je))
                           (zip [0..<length es'] es'))"
        and after: "docs (snd (createMemoryEmbeddingsBatch c ids clock failing
                (get_prop body ''embeddings''))) = docs c @ written"
        by blast
      from es es' have "es' = es" by simp
      with sub new have "list_all vector90 written"
        unfolding list_all_iff by blast
      with assms docs after show ?thesis by simp
    qed
  qed
qed

text \<open>Deleting a record and recording an access leave every stored vector as it is.\<close>

lemma list_all_remove_first: "list_all P xs \<Longrightarrow> list_all P (remove_first Q xs)"
  by (induction xs) auto

lemma router_delete_id_keeps_vectors:
  assumes "list_all vector90 (docs c)"
  shows "list_all vector90 (docs (snd (router_delete_id c i)))"
proof -
  have "docs (snd (router_delete_id c i)) = docs c
      \<or> docs (snd (router_delete_id c i)) = remove_first (has_id i) (docs c)"
    by (auto simp: router_delete_id_def deleteMemoryEmbedding_def coll_deleteOne_def
          split: sum.splits option.splits prod.splits if_splits)
  with assms list_all_remove_first [OF assms] show ?thesis by auto
qed

lemma access_update_vector:
  assumes "apply_update [(''$inc'', Obj [(''access_frequency'', Num (Fin 1))]),
                         (''$set'', Obj [(''last_accessed'', Str now1), (''updated_at'', Str now2)])] d
             = Inr d'"
  shows "obj_get d' ''$vector'' = obj_get d ''$vector''"
  using assms
  by (auto simp: apply_update_def operator_fields_def obj_get_def [of "[_, _]"] apply_set_def
        obj_get_set split: sum.splits jsval.splits jsnum.splits)

lemma router_post_access_docs:
  "docs (snd (router_post_access c now1 now2 i)) = docs c
   \<or> (\<exists>d d'. find (has_id i) (docs c) = Some d
         \<and> apply_update [(''$inc'', Obj [(''access_frequency'', Num (Fin 1))]),
                         (''$set'', Obj [(''last_accessed'', Str now1),
                                         (''updated_at'', Str now2)])] d = Inr d'
         \<and> docs (snd (router_post_access c now1 now2 i)) = replace_first (has_id i) d' (docs c))"
  by (auto simp: router_post_access_def recordMemoryAccess_def coll_findOneAndUpdate_def
        initialize_def split: sum.splits option.splits prod.splits)

lemma router_post_access_keeps_vectors:
  assumes "list_all vector90 (docs c)"
  shows "list_all vector90 (docs (snd (router_post_access c now1 now2 i)))"
  using router_post_access_docs [of c now1 now2 i]
proof
  assume "docs (snd (router_post_access c now1 now2 i)) = docs c"
  with assms show ?thesis by simp
next
  assume "\<exists>d d'. find (has_id i) (docs c) = Some d
         \<and> apply_update [(''$inc'', Obj [(''access_frequency'', Num (Fin 1))]),
                         (''$set'', Obj [(''last_accessed'', Str now1),
                                         (''updated_at'', Str now2)])] d = Inr d'
         \<and> docs (snd (router_post_access c now1 now2 i)) = replace_first (has_id i) d' (docs c)"
  then obtain d d' where d: "find (has_id i) (docs c) = Some d"
    and upd: "apply_update [(''$inc'', Obj [(''access_frequency'', Num (Fin 1))]),
                         (''$set'', Obj [(''last_accessed'', Str now1),
                                         (''updated_at'', Str now2)])] d = Inr d'"
    and ds: "docs (snd (router_post_access c now1 now2 i)) = replace_first (has_id i) d' (docs c)"
    by (elim exE conjE)
  from find_has_id [OF d] assms have "vector90 d"
    by (simp add: list_all_iff)
  with access_update_vector [OF upd] have "vector90 d'"
    by (simp add: vector90_def)
  from list_all_replace_first [OF assms this] ds show ?thesis by simp
qed

text \<open>
  A batch of two valid records whose second write fails: the first record is stored and
  stays stored.
\<close>

lemma router_post_batch_docs:
  assumes "validate env batchSchema body = None" and "body \<noteq> Undefined" and "body \<noteq> Null"
  shows "docs (snd (router_post_batch env c ids clock failing body))
           = docs (snd (createMemoryEmbeddingsBatch c ids clock failing
                          (get_prop body ''embeddings'')))"
  using assms by (simp add: router_post_batch_def split: prod.splits sum.splits)

lemma createMemoryEmbeddingsBatch_written:
  assumes "fault c = None" and "\<forall>e\<in>set es. e \<noteq> Undefined \<and> e \<noteq> Null"
  shows "docs (snd (createMemoryEmbeddingsBatch c ids clock failing (Arr es)))
           = docs c @ insert_each failing 0 (docs c)
                        (map (\<lambda>je. new_document (ids (fst je)) (clock (3 * fst je))
                                      (clock (3 * fst je + 1)) (clock (3 * fst je + 2)) (snd je))
                             (zip [0..<length es] es))"
proof -
  from assms(2)
  have "List.find (\<lambda>embeddingData. cannot_read embeddingData ''user_id'' \<noteq> None) es = None"
    by (auto simp: find_None_iff cannot_read_def split: jsval.splits)
  with assms(1) show ?thesis
    by (simp add: createMemoryEmbeddingsBatch_def coll_insertMany_def initialize_def Let_def)
qed

lemma two_records_valid:
  "validate sample_joi batchSchema (Obj [(''embeddings'', Arr [sample_record, sample_record])]) = None"
proof -
  have "batch_acceptable sample_joi (Obj [(''embeddings'', Arr [sample_record, sample_record])])"
    by (simp add: batch_acceptable_def obj_get_def sample_record_valid del: violations.simps)
  then have "violations sample_joi batchSchema
               (Obj [(''embeddings'', Arr [sample_record, sample_record])]) = []"
    by (simp add: batch_valid_iff)
  then show ?thesis
    by (simp add: validate_None validation_errors_def)
qed

lemma partial_batch_stays:
  "docs (snd (router_post_batch sample_joi \<lparr>docs = [], fault = None\<rparr> sample_ids sample_clock
                second_fails (Obj [(''embeddings'', Arr [sample_record, sample_record])])))
     = [new_document ''n0'' ''2026-01-01T00:00:00.000Z'' ''2026-01-01T00:00:00.000Z''
          ''2026-01-01T00:00:00.000Z'' sample_record]"
proof -
  have r: "sample_record \<noteq> Undefined \<and> sample_record \<noteq> Null"
    by (simp add: sample_record_def)
  have "[0..<length [sample_record, sample_record]] = [0, 1]"
    by (simp add: upt_rec)
  with createMemoryEmbeddingsBatch_written [of "\<lparr>docs = [], fault = None\<rparr>"
      "[sample_record, sample_record]" sample_ids sample_clock second_fails] r
  have "docs (snd (createMemoryEmbeddingsBatch \<lparr>docs = [], fault = None\<rparr> sample_ids sample_clock
                second_fails (Arr [sample_record, sample_record])))
     = [new_document ''n0'' ''2026-01-01T00:00:00.000Z'' ''2026-01-01T00:00:00.000Z''
          ''2026-01-01T00:00:00.000Z'' sample_record]"
    by (simp add: sample_ids_def sample_clock_def digit_char_def second_fails_def)
  with router_post_batch_docs [OF two_records_valid, of "\<lparr>docs = [], fault = None\<rparr>"
      sample_ids sample_clock second_fails]
  show ?thesis
    by (simp add: obj_get_def)
qed

text \<open>
  C6. A create, update or batch-create request whose \<open>feature_vector\<close> is not an array
  of exactly 90 elements is answered 400 with a validation error and leaves the store as it
  was; so if every stored document has a vector of 90 elements before one of the routes
  that write to the store runs (create, update, batch-create with whichever of its writes
  failing, delete, record access), every stored document has one after it.
\<close>

theorem feature_vector_length_enforced:
  "(body \<noteq> Undefined \<and> \<not> is_vector90 (get_prop body ''feature_vector'') \<longrightarrow>
      (\<exists>details. router_post env c new_id t1 t2 t3 body
         = (Respond 400 (Obj [(''success'', Bool False), (''error'', Str ''Validation Error''),
                              (''details'', Str details)]), c)))
   \<and> (get_prop body ''feature_vector'' \<noteq> Undefined
        \<and> \<not> is_vector90 (get_prop body ''feature_vector'') \<longrightarrow>
      (\<exists>details. router_put_id env c now i body
         = (Respond 400 (Obj [(''success'', Bool False), (''error'', Str ''Validation Error''),
                              (''details'', Str details)]), c)))
   \<and> (get_prop body ''embeddings'' = Arr es \<and> e \<in> set es
        \<and> \<not> is_vector90 (get_prop e ''feature_vector'') \<longrightarrow>
      (\<exists>details. router_post_batch env c ids clock failing body
         = (Respond 400 (Obj [(''success'', Bool False), (''error'', Str ''Validation Error''),
                              (''details'', Str details)]), c)))
   \<and> (list_all vector90 (docs c) \<longrightarrow>
        list_all vector90 (docs (snd (router_post env c new_id t1 t2 t3 body)))
      \<and> list_all vector90 (docs (snd (router_put_id env c now i body)))
      \<and> list_all vector90 (docs (snd (router_post_batch env c ids clock failing body)))
      \<and> list_all vector90 (docs (snd (router_delete_id c i)))
      \<and> list_all vector90 (docs (snd (router_post_access c now now i))))"
proof (intro conjI impI)
  assume a: "body \<noteq> Undefined \<and> \<not> is_vector90 (get_prop body ''feature_vector'')"
  then have "violations env memoryEmbeddingSchema body \<noteq> []"
    using create_vector by blast
  with a have "validation_errors env memoryEmbeddingSchema body \<noteq> []"
    by (simp add: validation_errors_def)
  then show "\<exists>details. router_post env c new_id t1 t2 t3 body
         = (Respond 400 (Obj [(''success'', Bool False), (''error'', Str ''Validation Error''),
                              (''details'', Str details)]), c)"
    by (rule router_post_rejects)
next
  assume a: "get_prop body ''feature_vector'' \<noteq> Undefined
        \<and> \<not> is_vector90 (get_prop body ''feature_vector'')"
  then have defined: "body \<noteq> Undefined" by auto
  from a have "violations env updateMemoryEmbeddingSchema body \<noteq> []"
    using update_vector by blast
  with defined have "validation_errors env updateMemoryEmbeddingSchema body \<noteq> []"
    by (simp add: validation_errors_def)
  then show "\<exists>details. router_put_id env c now i body
         = (Respond 400 (Obj [(''success'', Bool False), (''error'', Str ''Validation Error''),
                              (''details'', Str details)]), c)"
    by (rule router_put_id_rejects)
next
  assume a: "get_prop body ''embeddings'' = Arr es \<and> e \<in> set es
        \<and> \<not> is_vector90 (get_prop e ''feature_vector'')"
  then have defined: "body \<noteq> Undefined" by auto
  from a have "violations env memoryEmbeddingSchema e \<noteq> []"
    using create_vector by blast
  with a have "\<not> batch_acceptable env body"
    by (auto simp: batch_acceptable_def list_all_iff)
  with defined have "validation_errors env batchSchema body \<noteq> []"
    by (simp add: validation_errors_def batch_valid_iff)
  then show "\<exists>details. router_post_batch env c ids clock failing body
         = (Respond 400 (Obj [(''success'', Bool False), (''error'', Str ''Validation Error''),
                              (''details'', Str details)]), c)"
    by (rule router_post_batch_rejects)
next
  assume "list_all vector90 (docs c)"
  then show "list_all vector90 (docs (snd (router_post env c new_id t1 t2 t3 body)))"
    by (rule router_post_keeps_vectors)
next
  assume "list_all vector90 (docs c)"
  then show "list_all vector90 (docs (snd (router_put_id env c now i body)))"
    by (rule router_put_id_keeps_vectors)
next
  assume "list_all vector90 (docs c)"
  then show "list_all vector90 (docs (snd (router_post_batch env c ids clock failing body)))"
    by (rule router_post_batch_keeps_vectors)
next
  assume "list_all vector90 (docs c)"
  then show "list_all vector90 (docs (snd (router_delete_id c i)))"
    by (rule router_delete_id_keeps_vectors)
next
  assume "list_all vector90 (docs c)"
  then show "list_all vector90 (docs (snd (router_post_access c now now i)))"
    by (rule router_post_access_keeps_vectors)
qed

theorem feature_vector_length_enforced_witness:
  "Obj [(''feature_vector'', Arr [Num (Fin 1)])] \<noteq> Undefined
   \<and> \<not> is_vector90 (get_prop (Obj [(''feature_vector'', Arr [Num (Fin 1)])]) ''feature_vector'')
   \<and> snd (router_post sample_joi sample_collection ''m9'' ''2026-01-01T00:00:00.000Z''
             ''2026-01-01T00:00:00.000Z'' ''2026-01-01T00:00:00.000Z''
             (Obj [(''feature_vector'', Arr [Num (Fin 1)])])) = sample_collection
   \<and> snd (router_put_id sample_joi sample_collection ''2026-01-01T00:00:00.000Z'' ''m1''
             (Obj [(''feature_vector'', Arr [Num (Fin 1)])])) = sample_collection
   \<and> snd (router_post_batch sample_joi sample_collection sample_ids sample_clock no_failure
             (Obj [(''embeddings'', Arr [Obj [(''feature_vector'', Arr [Num (Fin 1)])]])]))
       = sample_collection
   \<and> list_all vector90 (docs \<lparr>docs = [], fault = None\<rparr>)
   \<and> list_all vector90
         (docs (snd (router_post sample_joi \<lparr>docs = [], fault = None\<rparr> ''m9''
                       ''2026-01-01T00:00:00.000Z'' ''2026-01-01T00:00:00.000Z''
                       ''2026-01-01T00:00:00.000Z'' sample_record)))
   \<and> list_all vector90
         (docs (snd (router_post_batch sample_joi \<lparr>docs = [], fault = None\<rparr> sample_ids
                       sample_clock second_fails
                       (Obj [(''embeddings'', Arr [sample_record, sample_record])]))))"
proof -
  let ?short = "Obj [(''feature_vector'', Arr [Num (Fin 1)])]"
  let ?t = "''2026-01-01T00:00:00.000Z''"
  have h1: "?short \<noteq> Undefined \<and> \<not> is_vector90 (get_prop ?short ''feature_vector'')"
    by (simp add: is_vector90_def obj_get_def)
  have h2: "get_prop ?short ''feature_vector'' \<noteq> Undefined
              \<and> \<not> is_vector90 (get_prop ?short ''feature_vector'')"
    by (simp add: is_vector90_def obj_get_def)
  have h3: "get_prop (Obj [(''embeddings'', Arr [?short])]) ''embeddings'' = Arr [?short]
              \<and> ?short \<in> set [?short] \<and> \<not> is_vector90 (get_prop ?short ''feature_vector'')"
    by (simp add: is_vector90_def obj_get_def)
  have h4: "list_all vector90 (docs \<lparr>docs = [], fault = None\<rparr>)"
    by simp
  note single = feature_vector_length_enforced [where body = ?short and env = sample_joi
      and c = sample_collection and new_id = "''m9''" and ?t1.0 = ?t and ?t2.0 = ?t and ?t3.0 = ?t
      and now = ?t and i = "''m1''" and es = "[]" and e = Undefined and ids = sample_ids
      and clock = sample_clock and failing = no_failure]
  note batch = feature_vector_length_enforced [where body = "Obj [(''embeddings'', Arr [?short])]"
      and env = sample_joi and c = sample_collection and new_id = "''m9''" and ?t1.0 = ?t
      and ?t2.0 = ?t and ?t3.0 = ?t and now = ?t and i = "''m1''" and es = "[?short]"
      and e = ?short and ids = sample_ids and clock = sample_clock and failing = no_failure]
  note kept = feature_vector_length_enforced [where body = sample_record and env = sample_joi
      and c = "\<lparr>docs = [], fault = None\<rparr>" and new_id = "''m9''" and ?t1.0 = ?t
      and ?t2.0 = ?t and ?t3.0 = ?t and now = ?t and i = "''m1''" and es = "[]"
      and e = Undefined and ids = sample_ids and clock = sample_clock and failing = no_failure]
  from single [THEN conjunct1, THEN mp, OF h1]
  have r1: "snd (router_post sample_joi sample_collection ''m9'' ?t ?t ?t ?short)
                   = sample_collection"
    by (elim exE) (simp only: snd_conv)
  from single [THEN conjunct2, THEN conjunct1, THEN mp, OF h2]
  have r2: "snd (router_put_id sample_joi sample_collection ?t ''m1'' ?short)
                   = sample_collection"
    by (elim exE) (simp only: snd_conv)
  from batch [THEN conjunct2, THEN conjunct2, THEN conjunct1, THEN mp, OF h3]
  have r3: "snd (router_post_batch sample_joi sample_collection sample_ids sample_clock no_failure
                   (Obj [(''embeddings'', Arr [?short])])) = sample_collection"
    by (elim exE) (simp only: snd_conv)
  from kept [THEN conjunct2, THEN conjunct2, THEN conjunct2, THEN mp, OF h4, THEN conjunct1]
  have r4: "list_all vector90
         (docs (snd (router_post sample_joi \<lparr>docs = [], fault = None\<rparr> ''m9'' ?t ?t ?t
                       sample_record)))" .
  note partial = feature_vector_length_enforced
      [where body = "Obj [(''embeddings'', Arr [sample_record, sample_record])]"
      and env = sample_joi and c = "\<lparr>docs = [], fault = None\<rparr>" and new_id = "''m9''"
      and ?t1.0 = ?t and ?t2.0 = ?t and ?t3.0 = ?t and now = ?t and i = "''m1''" and es = "[]"
      and e = Undefined and ids = sample_ids and clock = sample_clock
      and failing = second_fails]
  from partial [THEN conjunct2, THEN conjunct2, THEN conjunct2, THEN mp, OF h4,
      THEN conjunct2, THEN conjunct2, THEN conjunct1]
  have r5: "list_all vector90
         (docs (snd (router_post_batch sample_joi \<lparr>docs = [], fault = None\<rparr> sample_ids
                       sample_clock second_fails
                       (Obj [(''embeddings'', Arr [sample_record, sample_record])]))))" .
  from h1 r1 r2 r3 h4 r4 r5 show ?thesis
    by (intro conjI) (simp_all only: simp_thms)
qed

subsection \<open>Batches\<close>

text \<open>
  C7. A batch is accepted by the validator exactly when \<open>embeddings\<close> is a list of 1 to
  50 records each of which passes the create validation; any other batch is answered 400
  and nothing is inserted.
\<close>

theorem batch_all_or_nothing:
  "(body \<noteq> Undefined \<and> \<not> batch_acceptable env body \<longrightarrow>
      (\<exists>details. router_post_batch env c ids clock failing body
         = (Respond 400 (Obj [(''success'', Bool False), (''error'', Str ''Validation Error''),
                              (''details'', Str details)]), c)))
   \<and> (batch_acceptable env body \<longrightarrow> validate env batchSchema body = None)
   \<and> (batch_acceptable env body \<longleftrightarrow>
        (\<exists>es. get_prop body ''embeddings'' = Arr es \<and> es \<noteq> [] \<and> length es \<le> 50
            \<and> (\<forall>e\<in>set es. e \<noteq> Undefined \<and> validate env memoryEmbeddingSchema e = None)))"
proof (intro conjI impI)
  assume "body \<noteq> Undefined \<and> \<not> batch_acceptable env body"
  then have "validation_errors env batchSchema body \<noteq> []"
    by (simp add: validation_errors_def batch_valid_iff)
  then show "\<exists>details. router_post_batch env c ids clock failing body
         = (Respond 400 (Obj [(''success'', Bool False), (''error'', Str ''Validation Error''),
                              (''details'', Str details)]), c)"
    by (rule router_post_batch_rejects)
next
  assume "batch_acceptable env body"
  then have "violations env batchSchema body = []"
    by (simp add: batch_valid_iff)
  then show "validate env batchSchema body = None"
    by (simp add: validate_None validation_errors_def)
next
  have item: "(e \<noteq> Undefined \<and> validate env memoryEmbeddingSchema e = None)
                \<longleftrightarrow> violations env memoryEmbeddingSchema e = []" for e
  proof (cases "e = Undefined")
    case True
    then show ?thesis by (simp add: memoryEmbeddingSchema_def)
  next
    case False
    then show ?thesis by (simp add: validate_None validation_errors_def)
  qed
  show "batch_acceptable env body \<longleftrightarrow>
        (\<exists>es. get_prop body ''embeddings'' = Arr es \<and> es \<noteq> [] \<and> length es \<le> 50
            \<and> (\<forall>e\<in>set es. e \<noteq> Undefined \<and> validate env memoryEmbeddingSchema e = None))"
    unfolding item
    by (cases "get_prop body ''embeddings''")
       (auto simp: batch_acceptable_def list_all_iff Suc_le_eq simp del: violations.simps)
qed

theorem batch_all_or_nothing_witness:
  "Obj [(''embeddings'', Arr [])] \<noteq> Undefined
   \<and> \<not> batch_acceptable sample_joi (Obj [(''embeddings'', Arr [])])
   \<and> \<not> batch_acceptable sample_joi (Obj [(''embeddings'', Arr (replicate 51 sample_record))])
   \<and> snd (router_post_batch sample_joi sample_collection sample_ids sample_clock no_failure
             (Obj [(''embeddings'', Arr (replicate 51 sample_record))])) = sample_collection
   \<and> batch_acceptable sample_joi (Obj [(''embeddings'', Arr [sample_record])])
   \<and> validate sample_joi batchSchema (Obj [(''embeddings'', Arr [sample_record])]) = None"
proof -
  let ?many = "Obj [(''embeddings'', Arr (replicate 51 sample_record))]"
  let ?one = "Obj [(''embeddings'', Arr [sample_record])]"
  have none: "\<not> batch_acceptable sample_joi (Obj [(''embeddings'', Arr [])])"
    by (simp add: batch_acceptable_def obj_get_def)
  have many: "?many \<noteq> Undefined \<and> \<not> batch_acceptable sample_joi ?many"
    by (simp add: batch_acceptable_def obj_get_def)
  have one: "batch_acceptable sample_joi ?one"
    by (simp add: batch_acceptable_def obj_get_def sample_record_valid del: violations.simps)
  from batch_all_or_nothing [of ?many sample_joi sample_collection sample_ids sample_clock no_failure,
         THEN conjunct1, THEN mp, OF many]
  have rejected: "snd (router_post_batch sample_joi sample_collection sample_ids
                              sample_clock no_failure ?many) = sample_collection"
    by (elim exE) (simp only: snd_conv)
  from batch_all_or_nothing [of ?one sample_joi sample_collection sample_ids sample_clock no_failure,
         THEN conjunct2, THEN conjunct1, THEN mp, OF one]
  have passed: "validate sample_joi batchSchema ?one = None" .
  from none many rejected one passed show ?thesis
    by (intro conjI) (simp_all only: simp_thms jsval.distinct not_False_eq_True)
qed

subsection \<open>Updates\<close>

lemma array_truthy:
  "get_prop body k = Undefined \<and> p \<noteq> Required
     \<or> get_prop body k \<noteq> Undefined \<and> violations env (JArray (Some item) rules) (get_prop body k) = []
   \<Longrightarrow> truthy (get_prop body k) \<longleftrightarrow> get_prop body k \<noteq> Undefined"
  unfolding violations_array by (cases "get_prop body k") simp_all

lemma object_truthy:
  "get_prop body k = Undefined \<and> p \<noteq> Required
     \<or> get_prop body k \<noteq> Undefined \<and> violations env (JObject keys) (get_prop body k) = []
   \<Longrightarrow> truthy (get_prop body k) \<longleftrightarrow> get_prop body k \<noteq> Undefined"
  by (cases "get_prop body k") simp_all

lemma string_truthy:
  assumes "get_prop body k = Undefined \<and> p \<noteq> Required
     \<or> get_prop body k \<noteq> Undefined \<and> violations env (JString rules) (get_prop body k) = []"
    and "listed rules = None"
  shows "truthy (get_prop body k) \<longleftrightarrow> get_prop body k \<noteq> Undefined"
  using assms by (cases "get_prop body k") (simp_all split: if_splits)

lemma valid_update_truthy:
  assumes "violations env updateMemoryEmbeddingSchema body = []"
  shows "truthy (get_prop body ''feature_vector'') \<longleftrightarrow> get_prop body ''feature_vector'' \<noteq> Undefined"
    and "truthy (get_prop body ''content_summary'') \<longleftrightarrow> get_prop body ''content_summary'' \<noteq> Undefined"
    and "truthy (get_prop body ''gate_scores'') \<longleftrightarrow> get_prop body ''gate_scores'' \<noteq> Undefined"
    and "truthy (get_prop body ''relationships'') \<longleftrightarrow> get_prop body ''relationships'' \<noteq> Undefined"
    and "truthy (get_prop body ''context_needed'') \<longleftrightarrow> get_prop body ''context_needed'' \<noteq> Undefined"
    and "truthy (get_prop body ''retrieval_triggers'') \<longleftrightarrow> get_prop body ''retrieval_triggers'' \<noteq> Undefined"
proof -
  note key = violations_key [OF assms [unfolded updateMemoryEmbeddingSchema_def]]
  let ?keys = "[(''content_summary'', Optional, [], JString [MinLength 1, MaxLength 5000]),
        (''importance_score'', Optional, [], score),
        (''emotional_significance'', Optional, [], score),
        (''temporal_relevance'', Optional, [], score),
        (''access_frequency'', Optional, [], JNumber [Integer, Minimum 0]),
        (''feature_vector'', Optional, [], JArray (Some (JNumber [])) [Length 90]),
        (''gate_scores'', Optional, [], gateScoresSchema),
        (''relationships'', Optional, [], JArray (Some (JString [Uuid])) []),
        (''context_needed'', Optional, [], JObject None),
        (''retrieval_triggers'', Optional, [], JArray (Some (JString [])) [])]"
  have "(''feature_vector'', Optional, [], JArray (Some (JNumber [])) [Length 90]) \<in> set ?keys"
    by simp
  from array_truthy [OF key [OF this]]
  show "truthy (get_prop body ''feature_vector'') \<longleftrightarrow> get_prop body ''feature_vector'' \<noteq> Undefined" .
  have "(''content_summary'', Optional, [], JString [MinLength 1, MaxLength 5000]) \<in> set ?keys"
    by simp
  from string_truthy [OF key [OF this]]
  show "truthy (get_prop body ''content_summary'') \<longleftrightarrow> get_prop body ''content_summary'' \<noteq> Undefined"
    by (simp add: listed_def)
  have "(''gate_scores'', Optional, [], gateScoresSchema) \<in> set ?keys"
    by simp
  from object_truthy [OF key [OF this, unfolded gateScoresSchema_def]]
  show "truthy (get_prop body ''gate_scores'') \<longleftrightarrow> get_prop body ''gate_scores'' \<noteq> Undefined" .
  have "(''relationships'', Optional, [], JArray (Some (JString [Uuid])) []) \<in> set ?keys"
    by simp
  from array_truthy [OF key [OF this]]
  show "truthy (get_prop body ''relationships'') \<longleftrightarrow> get_prop body ''relationships'' \<noteq> Undefined" .
  have "(''context_needed'', Optional, [], JObject None) \<in> set ?keys"
    by simp
  from object_truthy [OF key [OF this]]
  show "truthy (get_prop body ''context_needed'') \<longleftrightarrow> get_prop body ''context_needed'' \<noteq> Undefined" .
  have "(''retrieval_triggers'', Optional, [], JArray (Some (JString [])) []) \<in> set ?keys"
    by simp
  from array_truthy [OF key [OF this]]
  show "truthy (get_prop body ''retrieval_triggers'') \<longleftrightarrow> get_prop body ''retrieval_triggers'' \<noteq> Undefined" .
qed

lemma map_of_assign_if_apply:
  "map_of (assign_if b k' v obj) k = (if k = k' \<and> b then Some v else map_of obj k)"
  by (simp add: assign_if_def map_of_obj_set)

lemma updateDoc_by_presence:
  assumes "violations env updateMemoryEmbeddingSchema body = []"
  shows "map_of (updateDoc now body) = change_set_by_presence now body"
proof
  fix k
  note rewrite = updateDoc_def map_of_assign_if_apply valid_update_truthy [OF assms]
    change_set_by_presence_def supplied_def update_fields_def
  consider "k = ''updated_at''" | "k = ''$vector''" | "k = ''content_summary''"
    | "k = ''importance_score''" | "k = ''emotional_significance''"
    | "k = ''temporal_relevance''" | "k = ''access_frequency''" | "k = ''gate_scores''"
    | "k = ''relationships''" | "k = ''context_needed''" | "k = ''retrieval_triggers''"
    | "k \<noteq> ''updated_at'' \<and> k \<noteq> ''$vector'' \<and> k \<noteq> ''content_summary''
       \<and> k \<noteq> ''importance_score'' \<and> k \<noteq> ''emotional_significance''
       \<and> k \<noteq> ''temporal_relevance'' \<and> k \<noteq> ''access_frequency'' \<and> k \<noteq> ''gate_scores''
       \<and> k \<noteq> ''relationships'' \<and> k \<noteq> ''context_needed'' \<and> k \<noteq> ''retrieval_triggers''"
    by blast
  then show "map_of (updateDoc now body) k = change_set_by_presence now body k"
  proof cases
    case 1 then show ?thesis by (simp add: rewrite)
  next
    case 2 then show ?thesis by (simp add: rewrite)
  next
    case 3 then show ?thesis by (simp add: rewrite)
  next
    case 4 then show ?thesis by (simp add: rewrite)
  next
    case 5 then show ?thesis by (simp add: rewrite)
  next
    case 6 then show ?thesis by (simp add: rewrite)
  next
    case 7 then show ?thesis by (simp add: rewrite)
  next
    case 8 then show ?thesis by (simp add: rewrite)
  next
    case 9 then show ?thesis by (simp add: rewrite)
  next
    case 10 then show ?thesis by (simp add: rewrite)
  next
    case 11 then show ?thesis by (simp add: rewrite)
  next
    case 12 then show ?thesis by (simp add: rewrite)
  qed
qed

lemma empty_update_valid: "validate env updateMemoryEmbeddingSchema (Obj []) = None"
  by (simp add: validate_def validation_errors_def updateMemoryEmbeddingSchema_def obj_get_def)

lemma violations_object_receiver:
  "violations env (JObject keys) body = [] \<Longrightarrow> cannot_read body k = None \<and> body \<noteq> Undefined"
  by (cases body) (simp_all add: cannot_read_def)

lemma updateMemoryEmbedding_applies:
  assumes "cannot_read body ''feature_vector'' = None"
    and "fault c = None" and "find (has_id i) (docs c) = Some d"
  shows "updateMemoryEmbedding c now i body
           = (Inr (memory_record (apply_set (updateDoc now body) d)),
              c\<lparr>docs := replace_first (has_id i) (apply_set (updateDoc now body) d) (docs c)\<rparr>)"
  using assms
  by (simp add: updateMemoryEmbedding_def initialize_def coll_findOneAndUpdate_def
        apply_update_def operator_fields_def obj_get_def rethrow_def)

lemma router_put_id_applies:
  assumes "violations env updateMemoryEmbeddingSchema body = []"
    and "fault c = None" and "find (has_id i) (docs c) = Some d"
  shows "router_put_id env c now i body
           = (Respond 200
                (Obj [(''success'', Bool True),
                      (''data'', Obj (memory_record (apply_set (updateDoc now body) d))),
                      (''message'', Str ''Memory embedding updated successfully'')]),
              c\<lparr>docs := replace_first (has_id i) (apply_set (updateDoc now body) d) (docs c)\<rparr>)"
proof -
  from violations_object_receiver [OF assms(1) [unfolded updateMemoryEmbeddingSchema_def]]
  have readable: "cannot_read body ''feature_vector'' = None" and defined: "body \<noteq> Undefined"
    by simp_all
  from defined assms(1) have "validate env updateMemoryEmbeddingSchema body = None"
    by (simp add: validate_None validation_errors_def)
  with updateMemoryEmbedding_applies [OF readable assms(2,3), of now] show ?thesis
    by (simp add: router_put_id_def put_id_handler_def)
qed

lemma updated_document:
  assumes "violations env updateMemoryEmbeddingSchema body = []"
  shows "obj_get (apply_set (updateDoc now body) d) k
           = (case change_set_by_presence now body k of Some v \<Rightarrow> v | None \<Rightarrow> obj_get d k)"
  by (simp add: obj_get_apply_set [OF distinct_updateDoc] updateDoc_by_presence [OF assms]
        split: option.splits)

lemma memory_record_field:
  "obj_get (memory_record d) f =
     (if f = ''id'' then obj_get d ''_id''
      else if f = ''feature_vector'' then obj_get d ''$vector''
      else if f \<in> set [''user_id'', ''memory_type'', ''content_summary'', ''original_entry_id'',
                        ''importance_score'', ''emotional_significance'', ''temporal_relevance'',
                        ''access_frequency'', ''last_accessed'', ''created_at'', ''gate_scores'',
                        ''relationships'', ''context_needed'', ''retrieval_triggers'',
                        ''updated_at'']
      then obj_get d f
      else Undefined)"
  by (simp add: memory_record_def obj_get_def)

lemma unsupplied_field_kept:
  assumes "violations env updateMemoryEmbeddingSchema body = []"
    and "f \<noteq> ''updated_at''" and "get_prop body f = Undefined"
  shows "obj_get (memory_record (apply_set (updateDoc now body) d)) f = obj_get (memory_record d) f"
proof -
  note post = updated_document [OF assms(1), of now d]
  have id: "obj_get (apply_set (updateDoc now body) d) ''_id'' = obj_get d ''_id''"
    by (simp add: post change_set_by_presence_def update_fields_def)
  have vec: "obj_get (apply_set (updateDoc now body) d) ''$vector'' = obj_get d ''$vector''"
    if "f = ''feature_vector''"
    using that assms(3) by (simp add: post change_set_by_presence_def supplied_def)
  have same: "obj_get (apply_set (updateDoc now body) d) f = obj_get d f"
    if "f \<noteq> ''$vector''"
    using that assms(2,3) by (simp add: post change_set_by_presence_def supplied_def)
  show ?thesis
  proof (cases "f = ''id''")
    case True
    with id show ?thesis by (simp add: memory_record_field)
  next
    case False
    note not_id = this
    show ?thesis
    proof (cases "f = ''feature_vector''")
      case True
      with vec show ?thesis by (simp add: memory_record_field)
    next
      case False
      show ?thesis
      proof (cases "f = ''$vector''")
        case True
        then show ?thesis by (simp add: memory_record_field)
      next
        case False
        from same [OF this] not_id \<open>f \<noteq> ''feature_vector''\<close> show ?thesis
          by (simp only: memory_record_field if_False)
      qed
    qed
  qed
qed

text \<open>
  C2. For a validated update the change-set is \<open>updated_at\<close> together with exactly the
  fields present in the request, whatever their value (0 and the empty list included); the
  empty request is valid; and the record returned after the update has every field that was
  not supplied, other than \<open>updated_at\<close>, as it was before.
\<close>

theorem update_applies_supplied_fields:
  assumes "body \<noteq> Undefined" and "validate env updateMemoryEmbeddingSchema body = None"
  shows "map_of (updateDoc now body) = change_set_by_presence now body
       \<and> validate env updateMemoryEmbeddingSchema (Obj []) = None
       \<and> (fault c = None \<and> find (has_id i) (docs c) = Some d \<longrightarrow>
            router_put_id env c now i body
              = (Respond 200
                   (Obj [(''success'', Bool True),
                         (''data'', Obj (memory_record (apply_set (updateDoc now body) d))),
                         (''message'', Str ''Memory embedding updated successfully'')]),
                 c\<lparr>docs := replace_first (has_id i) (apply_set (updateDoc now body) d) (docs c)\<rparr>)
          \<and> (\<forall>k. obj_get (apply_set (updateDoc now body) d) k
                   = (case change_set_by_presence now body k of
                        Some v \<Rightarrow> v
                      | None \<Rightarrow> obj_get d k))
          \<and> (\<forall>f. f \<noteq> ''updated_at'' \<and> get_prop body f = Undefined \<longrightarrow>
                   obj_get (memory_record (apply_set (updateDoc now body) d)) f
                     = obj_get (memory_record d) f))"
proof -
  from assms have valid: "violations env updateMemoryEmbeddingSchema body = []"
    by (simp add: validate_None validation_errors_def)
  have change: "map_of (updateDoc now body) = change_set_by_presence now body"
    using valid by (rule updateDoc_by_presence)
  have route: "router_put_id env c now i body
              = (Respond 200
                   (Obj [(''success'', Bool True),
                         (''data'', Obj (memory_record (apply_set (updateDoc now body) d))),
                         (''message'', Str ''Memory embedding updated successfully'')]),
                 c\<lparr>docs := replace_first (has_id i) (apply_set (updateDoc now body) d) (docs c)\<rparr>)"
    if "fault c = None" and "find (has_id i) (docs c) = Some d"
    using valid that by (rule router_put_id_applies)
  have applied: "fault c = None \<and> find (has_id i) (docs c) = Some d \<longrightarrow>
            router_put_id env c now i body
              = (Respond 200
                   (Obj [(''success'', Bool True),
                         (''data'', Obj (memory_record (apply_set (updateDoc now body) d))),
                         (''message'', Str ''Memory embedding updated successfully'')]),
                 c\<lparr>docs := replace_first (has_id i) (apply_set (updateDoc now body) d) (docs c)\<rparr>)
          \<and> (\<forall>k. obj_get (apply_set (updateDoc now body) d) k
                   = (case change_set_by_presence now body k of
                        Some v \<Rightarrow> v
                      | None \<Rightarrow> obj_get d k))
          \<and> (\<forall>f. f \<noteq> ''updated_at'' \<and> get_prop body f = Undefined \<longrightarrow>
                   obj_get (memory_record (apply_set (updateDoc now body) d)) f
                     = obj_get (memory_record d) f)"
  proof (intro impI conjI allI)
    assume "fault c = None \<and> find (has_id i) (docs c) = Some d"
    then show "router_put_id env c now i body
              = (Respond 200
                   (Obj [(''success'', Bool True),
                         (''data'', Obj (memory_record (apply_set (updateDoc now body) d))),
                         (''message'', Str ''Memory embedding updated successfully'')]),
                 c\<lparr>docs := replace_first (has_id i) (apply_set (updateDoc now body) d) (docs c)\<rparr>)"
      using route by simp
  next
    fix k
    show "obj_get (apply_set (updateDoc now body) d) k
                   = (case change_set_by_presence now body k of
                        Some v \<Rightarrow> v
                      | None \<Rightarrow> obj_get d k)"
      using valid by (rule updated_document)
  next
    fix f
    assume "f \<noteq> ''updated_at'' \<and> get_prop body f = Undefined"
    then have "f \<noteq> ''updated_at''" and "get_prop body f = Undefined"
      by simp_all
    with valid show "obj_get (memory_record (apply_set (updateDoc now body) d)) f
                     = obj_get (memory_record d) f"
      by (rule unsupplied_field_kept)
  qed
  from change empty_update_valid applied show ?thesis
    by (intro conjI)
qed

theorem update_applies_supplied_fields_witness:
  "Obj [(''importance_score'', Num (Fin 0)), (''relationships'', Arr [])] \<noteq> Undefined
   \<and> validate sample_joi updateMemoryEmbeddingSchema
         (Obj [(''importance_score'', Num (Fin 0)), (''relationships'', Arr [])]) = None
   \<and> map_of (updateDoc ''2026-01-01T00:00:00.000Z''
                (Obj [(''importance_score'', Num (Fin 0)), (''relationships'', Arr [])]))
         ''importance_score'' = Some (Num (Fin 0))
   \<and> map_of (updateDoc ''2026-01-01T00:00:00.000Z''
                (Obj [(''importance_score'', Num (Fin 0)), (''relationships'', Arr [])]))
         ''relationships'' = Some (Arr [])
   \<and> map_of (updateDoc ''2026-01-01T00:00:00.000Z''
                (Obj [(''importance_score'', Num (Fin 0)), (''relationships'', Arr [])]))
         ''content_summary'' = None
   \<and> fault sample_collection = None
   \<and> find (has_id ''m1'') (docs sample_collection) = Some (sample_doc ''m1'' (1 / 2))"
proof -
  let ?body = "Obj [(''importance_score'', Num (Fin 0)), (''relationships'', Arr [])]"
  have valid: "validate sample_joi updateMemoryEmbeddingSchema ?body = None"
    by (simp add: validate_def validation_errors_def updateMemoryEmbeddingSchema_def score_def
          obj_get_def sample_joi_def)
  have defined: "?body \<noteq> Undefined"
    by simp
  have f: "fault sample_collection = None"
    by (simp add: sample_collection_def)
  have d: "find (has_id ''m1'') (docs sample_collection) = Some (sample_doc ''m1'' (1 / 2))"
    by (simp add: sample_collection_def sample_doc_def has_id_def obj_get_def)
  from update_applies_supplied_fields [OF defined valid, of "''2026-01-01T00:00:00.000Z''"
         sample_collection "''m1''" "sample_doc ''m1'' (1 / 2)"]
  have "map_of (updateDoc ''2026-01-01T00:00:00.000Z'' ?body)
          = change_set_by_presence ''2026-01-01T00:00:00.000Z'' ?body"
    by (elim conjE)
  then have "map_of (updateDoc ''2026-01-01T00:00:00.000Z'' ?body) ''importance_score''
               = Some (Num (Fin 0))"
    and "map_of (updateDoc ''2026-01-01T00:00:00.000Z'' ?body) ''relationships'' = Some (Arr [])"
    and "map_of (updateDoc ''2026-01-01T00:00:00.000Z'' ?body) ''content_summary'' = None"
    by (simp_all add: change_set_by_presence_def supplied_def update_fields_def obj_get_def)
  with valid defined f d show ?thesis
    by (intro conjI)
qed

end
